(* ===== verification/Redis_Api.thy ===== *)
theory Redis_Api
  imports Aegis_Prelude
begin

text \<open>
  The Redis server is outside the repository. The components that talk to it take the record of
  its commands as an argument (\<open>redis_api\<close>, over a server state the model never looks into), and
  what they rely on is the locale \<open>redis_server\<close>: the documented effect of each command on the
  live keyspace. \<open>entry s k\<close> is the live value of key \<open>k\<close> with its expiry instant, \<open>now s\<close> the
  server's clock in seconds. A key whose expiry instant has passed is not live. Redis keeps
  text only; a text that is a decimal numeral is represented by the number it denotes
  (\<open>Num\<close>), any other text by \<open>Text\<close>, and a hash by the numbers of its fields.
\<close>

datatype rval = Text string | Num rat | Hash "string \<rightharpoonup> rat"

type_synonym keyspace = "string \<Rightarrow> (rval \<times> rat option) option"

record 's redis_api =
  rd_get :: "string \<Rightarrow> 's \<Rightarrow> rval option"
  rd_set_ex :: "string \<Rightarrow> rval \<Rightarrow> int \<Rightarrow> 's \<Rightarrow> 's"
  rd_set_nx_ex :: "string \<Rightarrow> rval \<Rightarrow> int \<Rightarrow> 's \<Rightarrow> bool \<times> 's"
  rd_delete :: "string \<Rightarrow> 's \<Rightarrow> 's"
  rd_incr :: "string \<Rightarrow> 's \<Rightarrow> int \<times> 's"
  rd_decr :: "string \<Rightarrow> 's \<Rightarrow> int \<times> 's"
  rd_expire :: "string \<Rightarrow> int \<Rightarrow> 's \<Rightarrow> 's"
  rd_hmget :: "string \<Rightarrow> string list \<Rightarrow> 's \<Rightarrow> rat option list"
  rd_hmset :: "string \<Rightarrow> (string \<times> rat) list \<Rightarrow> 's \<Rightarrow> 's"
  rd_time :: "'s \<Rightarrow> int \<times> int"

section \<open>Reading the keyspace\<close>

definition deadline_at :: "keyspace \<Rightarrow> string \<Rightarrow> rat option" where
  "deadline_at ks k = (case ks k of Some (_, d) \<Rightarrow> d | None \<Rightarrow> None)"

definition counter_at :: "keyspace \<Rightarrow> string \<Rightarrow> int option" where
  "counter_at ks k =
     (case ks k of None \<Rightarrow> Some 0
      | Some (Num x, _) \<Rightarrow> if of_int \<lfloor>x\<rfloor> = x then Some \<lfloor>x\<rfloor> else None
      | Some _ \<Rightarrow> None)"

definition hash_at :: "keyspace \<Rightarrow> string \<Rightarrow> (string \<rightharpoonup> rat) option" where
  "hash_at ks k =
     (case ks k of None \<Rightarrow> Some Map.empty | Some (Hash h, _) \<Rightarrow> Some h | Some _ \<Rightarrow> None)"

definition string_at :: "keyspace \<Rightarrow> string \<Rightarrow> rval option option" where
  "string_at ks k =
     (case ks k of None \<Rightarrow> Some None | Some (Hash _, _) \<Rightarrow> None | Some (v, _) \<Rightarrow> Some (Some v))"

lemmas keyspace_reads = deadline_at_def counter_at_def hash_at_def string_at_def

text \<open>What remains live of an entry when the clock reads \<open>t\<close>.\<close>

definition alive :: "rat \<Rightarrow> (rval \<times> rat option) option \<Rightarrow> (rval \<times> rat option) option" where
  "alive t e = (case e of Some (v, Some d) \<Rightarrow> if t < d then e else None | _ \<Rightarrow> e)"

lemma alive_None [simp]: "alive t None = None"
  by (simp add: alive_def)

lemma alive_no_deadline [simp]: "alive t (Some (v, None)) = Some (v, None)"
  by (simp add: alive_def)

lemma alive_deadline [simp]:
  "alive t (Some (v, Some d)) = (if t < d then Some (v, Some d) else None)"
  by (simp add: alive_def)

section \<open>The contract of the server\<close>

locale redis_server =
  fixes R :: "'s redis_api" and entry :: "'s \<Rightarrow> keyspace" and now :: "'s \<Rightarrow> rat"
  assumes get_law [redis_laws]: "string_at (entry s) k = Some r \<Longrightarrow> rd_get R k s = r"
    and set_ex_law [redis_laws]: "0 < ttl \<Longrightarrow>
      entry (rd_set_ex R k v ttl s) = (entry s)(k \<mapsto> (v, Some (now s + of_int ttl)))"
    and set_nx_fst_law [redis_laws]: "fst (rd_set_nx_ex R k v ttl s) \<longleftrightarrow> entry s k = None"
    and set_nx_snd_law [redis_laws]: "0 < ttl \<Longrightarrow> entry (snd (rd_set_nx_ex R k v ttl s)) =
      (if entry s k = None then (entry s)(k \<mapsto> (v, Some (now s + of_int ttl))) else entry s)"
    and delete_law [redis_laws]: "entry (rd_delete R k s) = (entry s)(k := None)"
    and incr_fst_law [redis_laws]: "counter_at (entry s) k = Some n \<Longrightarrow> fst (rd_incr R k s) = n + 1"
    and incr_snd_law [redis_laws]: "counter_at (entry s) k = Some n \<Longrightarrow>
      entry (snd (rd_incr R k s)) = (entry s)(k \<mapsto> (Num (of_int (n + 1)), deadline_at (entry s) k))"
    and decr_fst_law [redis_laws]: "counter_at (entry s) k = Some n \<Longrightarrow> fst (rd_decr R k s) = n - 1"
    and decr_snd_law [redis_laws]: "counter_at (entry s) k = Some n \<Longrightarrow>
      entry (snd (rd_decr R k s)) = (entry s)(k \<mapsto> (Num (of_int (n - 1)), deadline_at (entry s) k))"
    and expire_law [redis_laws]: "0 < ttl \<Longrightarrow> entry (rd_expire R k ttl s) =
      (case entry s k of None \<Rightarrow> entry s
       | Some (v, _) \<Rightarrow> (entry s)(k \<mapsto> (v, Some (now s + of_int ttl))))"
    and hmget_law [redis_laws]: "hash_at (entry s) k = Some h \<Longrightarrow> rd_hmget R k fs s = map h fs"
    and hmset_law [redis_laws]: "hash_at (entry s) k = Some h \<Longrightarrow>
      entry (rd_hmset R k fvs s) =
        (entry s)(k \<mapsto> (Hash (h(map fst fvs [\<mapsto>] map snd fvs)), deadline_at (entry s) k))"
    and time_law [redis_laws]:
      "of_int (fst (rd_time R s)) + of_int (snd (rd_time R s)) / 1000000 = now s"
    and now_set_ex [redis_laws]: "now (rd_set_ex R k v ttl s) = now s"
    and now_set_nx [redis_laws]: "now (snd (rd_set_nx_ex R k v ttl s)) = now s"
    and now_delete [redis_laws]: "now (rd_delete R k s) = now s"
    and now_incr [redis_laws]: "now (snd (rd_incr R k s)) = now s"
    and now_decr [redis_laws]: "now (snd (rd_decr R k s)) = now s"
    and now_expire [redis_laws]: "now (rd_expire R k ttl s) = now s"
    and now_hmset [redis_laws]: "now (rd_hmset R k fvs s) = now s"

section \<open>An in-memory server\<close>

text \<open>
  A server that meets the contract: a clock and a table from which expired entries are dropped
  when they are read. It instantiates the parameter wherever a property is evaluated.
\<close>

record mem =
  mem_usec :: int
  mem_data :: keyspace

definition mem_now :: "mem \<Rightarrow> rat" where
  "mem_now m = of_int (mem_usec m) / 1000000"

definition mem_entry :: "mem \<Rightarrow> keyspace" where
  "mem_entry m k = alive (mem_now m) (mem_data m k)"

definition mem_put :: "string \<Rightarrow> rval \<Rightarrow> rat option \<Rightarrow> mem \<Rightarrow> mem" where
  "mem_put k v d m = m\<lparr>mem_data := (mem_data m)(k \<mapsto> (v, d))\<rparr>"

definition mem_ttl :: "mem \<Rightarrow> int \<Rightarrow> rat option" where
  "mem_ttl m ttl = Some (mem_now m + of_int ttl)"

definition mem_add :: "int \<Rightarrow> string \<Rightarrow> mem \<Rightarrow> int \<times> mem" where
  "mem_add i k m =
     (case counter_at (mem_entry m) k of None \<Rightarrow> (0, m)
      | Some n \<Rightarrow> (n + i, mem_put k (Num (of_int (n + i))) (deadline_at (mem_entry m) k) m))"

definition mem_redis :: "mem redis_api" where
  "mem_redis =
     \<lparr>rd_get = (\<lambda>k m. case string_at (mem_entry m) k of Some v \<Rightarrow> v | None \<Rightarrow> None),
      rd_set_ex = (\<lambda>k v ttl m. mem_put k v (mem_ttl m ttl) m),
      rd_set_nx_ex = (\<lambda>k v ttl m. if mem_entry m k = None then (True, mem_put k v (mem_ttl m ttl) m)
                                   else (False, m)),
      rd_delete = (\<lambda>k m. m\<lparr>mem_data := (mem_data m)(k := None)\<rparr>),
      rd_incr = mem_add 1,
      rd_decr = mem_add (- 1),
      rd_expire = (\<lambda>k ttl m. case mem_entry m k of None \<Rightarrow> m | Some (v, _) \<Rightarrow> mem_put k v (mem_ttl m ttl) m),
      rd_hmget = (\<lambda>k fs m. case hash_at (mem_entry m) k of Some h \<Rightarrow> map h fs | None \<Rightarrow> map (\<lambda>_. None) fs),
      rd_hmset = (\<lambda>k fvs m. case hash_at (mem_entry m) k of None \<Rightarrow> m
         | Some h \<Rightarrow> mem_put k (Hash (h(map fst fvs [\<mapsto>] map snd fvs))) (deadline_at (mem_entry m) k) m),
      rd_time = (\<lambda>m. (mem_usec m div 1000000, mem_usec m mod 1000000))\<rparr>"

lemma mem_entry_put:
  "alive (mem_now m) (Some (v, d)) = Some (v, d) \<Longrightarrow>
   mem_entry (mem_put k v d m) = (mem_entry m)(k \<mapsto> (v, d))"
  by (auto simp: mem_entry_def mem_put_def mem_now_def fun_eq_iff)

lemma alive_alive [simp]: "alive t (alive t e) = alive t e"
  by (auto simp: alive_def split: option.splits)

lemma mem_entry_alive: "alive (mem_now m) (mem_entry m k) = mem_entry m k"
  by (simp add: mem_entry_def)

lemma alive_deadline_at [simp]:
  "alive (mem_now m) (Some (v, deadline_at (mem_entry m) k)) = Some (v, deadline_at (mem_entry m) k)"
  using mem_entry_alive [of m k]
  by (auto simp: deadline_at_def alive_def split: option.splits if_splits)

lemma mem_now_put [simp]: "mem_now (mem_put k v d m) = mem_now m"
  by (simp add: mem_now_def mem_put_def)

lemma alive_ttl [simp]: "0 < ttl \<Longrightarrow> alive (mem_now m) (Some (v, mem_ttl m ttl)) = Some (v, mem_ttl m ttl)"
  by (simp add: mem_ttl_def)

lemma mem_time: "of_int (u div 1000000) + of_int (u mod 1000000) / 1000000 = (of_int u / 1000000 :: rat)"
proof -
  have "(of_int u :: rat) = of_int (1000000 * (u div 1000000) + u mod 1000000)" by simp
  then show ?thesis by (simp only: of_int_add of_int_mult of_int_numeral) simp
qed

interpretation mem_server: redis_server mem_redis mem_entry mem_now
  apply unfold_locales
  subgoal by (simp add: mem_redis_def)
  subgoal by (simp add: mem_redis_def mem_entry_put mem_ttl_def)
  subgoal by (simp add: mem_redis_def)
  subgoal by (simp add: mem_redis_def mem_entry_put mem_ttl_def)
  subgoal by (auto simp: mem_redis_def mem_entry_def mem_now_def fun_eq_iff)
  subgoal by (simp add: mem_redis_def mem_add_def)
  subgoal by (simp add: mem_redis_def mem_add_def mem_entry_put)
  subgoal by (simp add: mem_redis_def mem_add_def)
  subgoal by (simp add: mem_redis_def mem_add_def mem_entry_put)
  subgoal by (auto simp: mem_redis_def mem_entry_put mem_ttl_def split: option.splits)
  subgoal by (simp add: mem_redis_def)
  subgoal by (simp add: mem_redis_def mem_entry_put)
  subgoal by (simp add: mem_redis_def mem_now_def mem_time)
  subgoal by (simp add: mem_redis_def)
  subgoal by (simp add: mem_redis_def)
  subgoal by (simp add: mem_redis_def mem_now_def)
  subgoal by (simp add: mem_redis_def mem_add_def split: option.splits)
  subgoal by (simp add: mem_redis_def mem_add_def split: option.splits)
  subgoal by (auto simp: mem_redis_def split: option.splits)
  subgoal by (auto simp: mem_redis_def split: option.splits)
  done

text \<open>The clock of the in-memory server moved forward.\<close>

definition mem_wait :: "int \<Rightarrow> mem \<Rightarrow> mem" where
  "mem_wait usec m = m\<lparr>mem_usec := mem_usec m + usec\<rparr>"


lemma mem_wait_now [simp]: "mem_now (mem_wait u m) = mem_now m + of_int u / 1000000"
  by (simp add: mem_now_def mem_wait_def add_divide_distrib)

lemma mem_wait_entry:
  "0 \<le> u \<Longrightarrow> mem_entry (mem_wait u m) k = alive (mem_now (mem_wait u m)) (mem_entry m k)"
  by (auto simp: mem_entry_def mem_now_def mem_wait_def alive_def field_simps split: option.splits)

definition mem_empty :: mem where
  "mem_empty = \<lparr>mem_usec = 0, mem_data = Map.empty\<rparr>"

lemma mem_empty_entry [simp]: "mem_entry mem_empty k = None" "mem_now mem_empty = 0"
  by (simp_all add: mem_entry_def mem_empty_def mem_now_def)

end
