(* ===== verification/Lua_Numbers.thy ===== *)
theory Lua_Numbers
  imports Aegis_Prelude
begin

text \<open>
  The Lua scripts of \<^verbatim>\<open>services/rate_limiter.py\<close> keep their numbers in Redis as text: every
  number is written with \<open>tostring\<close>, which formats it with \<^verbatim>\<open>%.14g\<close>, and read back with
  \<open>tonumber\<close>. What survives one such round trip is the number rounded to fourteen significant
  decimal digits. This theory defines that rounding and proves what the scripts rely on: it is
  monotone, exact on the integers a limit can be, and its relative error is below \<open>1 / (2 * 10^13)\<close>.
\<close>

section \<open>The decimal exponent\<close>

definition dec_exp :: "rat \<Rightarrow> int" where
  "dec_exp x =
     (if 1 \<le> x then int (floorlog 10 (nat \<lfloor>x\<rfloor>)) - 1
      else - int (floorlog 10 (nat \<lceil>1 / x\<rceil> - 1)))"

lemma dec_exp_ge1:
  assumes "1 \<le> x"
  shows "10 powi dec_exp x \<le> x \<and> x < 10 powi (dec_exp x + 1)"
proof -
  define n where "n = nat \<lfloor>x\<rfloor>"
  define f where "f = floorlog 10 n"
  have n: "0 < n" "of_nat n \<le> x" "x < of_nat n + 1"
    using assms floor_correct [of x] by (auto simp: n_def le_floor_iff of_nat_nat)
  have b: "10 ^ (f - 1) \<le> n" "n < 10 ^ f"
    using floorlog_bounds [of n 10] n(1) by (auto simp: f_def)
  have f1: "f \<noteq> 0" using b(2) n(1) by (intro notI) simp
  have e: "dec_exp x = int (f - 1)" using assms f1 by (simp add: dec_exp_def f_def n_def)
  have "(10 :: rat) ^ (f - 1) \<le> of_nat n" using b(1) by (metis of_nat_le_iff of_nat_numeral of_nat_power)
  moreover have "of_nat n + 1 \<le> (10 :: rat) ^ f"
  proof -
    have "n + 1 \<le> 10 ^ f" using b(2) by simp
    then have "(of_nat (n + 1) :: rat) \<le> of_nat (10 ^ f)" by (rule of_nat_mono)
    then show ?thesis by simp
  qed
  moreover have "int (f - 1) + 1 = int f" using f1 by simp
  ultimately show ?thesis
    using n unfolding e by (metis power_int_of_nat order_trans less_le_trans)
qed

lemma dec_exp_lt1:
  assumes "0 < x" "x < 1"
  shows "10 powi dec_exp x \<le> x \<and> x < 10 powi (dec_exp x + 1)"
proof -
  define n where "n = nat \<lceil>1 / x\<rceil> - 1"
  define m where "m = floorlog 10 n"
  have inv: "1 < 1 / x" using assms by simp
  then have c: "2 \<le> \<lceil>1 / x\<rceil>" by (simp add: le_ceiling_iff)
  then have i: "int n = \<lceil>1 / x\<rceil> - 1" unfolding n_def by linarith
  have n: "0 < n" using i c by linarith
  have "(of_int (int n) :: rat) = of_int (\<lceil>1 / x\<rceil> - 1)" by (simp only: i)
  then have nq: "(of_nat n :: rat) = of_int \<lceil>1 / x\<rceil> - 1" by (simp only: of_int_of_nat_eq of_int_diff of_int_1)
  have b: "10 ^ (m - 1) \<le> n" "n < 10 ^ m"
    using floorlog_bounds [of n 10] n by (auto simp: m_def)
  have m1: "m \<noteq> 0" using b(2) n by (intro notI) simp
  have e: "dec_exp x = - int m" using assms by (simp add: dec_exp_def m_def n_def)
  have "(10 :: rat) ^ (m - 1) \<le> of_nat n" using b(1) by (metis of_nat_le_iff of_nat_numeral of_nat_power)
  then have lo: "(10 :: rat) ^ (m - 1) < 1 / x" using nq by linarith
  have "n + 1 \<le> 10 ^ m" using b(2) by simp
  then have "(of_nat (n + 1) :: rat) \<le> of_nat (10 ^ m)" by (rule of_nat_mono)
  then have "of_nat n + 1 \<le> (10 :: rat) ^ m" by (simp only: of_nat_add of_nat_1 of_nat_power of_nat_numeral)
  then have hi: "1 / x \<le> (10 :: rat) ^ m" using nq le_of_int_ceiling [of "1 / x"] by linarith
  have e1: "dec_exp x + 1 = - int (m - 1)" using e m1 by simp
  have "inverse (10 ^ m) \<le> x" "x < inverse (10 ^ (m - 1))"
    using lo hi assms by (simp_all add: field_simps)
  then show ?thesis
    unfolding e1 unfolding e by (simp only: power_int_minus power_int_of_nat)
qed

lemma dec_exp_bounds:
  "0 < x \<Longrightarrow> 10 powi dec_exp x \<le> x \<and> x < 10 powi (dec_exp x + 1)"
  using dec_exp_ge1 dec_exp_lt1 by (cases "1 \<le> x") auto

section \<open>Fourteen significant digits\<close>

definition sig14 :: "rat \<Rightarrow> rat" where
  "sig14 x = of_int (round_half_even (x * 10 powi (13 - dec_exp x))) / 10 powi (13 - dec_exp x)"

definition lua_round :: "rat \<Rightarrow> rat" where
  "lua_round x = (if x = 0 then 0 else if x < 0 then - sig14 (- x) else sig14 x)"

lemma powi10_pos [simp]: "0 < (10 :: rat) powi k" by (rule zero_less_power_int) simp

lemma powi10_mono: "i \<le> j \<Longrightarrow> (10 :: rat) powi i \<le> 10 powi j"
  by (intro power_int_increasing) auto

lemma powi10_split: "(10 :: rat) powi (a + b) = 10 powi a * 10 powi b"
  by (rule power_int_add) simp

lemma sig14_error:
  assumes "0 < x" shows "\<bar>sig14 x - x\<bar> \<le> x / (2 * 10 ^ 13)"
proof -
  define P :: rat where "P = 10 powi (13 - dec_exp x)"
  have P: "0 < P" by (simp add: P_def)
  have "sig14 x = of_int (round_half_even (x * P)) / P" by (simp add: sig14_def P_def)
  then have "sig14 x - x = (of_int (round_half_even (x * P)) - x * P) / P"
    using P by (simp add: diff_divide_distrib)
  then have "\<bar>sig14 x - x\<bar> = \<bar>of_int (round_half_even (x * P)) - x * P\<bar> / P"
    using P by (simp only: abs_divide abs_of_pos)
  also have "\<dots> \<le> (1 / 2) / P"
    using P by (intro divide_right_mono round_half_even_error) simp
  finally have "\<bar>sig14 x - x\<bar> \<le> (1 / 2) / P" .
  moreover have "10 powi dec_exp x * P = 10 ^ 13"
    using powi10_split [of "dec_exp x" "13 - dec_exp x"] by (simp add: P_def)
  then have "10 ^ 13 \<le> x * P" using dec_exp_bounds [OF assms] P by (metis mult_right_mono less_imp_le)
  then have "(1 / 2) / P \<le> x / (2 * 10 ^ 13)" using P by (simp add: field_simps)
  ultimately show ?thesis by linarith
qed

lemma sig14_range:
  assumes "0 < x"
  shows "10 powi dec_exp x \<le> sig14 x \<and> sig14 x \<le> 10 powi (dec_exp x + 1)"
proof -
  define P :: rat where "P = 10 powi (13 - dec_exp x)"
  have P: "0 < P" by (simp add: P_def)
  have lo: "10 powi dec_exp x * P = of_int (10 ^ 13)"
    using powi10_split [of "dec_exp x" "13 - dec_exp x"] by (simp add: P_def)
  have hi: "10 powi (dec_exp x + 1) * P = of_int (10 ^ 14)"
    using powi10_split [of "dec_exp x + 1" "13 - dec_exp x"] by (simp add: P_def)
  have "of_int (10 ^ 13) \<le> x * P" "x * P \<le> of_int (10 ^ 14)"
    using dec_exp_bounds [OF assms] P lo hi by (metis mult_right_mono less_imp_le)+
  then have "10 ^ 13 \<le> round_half_even (x * P)" "round_half_even (x * P) \<le> 10 ^ 14"
    using round_half_even_mono round_half_even_of_int by metis+
  moreover have "sig14 x * P = of_int (round_half_even (x * P))"
    using P by (simp add: sig14_def P_def)
  ultimately have "10 powi dec_exp x * P \<le> sig14 x * P" "sig14 x * P \<le> 10 powi (dec_exp x + 1) * P"
    unfolding lo hi by (simp_all only: of_int_le_iff)
  then show ?thesis using P by simp
qed

lemma sig14_pos: "0 < x \<Longrightarrow> 0 < sig14 x"
  using sig14_range powi10_pos less_le_trans by blast

lemma sig14_mono:
  assumes "0 < x" "x \<le> y" shows "sig14 x \<le> sig14 y"
proof (cases "dec_exp x = dec_exp y")
  case True
  define P :: rat where "P = 10 powi (13 - dec_exp y)"
  have "x * P \<le> y * P" using assms by (simp add: P_def)
  then have "of_int (round_half_even (x * P)) / P \<le> of_int (round_half_even (y * P)) / P"
    by (intro divide_right_mono) (simp_all add: round_half_even_mono less_imp_le P_def)
  then show ?thesis using True by (simp add: sig14_def P_def)
next
  case False
  have y: "0 < y" using assms by simp
  have "10 powi dec_exp x < (10 :: rat) powi (dec_exp y + 1)"
    using dec_exp_bounds [OF assms(1)] dec_exp_bounds [OF y] assms(2) by linarith
  then have "dec_exp x < dec_exp y + 1" using powi10_mono not_le by metis
  with False have "dec_exp x + 1 \<le> dec_exp y" by linarith
  then show ?thesis
    using sig14_range [OF assms(1)] sig14_range [OF y] powi10_mono order_trans by metis
qed

lemma sig14_decimal:
  assumes "0 < n" "n < 10 ^ 14" shows "sig14 (of_int n / 10 ^ d) = of_int n / 10 ^ d"
proof -
  define x :: rat where "x = of_int n / 10 ^ d"
  have x: "0 < x" using assms by (simp add: x_def)
  have "(of_int n :: rat) < of_int (10 ^ 14)" using assms(2) by (simp only: of_int_less_iff)
  then have "x < 10 powi (14 - int d)"
    by (simp add: x_def power_int_diff power_int_of_nat divide_strict_right_mono)
  then have "10 powi dec_exp x < (10 :: rat) powi (14 - int d)"
    using dec_exp_bounds [OF x] by linarith
  then have "dec_exp x < 14 - int d" using powi10_mono not_le by metis
  then have "13 - dec_exp x = int (d + nat (13 - int d - dec_exp x))" by simp
  then obtain k where k: "13 - dec_exp x = int (d + k)" ..
  have scaled: "x * 10 ^ (d + k) = of_int (n * 10 ^ k)" by (simp add: x_def power_add)
  have "sig14 x = of_int (n * 10 ^ k) / 10 ^ (d + k)"
    by (simp only: sig14_def k power_int_of_nat scaled round_half_even_of_int)
  then show ?thesis by (simp add: x_def power_add)
qed

lemma sig14_of_int: "0 < n \<Longrightarrow> n < 10 ^ 14 \<Longrightarrow> sig14 (of_int n) = of_int n"
  using sig14_decimal [of n 0] by simp

section \<open>What the scripts rely on\<close>

text \<open>
  The interface between the number format and the scripts: every law the token bucket and the
  budget counter need of one write and read of a number.
\<close>

locale number_format =
  fixes rnd :: "rat \<Rightarrow> rat"
  assumes rnd_mono: "x \<le> y \<Longrightarrow> rnd x \<le> rnd y"
    and rnd_int: "\<bar>n\<bar> < 10 ^ 14 \<Longrightarrow> rnd (of_int n) = of_int n"
    and rnd_error: "\<bar>rnd x - x\<bar> \<le> \<bar>x\<bar> / (2 * 10 ^ 13)"
begin

lemma rnd_zero [simp]: "rnd 0 = 0"
  using rnd_int [of 0] by simp

lemma rnd_nonneg: "0 \<le> x \<Longrightarrow> 0 \<le> rnd x"
  using rnd_mono [of 0 x] by simp

lemma rnd_le_int: "x \<le> of_int n \<Longrightarrow> \<bar>n\<bar> < 10 ^ 14 \<Longrightarrow> rnd x \<le> of_int n"
  using rnd_mono [of x "of_int n"] rnd_int [of n] by simp

lemma rnd_error_le: "0 \<le> x \<Longrightarrow> x \<le> c \<Longrightarrow> \<bar>rnd x - x\<bar> \<le> c / (2 * 10 ^ 13)"
  by (rule order_trans [OF rnd_error divide_right_mono]) simp_all

lemma rnd_upper: "0 \<le> x \<Longrightarrow> x \<le> c \<Longrightarrow> rnd x \<le> x + c / (2 * 10 ^ 13)"
  using rnd_error_le [of x c] unfolding abs_le_iff by linarith

lemma rnd_lower: "0 \<le> x \<Longrightarrow> x \<le> c \<Longrightarrow> x - c / (2 * 10 ^ 13) \<le> rnd x"
  using rnd_error_le [of x c] unfolding abs_le_iff by linarith

end

lemma lua_round_mono:
  assumes "x \<le> y" shows "lua_round x \<le> lua_round y"
proof -
  consider "0 < x" | "y < 0" | "x \<le> 0" "0 \<le> y" by linarith
  then show ?thesis
  proof cases
    case 1
    with assms show ?thesis by (simp add: lua_round_def sig14_mono)
  next
    case 2
    with assms have "sig14 (- y) \<le> sig14 (- x)" by (intro sig14_mono) auto
    with 2 assms show ?thesis by (simp add: lua_round_def)
  next
    case 3
    have "lua_round x \<le> 0" using 3 sig14_pos [of "- x"] by (auto simp: lua_round_def)
    moreover have "0 \<le> lua_round y" using 3 sig14_pos [of y] by (auto simp: lua_round_def)
    ultimately show ?thesis by linarith
  qed
qed

lemma lua_round_int:
  assumes "\<bar>n\<bar> < 10 ^ 14" shows "lua_round (of_int n) = of_int n"
proof -
  consider "n = 0" | "0 < n" | "n < 0" by linarith
  then show ?thesis
  proof cases
    case 3
    then have "sig14 (of_int (- n)) = of_int (- n)" using assms by (intro sig14_of_int) auto
    with 3 show ?thesis by (simp add: lua_round_def)
  qed (use assms sig14_of_int [of n] in \<open>auto simp: lua_round_def\<close>)
qed

lemma lua_round_error: "\<bar>lua_round x - x\<bar> \<le> \<bar>x\<bar> / (2 * 10 ^ 13)"
proof -
  consider "x = 0" | "0 < x" | "x < 0" by linarith
  then show ?thesis
  proof cases
    case 3
    with sig14_error [of "- x"] show ?thesis by (simp add: lua_round_def abs_minus_commute)
  qed (use sig14_error [of x] in \<open>auto simp: lua_round_def\<close>)
qed

text \<open>A monetary amount, kept in cents, survives the round trip.\<close>

lemma lua_round_cents:
  assumes "0 \<le> n" "n < 10 ^ 14" shows "lua_round (of_int n / 100) = of_int n / 100"
  using assms sig14_decimal [of n 2] by (cases "n = 0") (simp_all add: lua_round_def)

interpretation lua: number_format lua_round
  by unfold_locales (use lua_round_mono lua_round_int lua_round_error in auto)

end
