(* ===== verification/Pricing.thy ===== *)
theory Pricing
  imports Aegis_Prelude
begin

text \<open>
  \<^verbatim>\<open>services/pricing.py\<close>: the static price table in USD per million tokens, the lookup by model
  prefix in table order, the prompt-only estimate used before a call and the exact cost used
  after it. The properties: the table order makes the first match the longest match, costs are
  non-negative, additive and monotone, and the estimate never exceeds the final cost.
\<close>

type_synonym price = "rat \<times> rat"

definition PRICE_PER_1M_TOKENS_USD :: "(string \<times> price) list" where
  "PRICE_PER_1M_TOKENS_USD =
     [(''gpt-4o-mini'', (15 / 100, 60 / 100)),
      (''gpt-4o'', (250 / 100, 10)),
      (''gpt-4-turbo'', (10, 30)),
      (''gpt-4'', (30, 60)),
      (''gpt-3.5-turbo'', (50 / 100, 150 / 100))]"

definition DEFAULT_PRICE_PER_1M_USD :: price where
  "DEFAULT_PRICE_PER_1M_USD = (1, 3)"

definition OLLAMA_PRICE_PER_1M_USD :: price where
  "OLLAMA_PRICE_PER_1M_USD = (0, 0)"

fun first_prefix_price :: "string \<Rightarrow> (string \<times> price) list \<Rightarrow> price" where
  "first_prefix_price m [] = DEFAULT_PRICE_PER_1M_USD"
| "first_prefix_price m ((p, price) # rest) =
     (if starts_with m p then price else first_prefix_price m rest)"

definition price_for :: "string \<Rightarrow> string \<Rightarrow> price" where
  "price_for m provider_name =
     (if provider_name = ''ollama'' then OLLAMA_PRICE_PER_1M_USD
      else first_prefix_price m PRICE_PER_1M_TOKENS_USD)"

definition estimate_prompt_cost_usd :: "string \<Rightarrow> int \<Rightarrow> string \<Rightarrow> rat" where
  "estimate_prompt_cost_usd m prompt_tokens provider_name =
     (let (prompt_price, _) = price_for m provider_name
      in (of_int prompt_tokens / 1000000) * prompt_price)"

definition calculate_cost_usd :: "string \<Rightarrow> int \<Rightarrow> int \<Rightarrow> string \<Rightarrow> rat" where
  "calculate_cost_usd m prompt_tokens completion_tokens provider_name =
     (let (prompt_price, completion_price) = price_for m provider_name
      in (of_int prompt_tokens / 1000000) * prompt_price
         + (of_int completion_tokens / 1000000) * completion_price)"

lemmas price_tables =
  PRICE_PER_1M_TOKENS_USD_def DEFAULT_PRICE_PER_1M_USD_def OLLAMA_PRICE_PER_1M_USD_def

section \<open>The lookup\<close>

text \<open>
  A table in which no entry is a proper prefix of a later one: the first match is then the
  longest match.
\<close>

fun longest_first :: "string list \<Rightarrow> bool" where
  "longest_first [] = True"
| "longest_first (p # ps) = (list_all (\<lambda>q. p = q \<or> \<not> starts_with q p) ps \<and> longest_first ps)"

lemma prefix_of_both:
  "starts_with m p \<Longrightarrow> starts_with m q \<Longrightarrow> length p < length q \<Longrightarrow> starts_with q p"
  by (metis starts_with_iff_prefix prefix_length_prefix less_imp_le)

lemma first_prefix_price_longest:
  "longest_first (map fst tbl) \<Longrightarrow> (p, price) \<in> set tbl \<Longrightarrow> starts_with m p \<Longrightarrow>
   \<exists>q. (q, first_prefix_price m tbl) \<in> set tbl \<and> starts_with m q \<and> length p \<le> length q"
proof (induction tbl)
  case (Cons e tbl)
  obtain q price' where e: "e = (q, price')" by (cases e)
  show ?case
  proof (cases "starts_with m q")
    case True
    have "length p \<le> length q"
    proof (rule ccontr)
      assume "\<not> length p \<le> length q"
      then have "starts_with p q" "p \<noteq> q" using prefix_of_both [OF True Cons.prems(3)] by auto
      moreover have "p \<in> fst ` set tbl" using Cons.prems(2) \<open>p \<noteq> q\<close> e by force
      ultimately show False using Cons.prems(1) e by (auto simp: list_all_iff)
    qed
    with True e show ?thesis by auto
  next
    case False
    with Cons show ?thesis using e by auto
  qed
qed simp

lemma price_table_longest_first: "longest_first (map fst PRICE_PER_1M_TOKENS_USD)"
  by (simp add: PRICE_PER_1M_TOKENS_USD_def starts_with_def)

lemma price_for_nonneg: "0 \<le> fst (price_for m n) \<and> 0 \<le> snd (price_for m n)"
  by (simp add: price_for_def price_tables)

lemma estimate_nonneg: "0 \<le> t \<Longrightarrow> 0 \<le> estimate_prompt_cost_usd m t n"
  using price_for_nonneg [of m n] by (cases "price_for m n") (simp add: estimate_prompt_cost_usd_def)

lemma estimate_ollama [simp]: "estimate_prompt_cost_usd m t ''ollama'' = 0"
  by (simp add: estimate_prompt_cost_usd_def price_for_def price_tables)

lemma calculate_cost_split:
  "calculate_cost_usd m p c n =
     estimate_prompt_cost_usd m p n + (of_int c / 1000000) * snd (price_for m n)"
  by (simp add: calculate_cost_usd_def estimate_prompt_cost_usd_def split: prod.split)

lemma calculate_cost_nonneg: "0 \<le> p \<Longrightarrow> 0 \<le> c \<Longrightarrow> 0 \<le> calculate_cost_usd m p c n"
  using price_for_nonneg [of m n] estimate_nonneg [of p m n] by (simp add: calculate_cost_split)

lemma estimate_mono: "p \<le> p' \<Longrightarrow> estimate_prompt_cost_usd m p n \<le> estimate_prompt_cost_usd m p' n"
  using price_for_nonneg [of m n]
  by (auto simp: estimate_prompt_cost_usd_def split: prod.split intro!: mult_right_mono)

lemma first_prefix_price_default:
  "\<forall>q \<in> fst ` set tbl. \<not> starts_with m q \<Longrightarrow> first_prefix_price m tbl = DEFAULT_PRICE_PER_1M_USD"
  by (induction tbl) auto

text \<open>
  The price of a model is that of the longest matching entry of the table: a model that some
  entry is a prefix of gets the price of an entry at least as long as every other matching one
  (so \<open>gpt-4o-mini\<close> never pays for \<open>gpt-4o\<close>, nor \<open>gpt-4-turbo\<close> for \<open>gpt-4\<close>), a model no entry
  matches gets the default price, and Ollama is free whatever the model is called.
\<close>

theorem price_for_longest_prefix:
  "price_for m ''ollama'' = (0, 0)
   \<and> (n \<noteq> ''ollama'' \<longrightarrow>
       ((\<forall>q \<in> fst ` set PRICE_PER_1M_TOKENS_USD. \<not> starts_with m q) \<and> price_for m n = DEFAULT_PRICE_PER_1M_USD)
     \<or> (\<exists>q. (q, price_for m n) \<in> set PRICE_PER_1M_TOKENS_USD \<and> starts_with m q
          \<and> (\<forall>p \<in> fst ` set PRICE_PER_1M_TOKENS_USD. starts_with m p \<longrightarrow> length p \<le> length q)))"
proof -
  let ?T = PRICE_PER_1M_TOKENS_USD
  have inj: "q = q'" if "(q, pr) \<in> set ?T" "(q', pr) \<in> set ?T" for q q' pr
    using that by (auto simp: PRICE_PER_1M_TOKENS_USD_def)
  have "\<exists>q. (q, first_prefix_price m ?T) \<in> set ?T \<and> starts_with m q
        \<and> (\<forall>p \<in> fst ` set ?T. starts_with m p \<longrightarrow> length p \<le> length q)"
    if ex: "\<exists>p \<in> fst ` set ?T. starts_with m p"
  proof -
    from ex obtain p0 pr0 where "(p0, pr0) \<in> set ?T" "starts_with m p0" by auto
    from first_prefix_price_longest [OF price_table_longest_first this] obtain q where
      q: "(q, first_prefix_price m ?T) \<in> set ?T" "starts_with m q" by auto
    have "length p \<le> length q" if "(p, pr) \<in> set ?T" "starts_with m p" for p pr
      using first_prefix_price_longest [OF price_table_longest_first that] inj q by blast
    with q show ?thesis by (intro exI [of _ q]) auto
  qed
  then show ?thesis
    using first_prefix_price_default [of ?T m] by (auto simp: price_for_def OLLAMA_PRICE_PER_1M_USD_def)
qed

theorem price_for_longest_prefix_witness:
  "\<exists>q. (q, price_for ''gpt-4o-mini-2024'' ''openai'') \<in> set PRICE_PER_1M_TOKENS_USD
      \<and> length ''gpt-4o-mini'' \<le> length q"
proof -
  have m: "starts_with ''gpt-4o-mini-2024'' ''gpt-4o-mini''" by (simp add: starts_with_def)
  have i: "''gpt-4o-mini'' \<in> fst ` set PRICE_PER_1M_TOKENS_USD" by (simp add: PRICE_PER_1M_TOKENS_USD_def)
  show ?thesis
    using price_for_longest_prefix [of "''gpt-4o-mini-2024''" "''openai''"] m i by blast
qed

text \<open>
  What the gateway charges is additive in the tokens of the calls and monotone in both token
  counts; the estimate reserved before a call is exactly the prompt's share of the final cost, so
  it never exceeds it, and neither is ever negative.
\<close>

theorem cost_accounting:
  assumes "0 \<le> p" "p \<le> p'" "0 \<le> c" "c \<le> c'"
  shows "calculate_cost_usd m (p + p') (c + c') n = calculate_cost_usd m p c n + calculate_cost_usd m p' c' n
       \<and> 0 \<le> estimate_prompt_cost_usd m p n
       \<and> estimate_prompt_cost_usd m p n = calculate_cost_usd m p 0 n
       \<and> estimate_prompt_cost_usd m p n \<le> calculate_cost_usd m p c n
       \<and> calculate_cost_usd m p c n \<le> calculate_cost_usd m p' c' n"
proof (intro conjI)
  have s: "0 \<le> snd (price_for m n)" using price_for_nonneg by blast
  show "calculate_cost_usd m (p + p') (c + c') n = calculate_cost_usd m p c n + calculate_cost_usd m p' c' n"
    by (simp add: calculate_cost_usd_def field_simps split: prod.split)
  show "0 \<le> estimate_prompt_cost_usd m p n" using assms(1) by (rule estimate_nonneg)
  show "estimate_prompt_cost_usd m p n = calculate_cost_usd m p 0 n" by (simp add: calculate_cost_split)
  show "estimate_prompt_cost_usd m p n \<le> calculate_cost_usd m p c n"
    using assms(3) s by (simp add: calculate_cost_split)
  have "(of_int c / 1000000) * snd (price_for m n) \<le> (of_int c' / 1000000) * snd (price_for m n)"
    using assms(4) s by (intro mult_right_mono) simp_all
  then show "calculate_cost_usd m p c n \<le> calculate_cost_usd m p' c' n"
    using estimate_mono [OF assms(2)] by (simp add: calculate_cost_split add_mono)
qed

theorem cost_accounting_witness:
  "calculate_cost_usd ''gpt-4'' 10 5 ''openai'' \<le> calculate_cost_usd ''gpt-4'' 20 7 ''openai''"
  using cost_accounting [of 10 20 5 7] by simp

end
