(* ===== verification/Uuid.thy ===== *)
theory Uuid
  imports Aegis_Prelude "HOL-Library.Word"
begin

text \<open>
  \<open>uuid.UUID\<close> as a 128-bit word and its text \<open>str(u)\<close>: thirty-two lower-case hexadecimal digits
  with dashes in the 8-4-4-4-12 grouping. Every Redis key of the gateway embeds this text, so
  what matters of it is that it is injective, always 36 characters long, and free of the
  separator the keys use.
\<close>

type_synonym uuid = "128 word"

definition hex_char :: "nat \<Rightarrow> char" where
  "hex_char d = ''0123456789abcdef'' ! d"

fun hex_digits :: "nat \<Rightarrow> nat \<Rightarrow> string" where
  "hex_digits 0 n = []"
| "hex_digits (Suc k) n = hex_digits k (n div 16) @ [hex_char (n mod 16)]"

definition dash_groups :: "string \<Rightarrow> string" where
  "dash_groups h = take 8 h @ ''-'' @ take 4 (drop 8 h) @ ''-'' @ take 4 (drop 12 h)
     @ ''-'' @ take 4 (drop 16 h) @ ''-'' @ drop 20 h"

definition uuid_str :: "uuid \<Rightarrow> string" where
  "uuid_str u = dash_groups (hex_digits 32 (unat u))"

lemma length_hex_digits [simp]: "length (hex_digits k n) = k"
  by (induction k arbitrary: n) auto

lemma hex_char_cases: "d < 16 \<Longrightarrow> hex_char d \<in> set ''0123456789abcdef''"
  unfolding hex_char_def by (rule nth_mem) simp

lemma hex_char_inj: "d < 16 \<Longrightarrow> e < 16 \<Longrightarrow> hex_char d = hex_char e \<Longrightarrow> d = e"
  unfolding hex_char_def
  by (rule nth_eq_iff_index_eq [of "''0123456789abcdef''", THEN iffD1]) auto

lemma set_hex_digits: "set (hex_digits k n) \<subseteq> set ''0123456789abcdef''"
proof (induction k arbitrary: n)
  case (Suc k)
  then show ?case using hex_char_cases [of "n mod 16"] by simp
qed simp

lemma hex_digits_inj:
  "m < 16 ^ k \<Longrightarrow> n < 16 ^ k \<Longrightarrow> hex_digits k m = hex_digits k n \<Longrightarrow> m = n"
proof (induction k arbitrary: m n)
  case (Suc k)
  then have "m div 16 = n div 16"
    by (intro Suc.IH) (auto simp: less_mult_imp_div_less mult.commute)
  moreover have "m mod 16 = n mod 16"
    using Suc.prems(3) by (intro hex_char_inj) auto
  ultimately show ?case by (metis mult_div_mod_eq)
qed simp

lemma dash_groups_inj:
  assumes "length g = 32" "length h = 32" "dash_groups g = dash_groups h" shows "g = h"
proof -
  have step: "take a (drop b x) @ drop (a + b) x = drop b x" for a b and x :: string
    by (metis append_take_drop_id drop_drop)
  have split: "x = take 8 x @ take 4 (drop 8 x) @ take 4 (drop 12 x) @ take 4 (drop 16 x) @ drop 20 x"
    for x :: string
    using step [of 4 8 x] step [of 4 12 x] step [of 4 16 x] by simp
  have "take 8 g = take 8 h" "take 4 (drop 8 g) = take 4 (drop 8 h)"
    "take 4 (drop 12 g) = take 4 (drop 12 h)" "take 4 (drop 16 g) = take 4 (drop 16 h)"
    "drop 20 g = drop 20 h"
    using assms by (auto simp: dash_groups_def)
  then show ?thesis using split [of g] split [of h] by metis
qed

lemma uuid_str_inj [simp]: "uuid_str u = uuid_str v \<longleftrightarrow> u = v"
proof
  assume "uuid_str u = uuid_str v"
  then have h: "hex_digits 32 (unat u) = hex_digits 32 (unat v)"
    unfolding uuid_str_def by (rule dash_groups_inj [OF length_hex_digits length_hex_digits])
  have bound: "unat w < 16 ^ 32" for w :: uuid
    by (rule order_less_le_trans [OF unsigned_less]) simp
  have "unat u = unat v" by (rule hex_digits_inj [OF bound bound h])
  then show "u = v" by (rule unsigned_word_eqI)
qed simp

lemma length_uuid_str [simp]: "length (uuid_str u) = 36"
  by (simp add: uuid_str_def dash_groups_def)

lemma set_uuid_str: "set (uuid_str u) \<subseteq> set ''0123456789abcdef-''"
proof -
  have "set (dash_groups h) \<subseteq> insert CHR ''-'' (set h)" for h
    by (auto simp: dash_groups_def dest: in_set_takeD in_set_dropD)
  then show ?thesis using set_hex_digits unfolding uuid_str_def by fastforce
qed

lemma uuid_str_no_colon [simp]: "CHR '':'' \<notin> set (uuid_str u)"
  using set_uuid_str [of u] by auto

lemma uuid_str_append_inj:
  "uuid_str u @ x = uuid_str v @ y \<longleftrightarrow> u = v \<and> x = y"
  by (metis append_eq_append_conv length_uuid_str uuid_str_inj)

end
