(* ===== verification/Schemas.thy ===== *)
theory Schemas
  imports Uuid
begin

text \<open>
  The data the gateway's parts exchange (\<^verbatim>\<open>schemas/auth.py\<close>, \<^verbatim>\<open>schemas/chat.py\<close>,
  \<^verbatim>\<open>schemas/errors.py\<close>): JSON values, chat requests and responses, the tenant context that
  authentication attaches to a request, and the HTTP errors in OpenAI's shape. Fields of
  different records that share a name in the source carry a prefix here.
\<close>

section \<open>JSON values\<close>

datatype json = JNull | JBool bool | JInt int | JNum rat | JStr string
  | JList "json list" | JObj "(string \<times> json) list"

definition jget :: "string \<Rightarrow> json \<Rightarrow> json option" where
  "jget k j = (case j of JObj kvs \<Rightarrow> map_of kvs k | _ \<Rightarrow> None)"

section \<open>Chat requests and responses\<close>

text \<open>A message's content is text, a list of parts (images and the like), or absent.\<close>

datatype content = CText string | CParts "json list" | CNone

record ChatMessage =
  role :: string
  content :: content
  msg_extra :: "(string \<times> json) list"

record ChatCompletionRequest =
  model :: string
  messages :: "ChatMessage list"
  stream :: bool
  req_extra :: "(string \<times> json) list"

record Usage =
  u_prompt_tokens :: int
  u_completion_tokens :: int
  u_total_tokens :: int
  u_extra :: "(string \<times> json) list"

record ChatCompletionResponse =
  resp_id :: string
  resp_object :: string
  resp_created :: int
  resp_model :: string
  choices :: "json list"
  usage :: "Usage option"
  resp_extra :: "(string \<times> json) list"

section \<open>Tenant context\<close>

datatype injection_mode = Block | Log

record TenantContext =
  tenant_id :: uuid
  tenant_name :: string
  api_key_id :: string
  monthly_budget_usd :: rat
  rate_limit_rpm :: int
  rate_limit_tpm :: int
  max_concurrent_requests :: int
  pii_redaction_enabled :: bool
  injection_detection_enabled :: bool
  injection_detection_threshold :: rat
  injection_detection_mode :: injection_mode
  cache_enabled :: bool

section \<open>Errors in OpenAI's shape\<close>

definition openai_error :: "string \<Rightarrow> string \<Rightarrow> string \<Rightarrow> json" where
  "openai_error message error_type code =
     JObj [(''error'', JObj [(''message'', JStr message), (''type'', JStr error_type),
                             (''param'', JNull), (''code'', JStr code)])]"

record HTTPException =
  status_code :: int
  detail :: json
  headers :: "(string \<times> string) list"

definition UnauthorizedError :: "string \<Rightarrow> HTTPException" where
  "UnauthorizedError message =
     \<lparr>status_code = 401,
      detail = openai_error message ''invalid_request_error'' ''invalid_api_key'', headers = []\<rparr>"

definition UnauthorizedError_default :: HTTPException where
  "UnauthorizedError_default = UnauthorizedError ''Invalid API key provided.''"

definition ForbiddenError :: "string \<Rightarrow> HTTPException" where
  "ForbiddenError message =
     \<lparr>status_code = 403,
      detail = openai_error message ''invalid_request_error'' ''forbidden'', headers = []\<rparr>"

text \<open>The machine-readable code of an error body, as a client reads it.\<close>

definition error_code :: "json \<Rightarrow> string option" where
  "error_code j =
     (case Option.bind (jget ''error'' j) (jget ''code'') of Some (JStr c) \<Rightarrow> Some c | _ \<Rightarrow> None)"

lemma error_code_openai_error [simp]: "error_code (openai_error m t c) = Some c"
  by (simp add: error_code_def openai_error_def jget_def)

end
