(* ===== verification/Rate_Limiter.thy ===== *)
theory Rate_Limiter
  imports Redis_Api Lua_Numbers Pricing Schemas
begin

text \<open>
  \<^verbatim>\<open>services/rate_limiter.py\<close>: the token-bucket and budget Lua scripts, the Python wrappers
  around them, the concurrency slot (plain INCR and DECR), the Redis keys, and
  \<open>enforce_request_limits\<close>, which a chat request passes before anything expensive runs. A
  script that fails inside Redis (arithmetic on nil, a value of the wrong kind) surfaces in
  Python as \<open>ResponseError\<close>; it is the value \<open>None\<close> of the scripts' results.
\<close>

section \<open>Constants and keys\<close>

definition BUCKET_KEY_TTL_SECONDS :: int where
  "BUCKET_KEY_TTL_SECONDS = 3600"

definition BUDGET_KEY_TTL_SECONDS :: int where
  "BUDGET_KEY_TTL_SECONDS = 40 * 24 * 3600"

definition CONCURRENCY_KEY_TTL_SECONDS :: int where
  "CONCURRENCY_KEY_TTL_SECONDS = 300"

definition rpm_bucket_key :: "uuid \<Rightarrow> string" where
  "rpm_bucket_key tid = ''ratelimit:rpm:'' @ uuid_str tid"

definition tpm_bucket_key :: "uuid \<Rightarrow> string" where
  "tpm_bucket_key tid = ''ratelimit:tpm:'' @ uuid_str tid"

definition budget_key :: "uuid \<Rightarrow> string \<Rightarrow> string" where
  "budget_key tid year_month = ''budget:'' @ uuid_str tid @ '':'' @ year_month"

definition concurrency_key :: "uuid \<Rightarrow> string" where
  "concurrency_key tid = ''concurrency:'' @ uuid_str tid"

section \<open>The scripts\<close>

record LimitResult =
  allowed :: bool
  remaining :: rat

definition token_bucket_lua ::
  "'s redis_api \<Rightarrow> string \<Rightarrow> rat \<Rightarrow> rat \<Rightarrow> rat \<Rightarrow> int \<Rightarrow> 's \<Rightarrow> (int \<times> rat) option \<times> 's" where
  "token_bucket_lua R bucket_key capacity refill_per_second requested ttl_seconds s =
     (let bucket = rd_hmget R bucket_key [''tokens'', ''updated_at''] s;
          now = of_int (fst (rd_time R s)) + of_int (snd (rd_time R s)) / 1000000
      in case (case bucket ! 0 of None \<Rightarrow> Some (capacity, now)
               | Some tokens \<Rightarrow> map_option (Pair tokens) (bucket ! 1)) of
           None \<Rightarrow> (None, s)
         | Some (tokens, updated_at) \<Rightarrow>
             let elapsed = max 0 (now - updated_at);
                 tokens = min capacity (tokens + elapsed * refill_per_second);
                 allowed = (if requested \<le> tokens then 1 else 0);
                 tokens = (if requested \<le> tokens then tokens - requested else tokens);
                 s = rd_hmset R bucket_key [(''tokens'', lua_round tokens), (''updated_at'', lua_round now)] s;
                 s = rd_expire R bucket_key ttl_seconds s
             in (Some (allowed, lua_round tokens), s))"

definition budget_lua ::
  "'s redis_api \<Rightarrow> string \<Rightarrow> rat \<Rightarrow> rat \<Rightarrow> int \<Rightarrow> 's \<Rightarrow> (int \<times> rat) option \<times> 's" where
  "budget_lua R key increment limit ttl_seconds s =
     (case (case rd_get R key s of None \<Rightarrow> Some 0 | Some (Num x) \<Rightarrow> Some x | Some _ \<Rightarrow> None) of
        None \<Rightarrow> (None, s)
      | Some current \<Rightarrow>
          let new_value = current + increment in
          if new_value > limit then (Some (0, lua_round current), s)
          else (Some (1, lua_round new_value), rd_set_ex R key (Num (lua_round new_value)) ttl_seconds s))"

definition limit_result :: "int \<times> rat \<Rightarrow> LimitResult" where
  "limit_result r = \<lparr>allowed = (fst r \<noteq> 0), remaining = snd r\<rparr>"

definition check_token_bucket ::
  "'s redis_api \<Rightarrow> string \<Rightarrow> rat \<Rightarrow> rat \<Rightarrow> rat \<Rightarrow> 's \<Rightarrow> LimitResult option \<times> 's" where
  "check_token_bucket R key capacity refill_per_second cost s =
     (case token_bucket_lua R key capacity refill_per_second cost BUCKET_KEY_TTL_SECONDS s of
        (r, s') \<Rightarrow> (map_option limit_result r, s'))"

definition check_and_reserve_budget ::
  "'s redis_api \<Rightarrow> string \<Rightarrow> rat \<Rightarrow> rat \<Rightarrow> 's \<Rightarrow> LimitResult option \<times> 's" where
  "check_and_reserve_budget R key increment limit s =
     (case budget_lua R key increment limit BUDGET_KEY_TTL_SECONDS s of
        (r, s') \<Rightarrow> (map_option limit_result r, s'))"

section \<open>Concurrency slots\<close>

definition acquire_concurrency_slot :: "'s redis_api \<Rightarrow> uuid \<Rightarrow> int \<Rightarrow> 's \<Rightarrow> bool \<times> 's" where
  "acquire_concurrency_slot R tid limit s =
     (let key = concurrency_key tid;
          (current, s) = rd_incr R key s;
          s = (if current = 1 then rd_expire R key CONCURRENCY_KEY_TTL_SECONDS s else s)
      in if current > limit then (False, snd (rd_decr R key s)) else (True, s))"

definition release_concurrency_slot :: "'s redis_api \<Rightarrow> uuid \<Rightarrow> 's \<Rightarrow> 's" where
  "release_concurrency_slot R tid s = snd (rd_decr R (concurrency_key tid) s)"

section \<open>All request limits\<close>

datatype limit_error =
    RateLimitExceeded (limit_code: string) (limit_message: string) (retry_after_seconds: "int option")
  | ResponseError

definition enforce_request_limits ::
  "'s redis_api \<Rightarrow> TenantContext \<Rightarrow> string \<Rightarrow> string \<Rightarrow> int \<Rightarrow> string \<Rightarrow> 's
     \<Rightarrow> (limit_error, unit) result \<times> 's" where
  "enforce_request_limits R tenant provider_name mdl prompt_tokens month s =
     (case check_token_bucket R (rpm_bucket_key (tenant_id tenant)) (of_int (rate_limit_rpm tenant))
             (of_int (rate_limit_rpm tenant) / 60) 1 s of
        (None, s) \<Rightarrow> (Inl ResponseError, s)
      | (Some rpm, s) \<Rightarrow>
        if \<not> allowed rpm then
          (Inl (RateLimitExceeded ''rate_limit_exceeded''
             (''Request rate limit exceeded ('' @ int_str (rate_limit_rpm tenant) @ '' requests/min).'')
             (Some 1)), s)
        else case check_token_bucket R (tpm_bucket_key (tenant_id tenant)) (of_int (rate_limit_tpm tenant))
             (of_int (rate_limit_tpm tenant) / 60) (of_int prompt_tokens) s of
        (None, s) \<Rightarrow> (Inl ResponseError, s)
      | (Some tpm, s) \<Rightarrow>
        if \<not> allowed tpm then
          (Inl (RateLimitExceeded ''token_limit_exceeded''
             (''Token rate limit exceeded ('' @ int_str (rate_limit_tpm tenant) @ '' tokens/min).'')
             (Some 1)), s)
        else
          let estimated_cost = estimate_prompt_cost_usd mdl prompt_tokens provider_name in
          if estimated_cost > 0 then
            case check_and_reserve_budget R (budget_key (tenant_id tenant) month) estimated_cost
                   (monthly_budget_usd tenant) s of
              (None, s) \<Rightarrow> (Inl ResponseError, s)
            | (Some budget, s) \<Rightarrow>
                if \<not> allowed budget then
                  (Inl (RateLimitExceeded ''budget_exceeded''
                     (''Monthly budget of $'' @ decimal_str 2 (monthly_budget_usd tenant)
                       @ '' exceeded for this tenant.'') None), s)
                else (Inr (), s)
          else (Inr (), s))"

section \<open>Keys of different tenants and different purposes never meet\<close>

lemmas key_defs = rpm_bucket_key_def tpm_bucket_key_def budget_key_def concurrency_key_def

lemma rpm_key_inj [simp]: "rpm_bucket_key t = rpm_bucket_key u \<longleftrightarrow> t = u"
  by (simp add: key_defs)

lemma tpm_key_inj [simp]: "tpm_bucket_key t = tpm_bucket_key u \<longleftrightarrow> t = u"
  by (simp add: key_defs)

lemma concurrency_key_inj [simp]: "concurrency_key t = concurrency_key u \<longleftrightarrow> t = u"
  by (simp add: key_defs)

lemma budget_key_inj [simp]: "budget_key t m = budget_key u n \<longleftrightarrow> t = u \<and> m = n"
  by (auto simp: key_defs uuid_str_append_inj)

lemma limiter_keys_distinct [simp]:
  "rpm_bucket_key t \<noteq> tpm_bucket_key u" "tpm_bucket_key u \<noteq> rpm_bucket_key t"
  "rpm_bucket_key t \<noteq> budget_key u m" "budget_key u m \<noteq> rpm_bucket_key t"
  "tpm_bucket_key t \<noteq> budget_key u m" "budget_key u m \<noteq> tpm_bucket_key t"
  "concurrency_key t \<noteq> rpm_bucket_key u" "rpm_bucket_key u \<noteq> concurrency_key t"
  "concurrency_key t \<noteq> tpm_bucket_key u" "tpm_bucket_key u \<noteq> concurrency_key t"
  "concurrency_key t \<noteq> budget_key u m" "budget_key u m \<noteq> concurrency_key t"
  by (simp_all add: key_defs)

end
