(* ===== verification/Rate_Limits.thy ===== *)
theory Rate_Limits
  imports Rate_Limiter
begin

text \<open>
  What the limiter guarantees. The abstract bucket \<open>refilled\<close> and its refinement by the Lua
  script; the ceiling on what a bucket admits in any window, on what a month's budget lets
  through, and on how many slots are held; the order in which the limits are checked; and what
  becomes of the slot counter when its key expires under a running request.
\<close>

section \<open>The bucket as a value\<close>

text \<open>\<open>bucket_at\<close> reads a bucket out of the keyspace: \<open>Some None\<close> for a fresh one, \<open>None\<close> if malformed.\<close>

definition bucket_at :: "keyspace \<Rightarrow> string \<Rightarrow> (rat \<times> rat) option option" where
  "bucket_at ks k =
     (case hash_at ks k of None \<Rightarrow> None
      | Some h \<Rightarrow> (case h ''tokens'' of None \<Rightarrow> Some None
                 | Some t \<Rightarrow> map_option (\<lambda>u. Some (t, u)) (h ''updated_at'')))"

definition refilled :: "rat \<Rightarrow> rat \<Rightarrow> rat \<Rightarrow> (rat \<times> rat) option \<Rightarrow> rat" where
  "refilled cap refill t b =
     (case b of None \<Rightarrow> cap | Some (tokens, u) \<Rightarrow> min cap (tokens + max 0 (t - u) * refill))"

definition bucket_valid :: "rat \<Rightarrow> (rat \<times> rat) option \<Rightarrow> bool" where
  "bucket_valid cap b = (case b of None \<Rightarrow> True | Some (tokens, _) \<Rightarrow> 0 \<le> tokens \<and> tokens \<le> cap)"

text \<open>One admission decision: what is left, and what the script writes back.\<close>

definition bucket_left :: "rat \<Rightarrow> rat \<Rightarrow> rat" where
  "bucket_left avail cost = (if cost \<le> avail then avail - cost else avail)"

context redis_server
begin

lemma token_bucket_lua_eval:
  fixes cap refill cost :: rat
  assumes b: "bucket_at (entry s) k = Some b" and ttl: "0 < ttl"
  defines "avail \<equiv> refilled cap refill (now s) b"
  shows "fst (token_bucket_lua R k cap refill cost ttl s) =
           Some (if cost \<le> avail then 1 else 0, lua_round (bucket_left avail cost))"
    and "bucket_at (entry (snd (token_bucket_lua R k cap refill cost ttl s))) k =
           Some (Some (lua_round (bucket_left avail cost), lua_round (now s)))"
    and "deadline_at (entry (snd (token_bucket_lua R k cap refill cost ttl s))) k = Some (now s + of_int ttl)"
    and "j \<noteq> k \<Longrightarrow> entry (snd (token_bucket_lua R k cap refill cost ttl s)) j = entry s j"
    and "now (snd (token_bucket_lua R k cap refill cost ttl s)) = now s"
proof -
  obtain h where h: "hash_at (entry s) k = Some h" using b by (auto simp: bucket_at_def split: option.splits)
  obtain t0 u0 where tu: "(case b of None \<Rightarrow> (cap, now s) | Some tu \<Rightarrow> tu) = (t0, u0)"
    by fastforce
  have read: "(case h ''tokens'' of None \<Rightarrow> Some (cap, now s)
               | Some t \<Rightarrow> map_option (Pair t) ([h ''tokens'', h ''updated_at''] ! 1)) = Some (t0, u0)"
    using b h tu by (auto simp: bucket_at_def split: option.splits)
  have avail: "min cap (t0 + max 0 (now s - u0) * refill) = avail"
    using tu by (auto simp: avail_def refilled_def split: option.splits)
  define s' where "s' = rd_hmset R k
     [(''tokens'', lua_round (bucket_left avail cost)), (''updated_at'', lua_round (now s))] s"
  have eval: "token_bucket_lua R k cap refill cost ttl s =
     (Some (if cost \<le> avail then 1 else 0, lua_round (bucket_left avail cost)), rd_expire R k ttl s')"
    by (simp add: token_bucket_lua_def Let_def hmget_law [OF h] time_law read avail s'_def bucket_left_def
        del: min.bounded_iff min_le_iff_disj le_max_iff_disj)
  have e': "entry s' = (entry s)(k \<mapsto> (Hash (h(''tokens'' \<mapsto> lua_round (bucket_left avail cost),
       ''updated_at'' \<mapsto> lua_round (now s))), deadline_at (entry s) k))"
    by (simp add: s'_def hmset_law [OF h])
  have n': "now s' = now s" by (simp add: s'_def now_hmset)
  show "fst (token_bucket_lua R k cap refill cost ttl s) =
           Some (if cost \<le> avail then 1 else 0, lua_round (bucket_left avail cost))"
    by (simp add: eval)
  show "bucket_at (entry (snd (token_bucket_lua R k cap refill cost ttl s))) k =
           Some (Some (lua_round (bucket_left avail cost), lua_round (now s)))"
    by (simp add: eval expire_law [OF ttl] e' bucket_at_def hash_at_def)
  show "deadline_at (entry (snd (token_bucket_lua R k cap refill cost ttl s))) k = Some (now s + of_int ttl)"
    by (simp add: eval expire_law [OF ttl] e' n' deadline_at_def)
  show "now (snd (token_bucket_lua R k cap refill cost ttl s)) = now s"
    by (simp add: eval now_expire n')
  show "j \<noteq> k \<Longrightarrow> entry (snd (token_bucket_lua R k cap refill cost ttl s)) j = entry s j"
    by (simp add: eval expire_law [OF ttl] e')
qed

lemma check_token_bucket_eval:
  fixes cap refill cost :: rat
  assumes "bucket_at (entry s) k = Some b"
  defines "avail \<equiv> refilled cap refill (now s) b"
  shows "fst (check_token_bucket R k cap refill cost s) =
           Some \<lparr>allowed = (cost \<le> avail), remaining = lua_round (bucket_left avail cost)\<rparr>"
    and "bucket_at (entry (snd (check_token_bucket R k cap refill cost s))) k =
           Some (Some (lua_round (bucket_left avail cost), lua_round (now s)))"
    and "deadline_at (entry (snd (check_token_bucket R k cap refill cost s))) k = Some (now s + 3600)"
    and "j \<noteq> k \<Longrightarrow> entry (snd (check_token_bucket R k cap refill cost s)) j = entry s j"
    and "now (snd (check_token_bucket R k cap refill cost s)) = now s"
  using token_bucket_lua_eval [OF assms(1), where ttl = 3600 and cap = cap and refill = refill and cost = cost]
  unfolding avail_def
  by (auto simp: check_token_bucket_def BUCKET_KEY_TTL_SECONDS_def limit_result_def split: prod.splits)

end


section \<open>Any window\<close>

text \<open>
  A run of checks against one key. Before each check the environment acts: time passes, other
  tenants' requests run, the server drops expired keys. It only must not touch this key
  otherwise, and the clock must not go back.
\<close>

definition leaves_key :: "('s \<Rightarrow> keyspace) \<Rightarrow> ('s \<Rightarrow> rat) \<Rightarrow> string \<Rightarrow> ('s \<Rightarrow> 's) \<Rightarrow> bool" where
  "leaves_key entry now k env \<longleftrightarrow>
     (\<forall>s. now s \<le> now (env s) \<and> entry (env s) k = alive (now (env s)) (entry s k))"

fun check_run :: "('s \<Rightarrow> rat) \<Rightarrow> (rat \<Rightarrow> 's \<Rightarrow> LimitResult option \<times> 's) \<Rightarrow> (('s \<Rightarrow> 's) \<times> rat) list \<Rightarrow> 's
    \<Rightarrow> (rat \<times> rat \<times> LimitResult option) list" where
  "check_run now chk [] s = []"
| "check_run now chk ((env, cost) # rest) s =
     (now (env s), cost, fst (chk cost (env s))) # check_run now chk rest (snd (chk cost (env s)))"

definition granted :: "LimitResult option \<Rightarrow> bool" where
  "granted r \<longleftrightarrow> (case r of None \<Rightarrow> False | Some l \<Rightarrow> allowed l)"

definition admitted :: "(rat \<times> rat \<times> LimitResult option) list \<Rightarrow> rat" where
  "admitted tr = sum_list (map (\<lambda>(t, c, r). if granted r then c else 0) tr)"

lemma admitted_simps [simp]:
  "admitted [] = 0" "admitted ((t, c, r) # tr) = (if granted r then c else 0) + admitted tr"
  by (simp_all add: admitted_def)

lemma length_check_run [simp]: "length (check_run now chk calls s) = length calls"
  by (induction now chk calls s rule: check_run.induct) auto

lemma bucket_at_alive:
  "bucket_at ks k = Some b \<Longrightarrow> ks' k = alive t (ks k) \<Longrightarrow>
   bucket_at ks' k = Some (if ks' k = None then None else b)"
  by (auto simp: bucket_at_def hash_at_def alive_def split: option.splits if_splits)

lemma refilled_le_cap: "refilled cap refill t b \<le> cap"
  by (auto simp: refilled_def split: option.splits)

lemma refilled_nonneg:
  "0 \<le> cap \<Longrightarrow> 0 \<le> refill \<Longrightarrow> bucket_valid cap b \<Longrightarrow> 0 \<le> refilled cap refill t b"
  by (auto simp: refilled_def bucket_valid_def split: option.splits)

lemma bucket_left_bounds: "0 \<le> a \<Longrightarrow> 0 \<le> c \<Longrightarrow> 0 \<le> bucket_left a c \<and> bucket_left a c \<le> a"
  by (auto simp: bucket_left_def)

text \<open>
  What the next check can find, from what the last one left: the refill of the time between,
  plus the error of the two numbers written in fourteen digits.
\<close>

lemma refilled_after:
  fixes l :: rat
  assumes "0 \<le> l" "l \<le> cap" "0 \<le> t" "t \<le> t'" "t \<le> T" "0 \<le> refill"
  shows "refilled cap refill t' (Some (lua_round l, lua_round t))
           \<le> l + (t' - t) * refill + (cap + T * refill) / (2 * 10 ^ 13)"
proof -
  have up: "lua_round l \<le> l + cap / (2 * 10 ^ 13)" using assms by (intro lua.rnd_upper)
  have "t' - lua_round t \<le> t' - t + T / (2 * 10 ^ 13)"
    using lua.rnd_lower [OF assms(3,5)] by linarith
  moreover have "0 \<le> t' - t + T / (2 * 10 ^ 13)" using assms by simp
  ultimately have "max 0 (t' - lua_round t) * refill \<le> (t' - t + T / (2 * 10 ^ 13)) * refill"
    using assms(6) by (intro mult_right_mono) auto
  then have "lua_round l + max 0 (t' - lua_round t) * refill
      \<le> l + (t' - t) * refill + (cap + T * refill) / (2 * 10 ^ 13)"
    using up by (simp add: algebra_simps add_divide_distrib)
  then show ?thesis by (simp add: refilled_def min.coboundedI2)
qed


definition bucket_run ::
  "'s redis_api \<Rightarrow> ('s \<Rightarrow> rat) \<Rightarrow> string \<Rightarrow> int \<Rightarrow> (('s \<Rightarrow> 's) \<times> rat) list \<Rightarrow> 's
     \<Rightarrow> (rat \<times> rat \<times> LimitResult option) list" where
  "bucket_run R now k per_minute =
     check_run now (check_token_bucket R k (of_int per_minute) (of_int per_minute / 60))"

text \<open>The written numbers cost at most this much of exactness per check.\<close>

definition bucket_slack :: "int \<Rightarrow> rat \<Rightarrow> rat" where
  "bucket_slack per_minute T = (of_int per_minute + T * (of_int per_minute / 60)) / (2 * 10 ^ 13)"

lemma bucket_slack_nonneg: "0 \<le> n \<Longrightarrow> 0 \<le> T \<Longrightarrow> 0 \<le> bucket_slack n T"
  by (simp add: bucket_slack_def)

context redis_server
begin

lemma next_refill:
  fixes n :: int and l t T :: rat
  assumes e: "bucket_at (entry s2) k = Some (Some (lua_round l, lua_round t))"
    and d: "deadline_at (entry s2) k = Some (t + 3600)" and n2: "now s2 = t"
    and env: "leaves_key entry now k env" and l: "0 \<le> l" "l \<le> of_int n"
    and T: "0 \<le> t" "t \<le> T" and n: "0 \<le> n"
  shows "\<exists>b. bucket_at (entry (env s2)) k = Some b \<and> t \<le> now (env s2) \<and>
     refilled (of_int n) (of_int n / 60) (now (env s2)) b
       \<le> l + (now (env s2) - t) * (of_int n / 60) + bucket_slack n T"
proof -
  define t2 where "t2 = now (env s2)"
  have t2: "t \<le> t2" "entry (env s2) k = alive t2 (entry s2 k)"
    using env n2 by (auto simp: leaves_key_def t2_def)
  let ?b = "if entry (env s2) k = None then None else Some (lua_round l, lua_round t)"
  have b: "bucket_at (entry (env s2)) k = Some ?b"
    by (rule bucket_at_alive [where ks = "entry s2" and ks' = "entry (env s2)" and k = k, OF e t2(2)])
  have "refilled (of_int n) (of_int n / 60) t2 ?b \<le> l + (t2 - t) * (of_int n / 60) + bucket_slack n T"
  proof (cases "entry (env s2) k = None")
    case True
    then have "t + 3600 \<le> t2"
      using t2(2) d e
      by (auto simp: deadline_at_def alive_def bucket_at_def hash_at_def split: option.splits if_splits)
    then have "3600 * (of_int n / 60 :: rat) \<le> (t2 - t) * (of_int n / 60)"
      using n by (intro mult_right_mono) auto
    then have "(of_int n :: rat) \<le> (t2 - t) * (of_int n / 60)" using n by (simp add: field_simps)
    then show ?thesis using True l bucket_slack_nonneg [of n T] n T by (simp add: refilled_def)
  next
    case False
    show ?thesis
      unfolding if_not_P [OF False] bucket_slack_def
      using n by (intro refilled_after [OF l T(1) t2(1) T(2)]) simp
  qed
  with b t2 show ?thesis unfolding t2_def by blast
qed

lemma check_bucket_keeps_valid:
  fixes n :: int
  assumes "bucket_at (entry s) k = Some b" "bucket_valid (of_int n) b" "0 \<le> n" "n < 10 ^ 14"
    "0 \<le> refill" "0 \<le> c"
  shows "\<exists>b'. bucket_at (entry (snd (check_token_bucket R k (of_int n) refill c s))) k = Some b' \<and>
     bucket_valid (of_int n) b'"
proof -
  let ?l = "bucket_left (refilled (of_int n) refill (now s) b) c"
  have "0 \<le> ?l \<and> ?l \<le> of_int n"
    using bucket_left_bounds [OF refilled_nonneg assms(6)] refilled_le_cap [of "of_int n" refill "now s" b]
      assms by (meson of_int_0_le_iff order_trans)
  then have "0 \<le> lua_round ?l" "lua_round ?l \<le> of_int n"
    using assms(3,4) by (auto intro: lua.rnd_nonneg lua.rnd_le_int)
  then show ?thesis
    using check_token_bucket_eval(2) [OF assms(1)] by (simp add: bucket_valid_def)
qed


lemma bucket_run_admits:
  fixes n :: int and T :: rat
  assumes n: "0 \<le> n" "n < 10 ^ 14"
  shows "bucket_at (entry (env s)) k = Some b \<Longrightarrow> bucket_valid (of_int n) b \<Longrightarrow> 0 \<le> now (env s) \<Longrightarrow>
     \<forall>(env, c) \<in> set ((env, c) # rest). leaves_key entry now k env \<and> 0 \<le> c \<Longrightarrow>
     \<forall>(t, _) \<in> set (bucket_run R now k n ((env, c) # rest) s). t \<le> T \<Longrightarrow>
     admitted (bucket_run R now k n ((env, c) # rest) s)
       \<le> refilled (of_int n) (of_int n / 60) (now (env s)) b + (T - now (env s)) * (of_int n / 60)
         + of_nat (Suc (length rest)) * bucket_slack n T"
proof (induction rest arbitrary: env s c b)
  case Nil
  let ?a = "refilled (of_int n) (of_int n / 60) (now (env s)) b"
  have "0 \<le> ?a" using Nil n by (intro refilled_nonneg) auto
  moreover have "0 \<le> (T - now (env s)) * (of_int n / 60)"
    using Nil.prems(5) n by (simp add: bucket_run_def)
  moreover have "0 \<le> bucket_slack n T" using n Nil.prems(3,5) by (intro bucket_slack_nonneg) (auto simp: bucket_run_def)
  ultimately show ?case
    using check_token_bucket_eval(1) [OF Nil.prems(1)] by (simp add: bucket_run_def granted_def)
next
  case (Cons call rest)
  obtain env2 c2 where call: "call = (env2, c2)" by fastforce
  define t where "t = now (env s)"
  define a where "a = refilled (of_int n) (of_int n / 60) t b"
  define l where "l = bucket_left a c"
  define s2 where "s2 = snd (check_token_bucket R k (of_int n) (of_int n / 60) c (env s))"
  note eval = check_token_bucket_eval [OF Cons.prems(1), where cap = "of_int n" and refill = "of_int n / 60" and cost = c,
      folded t_def, folded a_def, folded l_def, folded s2_def]
  have c: "0 \<le> c" and env2: "leaves_key entry now k env2" using Cons.prems(4) call by auto
  have a: "0 \<le> a" "a \<le> of_int n"
    unfolding a_def using Cons.prems(2) n by (auto intro: refilled_nonneg refilled_le_cap)
  have l: "0 \<le> l" "l \<le> of_int n"
    unfolding l_def using bucket_left_bounds [OF a(1) c] a(2) by auto
  have tT: "t \<le> T" using Cons.prems(5) by (simp add: bucket_run_def t_def)
  obtain b2 where b2: "bucket_at (entry (env2 s2)) k = Some b2" and t2: "t \<le> now (env2 s2)"
    and r2: "refilled (of_int n) (of_int n / 60) (now (env2 s2)) b2
               \<le> l + (now (env2 s2) - t) * (of_int n / 60) + bucket_slack n T"
    using next_refill [OF eval(2,3,5) env2 l _ tT n(1)] Cons.prems(3) unfolding t_def by blast
  have v2: "bucket_valid (of_int n) b2"
  proof -
    obtain b' where b': "bucket_at (entry s2) k = Some b'" "bucket_valid (of_int n) b'"
      using check_bucket_keeps_valid [OF Cons.prems(1,2) n _ c, of "of_int n / 60"] n by (auto simp: s2_def)
    have "entry (env2 s2) k = alive (now (env2 s2)) (entry s2 k)" using env2 by (auto simp: leaves_key_def)
    from bucket_at_alive [where ks = "entry s2" and ks' = "entry (env2 s2)" and k = k, OF b'(1) this]
    show ?thesis using b2 b'(2) by (auto simp: bucket_valid_def split: if_splits)
  qed
  have run: "bucket_run R now k n ((env, c) # call # rest) s =
      (t, c, fst (check_token_bucket R k (of_int n) (of_int n / 60) c (env s)))
        # bucket_run R now k n ((env2, c2) # rest) s2"
    by (simp add: bucket_run_def call t_def s2_def)
  have "admitted (bucket_run R now k n ((env2, c2) # rest) s2) \<le>
      refilled (of_int n) (of_int n / 60) (now (env2 s2)) b2 + (T - now (env2 s2)) * (of_int n / 60)
        + of_nat (Suc (length rest)) * bucket_slack n T"
    using Cons.prems(3,4,5) t2 unfolding t_def [symmetric] run
    by (intro Cons.IH [where env = env2 and s = s2, OF b2 v2]) (auto simp: call t_def)
  moreover have "admitted (bucket_run R now k n ((env, c) # call # rest) s) =
      (a - l) + admitted (bucket_run R now k n ((env2, c2) # rest) s2)"
    using eval(1) by (simp add: run granted_def l_def bucket_left_def)
  ultimately show ?case
    using r2 by (simp add: a_def t_def algebra_simps diff_divide_distrib add_divide_distrib)
qed

end


text \<open>
  C2. In any window from \<open>t0\<close> to \<open>T\<close>, whatever other requests do and however the checks
  interleave with expiry of the key, a per-minute limit of \<open>n\<close> admits at most the bucket's
  capacity \<open>n\<close> plus the refill of the window, \<open>n / 60\<close> per second, up to the rounding of the two
  numbers the script writes at each check.
\<close>

theorem token_bucket_window:
  fixes n :: int and t0 T :: rat
  assumes "redis_server R entry now"
    and "0 \<le> n" "n < 10 ^ 14" "0 \<le> now s"
    and "bucket_at (entry s) k = Some b" "bucket_valid (of_int n) b"
    and "\<forall>(env, c) \<in> set calls. leaves_key entry now k env \<and> 0 \<le> c"
    and "\<forall>(t, _) \<in> set (bucket_run R now k n calls s). t0 \<le> t \<and> t \<le> T" and "t0 \<le> T"
  shows "admitted (bucket_run R now k n calls s)
           \<le> of_int n + (T - t0) * (of_int n / 60) + of_nat (length calls) * bucket_slack n T"
proof (cases calls)
  case Nil
  then show ?thesis using assms(2,9) by (simp add: bucket_run_def)
next
  case (Cons call rest)
  obtain env c where call: "call = (env, c)" by fastforce
  have env: "now s \<le> now (env s)" "entry (env s) k = alive (now (env s)) (entry s k)"
    using assms(7) Cons call by (auto simp: leaves_key_def)
  define b' where "b' = (if entry (env s) k = None then None else b)"
  have b': "bucket_at (entry (env s)) k = Some b'" "bucket_valid (of_int n) b'"
    using bucket_at_alive [where ks = "entry s" and ks' = "entry (env s)", OF assms(5) env(2)] assms(6)
    by (auto simp: bucket_valid_def b'_def)
  have t: "t0 \<le> now (env s)" using assms(8) Cons call by (simp add: bucket_run_def)
  have "admitted (bucket_run R now k n calls s)
       \<le> refilled (of_int n) (of_int n / 60) (now (env s)) b' + (T - now (env s)) * (of_int n / 60)
         + of_nat (Suc (length rest)) * bucket_slack n T"
    unfolding Cons call
    by (rule redis_server.bucket_run_admits [where env = env and s = s, OF assms(1) assms(2,3) b'])
       (use assms(4,7,8) env(1) Cons call in auto)
  moreover have "(T - now (env s)) * (of_int n / 60) \<le> (T - t0) * (of_int n / 60 :: rat)"
    using t assms(2) by (intro mult_right_mono) auto
  ultimately show ?thesis
    using refilled_le_cap [of "of_int n" "of_int n / 60" "now (env s)" b'] by (simp add: Cons)
qed


lemma mem_wait_leaves_key: "0 \<le> u \<Longrightarrow> leaves_key mem_entry mem_now k (mem_wait u)"
  by (auto simp: leaves_key_def mem_wait_entry)

lemma fresh_bucket: "entry s k = None \<Longrightarrow> bucket_at (entry s) k = Some None"
  by (simp add: bucket_at_def hash_at_def)

lemma check_token_bucket_now_mem:
  "bucket_at (mem_entry m) k = Some b \<Longrightarrow>
   mem_now (snd (check_token_bucket mem_redis k cap refill c m)) = mem_now m"
  by (rule mem_server.check_token_bucket_eval(5))

theorem token_bucket_window_witness:
  "admitted (bucket_run mem_redis mem_now ''k'' 1 [(mem_wait 0, 1), (mem_wait 30000000, 1)] mem_empty)
     \<le> of_int 1 + (30 - 0) * (of_int 1 / 60) + of_nat 2 * bucket_slack 1 30"
proof -
  have e: "bucket_at (mem_entry mem_empty) ''k'' = Some None" "bucket_at (mem_entry (mem_wait 0 mem_empty)) ''k'' = Some None"
    by (simp_all add: fresh_bucket mem_wait_entry)
  have "\<forall>(t, _) \<in> set (bucket_run mem_redis mem_now ''k'' 1 [(mem_wait 0, 1), (mem_wait 30000000, 1)] mem_empty).
      0 \<le> t \<and> t \<le> 30"
    using e by (simp add: bucket_run_def check_token_bucket_now_mem)
  then show ?thesis
    using token_bucket_window [OF mem_server.redis_server_axioms, of 1 mem_empty "''k''" None
        "[(mem_wait 0, 1), (mem_wait 30000000, 1)]" 0 30] e
    by (simp add: bucket_valid_def mem_wait_leaves_key)
qed

section \<open>One check against its specification\<close>



lemma refilled_after_minute:
  fixes n :: int
  assumes "0 \<le> tok" "u + 60 \<le> t" "0 \<le> n"
  shows "refilled (of_int n) (of_int n / 60) t (Some (tok, u)) = of_int n"
proof -
  have "60 * (of_int n / 60 :: rat) \<le> max 0 (t - u) * (of_int n / 60)"
    using assms by (intro mult_right_mono) auto
  then show ?thesis using assms(1) by (simp add: refilled_def min_absorb1)
qed



section \<open>The monthly budget\<close>

definition budget_at :: "keyspace \<Rightarrow> string \<Rightarrow> rat option" where
  "budget_at ks k = (case ks k of None \<Rightarrow> Some 0 | Some (Num x, _) \<Rightarrow> Some x | _ \<Rightarrow> None)"

definition budget_fresh_until :: "rat \<Rightarrow> keyspace \<Rightarrow> string \<Rightarrow> bool" where
  "budget_fresh_until D ks k \<longleftrightarrow> (case ks k of None \<Rightarrow> True | Some (_, d) \<Rightarrow> (case d of None \<Rightarrow> True | Some x \<Rightarrow> D \<le> x))"

lemma alive_fresh: "budget_fresh_until D ks k \<Longrightarrow> t < D \<Longrightarrow> alive t (ks k) = ks k"
  by (auto simp: budget_fresh_until_def alive_def split: option.splits)

context redis_server
begin

lemma check_and_reserve_budget_eval:
  assumes "budget_at (entry s) k = Some v"
  shows "fst (check_and_reserve_budget R k c limit s) =
           Some (if limit < v + c then \<lparr>allowed = False, remaining = lua_round v\<rparr>
                 else \<lparr>allowed = True, remaining = lua_round (v + c)\<rparr>)"
    and "entry (snd (check_and_reserve_budget R k c limit s)) =
           (if limit < v + c then entry s
            else (entry s)(k \<mapsto> (Num (lua_round (v + c)), Some (now s + 3456000))))"
    and "now (snd (check_and_reserve_budget R k c limit s)) = now s"
proof -
  have g: "rd_get R k s = (case entry s k of None \<Rightarrow> None | Some _ \<Rightarrow> Some (Num v))"
    using assms by (intro get_law) (auto simp: budget_at_def string_at_def split: option.splits rval.splits)
  have v: "entry s k = None \<Longrightarrow> v = 0" using assms by (simp add: budget_at_def)
  show "fst (check_and_reserve_budget R k c limit s) =
           Some (if limit < v + c then \<lparr>allowed = False, remaining = lua_round v\<rparr>
                 else \<lparr>allowed = True, remaining = lua_round (v + c)\<rparr>)"
    "entry (snd (check_and_reserve_budget R k c limit s)) =
           (if limit < v + c then entry s
            else (entry s)(k \<mapsto> (Num (lua_round (v + c)), Some (now s + 3456000))))"
    "now (snd (check_and_reserve_budget R k c limit s)) = now s"
    using v by (auto simp: check_and_reserve_budget_def budget_lua_def g limit_result_def Let_def
        BUDGET_KEY_TTL_SECONDS_def set_ex_law now_set_ex split: option.splits)
qed


lemma budget_run_admits:
  assumes L: "lua_round limit = limit" "0 \<le> limit"
  shows "budget_at (entry s) k = Some v \<Longrightarrow> 0 \<le> v \<Longrightarrow> v \<le> limit \<Longrightarrow> budget_fresh_until D (entry s) k \<Longrightarrow>
     \<forall>(env, c) \<in> set calls. leaves_key entry now k env \<and> 0 \<le> c \<Longrightarrow>
     \<forall>(t, _) \<in> set (check_run now (\<lambda>c. check_and_reserve_budget R k c limit) calls s).
        t < D \<and> D \<le> t + 3456000 \<Longrightarrow>
     v + admitted (check_run now (\<lambda>c. check_and_reserve_budget R k c limit) calls s)
       \<le> limit + of_nat (length calls) * (limit / (2 * 10 ^ 13))"
proof (induction calls arbitrary: s v)
  case (Cons call calls)
  obtain env c where call: "call = (env, c)" by fastforce
  have c: "0 \<le> c" and env: "leaves_key entry now k env" using Cons.prems(5) call by auto
  have t: "now (env s) < D" "D \<le> now (env s) + 3456000" using Cons.prems(6) call by auto
  have same: "entry (env s) k = entry s k"
    using env alive_fresh [OF Cons.prems(4) t(1)] by (auto simp: leaves_key_def)
  have b: "budget_at (entry (env s)) k = Some v" using Cons.prems(1) same by (simp add: budget_at_def)
  note eval = check_and_reserve_budget_eval [OF b]
  define s2 where "s2 = snd (check_and_reserve_budget R k c limit (env s))"
  define rest where "rest = check_run now (\<lambda>c. check_and_reserve_budget R k c limit) calls s2"
  have tail: "\<forall>(env, c) \<in> set calls. leaves_key entry now k env \<and> 0 \<le> c"
    "\<forall>(t, _) \<in> set rest. t < D \<and> D \<le> t + 3456000"
    using Cons.prems(5,6) call by (auto simp: s2_def rest_def)
  show ?case
  proof (cases "limit < v + c")
    case True
    have "v + admitted rest \<le> limit + of_nat (length calls) * (limit / (2 * 10 ^ 13))"
      unfolding rest_def using Cons.prems(2-4) same eval(2) True b tail
      by (intro Cons.IH) (auto simp: s2_def rest_def budget_at_def budget_fresh_until_def)
    moreover have "(0 :: rat) \<le> limit / (2 * 10 ^ 13)" using L by simp
    ultimately show ?thesis
      using True eval(1) by (simp add: call granted_def rest_def s2_def algebra_simps add_divide_distrib)
  next
    case False
    define w where "w = lua_round (v + c)"
    have w: "0 \<le> w" "w \<le> limit" "v + c - limit / (2 * 10 ^ 13) \<le> w"
      using False Cons.prems(2) c L lua.rnd_mono [of "v + c" limit] lua.rnd_lower [of "v + c" limit]
      by (auto simp: w_def intro: lua.rnd_nonneg)
    have "w + admitted rest \<le> limit + of_nat (length calls) * (limit / (2 * 10 ^ 13))"
      unfolding rest_def using w eval(2) False t tail
      by (intro Cons.IH) (auto simp: s2_def rest_def w_def budget_at_def budget_fresh_until_def)
    then show ?thesis
      using False eval(1) w(3) by (simp add: call granted_def rest_def s2_def algebra_simps add_divide_distrib)
  qed
qed simp

end

text \<open>
  C7. The budget guardrail never oversubscribes a month: over any interleaving of requests
  against one month's key, the estimated costs it lets through sum to at most the tenant's
  budget (a whole number of cents), up to the rounding of the counter. A month is shorter
  than the key's forty days, so the counter cannot expire inside it.
\<close>

theorem budget_never_oversubscribed:
  fixes cents :: int and t0 :: rat
  assumes "redis_server R entry now" "0 \<le> cents" "cents < 10 ^ 14"
    and "entry s k = None"
    and "\<forall>(env, c) \<in> set calls. leaves_key entry now k env \<and> 0 \<le> c"
    and "\<forall>(t, _) \<in> set (check_run now (\<lambda>c. check_and_reserve_budget R k c (of_int cents / 100)) calls s).
           t0 \<le> t \<and> t < t0 + 40 * 24 * 3600"
  shows "admitted (check_run now (\<lambda>c. check_and_reserve_budget R k c (of_int cents / 100)) calls s)
           \<le> of_int cents / 100 + of_nat (length calls) * (of_int cents / 100 / (2 * 10 ^ 13))"
proof -
  have "\<forall>(t, _) \<in> set (check_run now (\<lambda>c. check_and_reserve_budget R k c (of_int cents / 100)) calls s).
      t < t0 + 3456000 \<and> t0 + 3456000 \<le> t + 3456000"
    using assms(6) by auto
  then have "0 + admitted (check_run now (\<lambda>c. check_and_reserve_budget R k c (of_int cents / 100)) calls s)
      \<le> of_int cents / 100 + of_nat (length calls) * (of_int cents / 100 / (2 * 10 ^ 13))"
    using assms lua_round_cents [OF assms(2,3)]
    by (intro redis_server.budget_run_admits [OF assms(1), where D = "t0 + 3456000"])
       (auto simp: budget_at_def budget_fresh_until_def)
  then show ?thesis by simp
qed

theorem budget_never_oversubscribed_witness:
  "admitted (check_run mem_now (\<lambda>c. check_and_reserve_budget mem_redis ''b'' c (of_int 500 / 100))
      [(mem_wait 0, 3), (mem_wait 1000000, 4)] mem_empty)
     \<le> of_int 500 / 100 + of_nat 2 * (of_int 500 / 100 / (2 * 10 ^ 13))"
proof -
  have b: "budget_at (mem_entry (mem_wait 0 mem_empty)) ''b'' = Some 0"
    by (simp add: budget_at_def mem_wait_entry)
  have "\<forall>(t, _) \<in> set (check_run mem_now (\<lambda>c. check_and_reserve_budget mem_redis ''b'' c (of_int 500 / 100))
      [(mem_wait 0, 3), (mem_wait 1000000, 4)] mem_empty). 0 \<le> t \<and> t < 0 + 40 * 24 * 3600"
    using mem_server.check_and_reserve_budget_eval(3) [OF b] by simp
  then show ?thesis
    using budget_never_oversubscribed [OF mem_server.redis_server_axioms, of 500 mem_empty "''b''"
        "[(mem_wait 0, 3), (mem_wait 1000000, 4)]" 0]
    by (simp add: mem_wait_leaves_key)
qed


section \<open>All limits in order\<close>

text \<open>The specification: which limit, if any, turns the request away.\<close>

definition limit_verdict :: "TenantContext \<Rightarrow> rat \<Rightarrow> rat \<Rightarrow> rat \<Rightarrow> int \<Rightarrow> rat \<Rightarrow> (string \<times> int option) option" where
  "limit_verdict tenant rpm_avail tpm_avail spent prompt_tokens cost =
     (if rpm_avail < 1 then Some (''rate_limit_exceeded'', Some 1)
      else if tpm_avail < of_int prompt_tokens then Some (''token_limit_exceeded'', Some 1)
      else if 0 < cost \<and> monthly_budget_usd tenant < spent + cost then Some (''budget_exceeded'', None)
      else None)"

definition limit_outcome :: "(limit_error, unit) result \<Rightarrow> (string \<times> int option) option option" where
  "limit_outcome r =
     (case r of Inr _ \<Rightarrow> Some None | Inl (RateLimitExceeded c _ ra) \<Rightarrow> Some (Some (c, ra)) | Inl ResponseError \<Rightarrow> None)"

context redis_server
begin

lemma enforce_eval:
  fixes tenant s mdl prov toks month b1 b2 v
  defines "t \<equiv> tenant_id tenant"
    and "r1 \<equiv> refilled (of_int (rate_limit_rpm tenant)) (of_int (rate_limit_rpm tenant) / 60) (now s) b1"
    and "r2 \<equiv> refilled (of_int (rate_limit_tpm tenant)) (of_int (rate_limit_tpm tenant) / 60) (now s) b2"
    and "E \<equiv> enforce_request_limits R tenant prov mdl toks month s"
  assumes b: "bucket_at (entry s) (rpm_bucket_key t) = Some b1" "bucket_at (entry s) (tpm_bucket_key t) = Some b2"
    "budget_at (entry s) (budget_key t month) = Some v"
  shows "limit_outcome (fst E) = Some (limit_verdict tenant r1 r2 v toks (estimate_prompt_cost_usd mdl toks prov))"
    and "j \<notin> {rpm_bucket_key t, tpm_bucket_key t, budget_key t month} \<Longrightarrow> entry (snd E) j = entry s j"
    and "r1 < 1 \<Longrightarrow> entry (snd E) (tpm_bucket_key t) = entry s (tpm_bucket_key t)"
    and "r1 < 1 \<or> r2 < of_int toks \<Longrightarrow> entry (snd E) (budget_key t month) = entry s (budget_key t month)"
    and "now (snd E) = now s"
    and "bucket_at (entry (snd E)) (rpm_bucket_key t) \<noteq> None" "bucket_at (entry (snd E)) (tpm_bucket_key t) \<noteq> None"
      "budget_at (entry (snd E)) (budget_key t month) \<noteq> None"
proof -
  define c1 where "c1 = check_token_bucket R (rpm_bucket_key t) (of_int (rate_limit_rpm tenant))
      (of_int (rate_limit_rpm tenant) / 60) 1 s"
  note e1 = check_token_bucket_eval [OF b(1), where cap = "of_int (rate_limit_rpm tenant)"
      and refill = "of_int (rate_limit_rpm tenant) / 60" and cost = 1, folded r1_def c1_def]
  have b2': "bucket_at (entry (snd c1)) (tpm_bucket_key t) = Some b2"
    using b(2) e1(4) [of "tpm_bucket_key t"] by (simp add: bucket_at_def hash_at_def)
  define c2 where "c2 = check_token_bucket R (tpm_bucket_key t) (of_int (rate_limit_tpm tenant))
      (of_int (rate_limit_tpm tenant) / 60) (of_int toks) (snd c1)"
  note e2 = check_token_bucket_eval [OF b2', where cap = "of_int (rate_limit_tpm tenant)"
      and refill = "of_int (rate_limit_tpm tenant) / 60" and cost = "of_int toks", unfolded e1(5), folded r2_def c2_def]
  have b3': "budget_at (entry (snd c2)) (budget_key t month) = Some v"
    using b(3) e1(4) [of "budget_key t month"] e2(4) [of "budget_key t month"] by (simp add: budget_at_def)
  define c3 where "c3 = check_and_reserve_budget R (budget_key t month) (estimate_prompt_cost_usd mdl toks prov)
      (monthly_budget_usd tenant) (snd c2)"
  note e3 = check_and_reserve_budget_eval [OF b3', of "estimate_prompt_cost_usd mdl toks prov"
      "monthly_budget_usd tenant", folded c3_def]
  define s1 where "s1 = snd c1"
  define s2 where "s2 = snd c2"
  define s3 where "s3 = snd c3"
  have q1: "check_token_bucket R (rpm_bucket_key (tenant_id tenant)) (of_int (rate_limit_rpm tenant))
      (of_int (rate_limit_rpm tenant) / 60) 1 s =
      (Some \<lparr>allowed = (1 \<le> r1), remaining = lua_round (bucket_left r1 1)\<rparr>, s1)"
    using e1(1) by (simp add: prod_eq_iff c1_def s1_def t_def)
  have q2: "check_token_bucket R (tpm_bucket_key (tenant_id tenant)) (of_int (rate_limit_tpm tenant))
      (of_int (rate_limit_tpm tenant) / 60) (of_int toks) s1 =
      (Some \<lparr>allowed = (of_int toks \<le> r2), remaining = lua_round (bucket_left r2 (of_int toks))\<rparr>, s2)"
    using e2(1) by (simp add: prod_eq_iff c2_def s1_def s2_def t_def)
  have q3: "check_and_reserve_budget R (budget_key (tenant_id tenant) month) (estimate_prompt_cost_usd mdl toks prov)
      (monthly_budget_usd tenant) s2 = (fst c3, s3)"
    by (simp add: prod_eq_iff c3_def s2_def s3_def t_def)
  have E: "(\<exists>m. E = (Inl (RateLimitExceeded ''rate_limit_exceeded'' m (Some 1)), s1)) \<and> r1 < 1 \<or>
      (\<exists>m. E = (Inl (RateLimitExceeded ''token_limit_exceeded'' m (Some 1)), s2)) \<and> 1 \<le> r1 \<and> r2 < of_int toks \<or>
      1 \<le> r1 \<and> of_int toks \<le> r2 \<and>
       (if 0 < estimate_prompt_cost_usd mdl toks prov
        then (\<exists>m. E = (Inl (RateLimitExceeded ''budget_exceeded'' m None), s3))
               \<and> monthly_budget_usd tenant < v + estimate_prompt_cost_usd mdl toks prov \<or>
             E = (Inr (), s3) \<and> \<not> monthly_budget_usd tenant < v + estimate_prompt_cost_usd mdl toks prov
        else E = (Inr (), s2))"
    by (auto simp: E_def enforce_request_limits_def q1 q2 q3 e3(1) Let_def not_le)
  show "limit_outcome (fst E) = Some (limit_verdict tenant r1 r2 v toks (estimate_prompt_cost_usd mdl toks prov))"
    using E by (auto simp: limit_outcome_def limit_verdict_def split: if_splits)
  show "j \<notin> {rpm_bucket_key t, tpm_bucket_key t, budget_key t month} \<Longrightarrow> entry (snd E) j = entry s j"
    using E e1(4) [of j] e2(4) [of j] e3(2) by (auto simp: s1_def s2_def s3_def split: if_splits)
  show "r1 < 1 \<Longrightarrow> entry (snd E) (tpm_bucket_key t) = entry s (tpm_bucket_key t)"
    using E e1(4) [of "tpm_bucket_key t"] by (auto simp: s1_def s2_def)
  show "r1 < 1 \<or> r2 < of_int toks \<Longrightarrow> entry (snd E) (budget_key t month) = entry s (budget_key t month)"
    using E e1(4) [of "budget_key t month"] e2(4) [of "budget_key t month"] by (auto simp: s1_def s2_def)
  show "now (snd E) = now s"
    using E e1(5) e2(5) e3(3) by (auto simp: s1_def s2_def s3_def split: if_splits)
  have w1: "bucket_at (entry s1) (rpm_bucket_key t) \<noteq> None" "bucket_at (entry s1) (tpm_bucket_key t) \<noteq> None"
      "budget_at (entry s1) (budget_key t month) \<noteq> None"
    using e1(2) b2' b(3) e1(4) [of "budget_key t month"] by (simp_all add: s1_def budget_at_def)
  have w2: "bucket_at (entry s2) (rpm_bucket_key t) \<noteq> None" "bucket_at (entry s2) (tpm_bucket_key t) \<noteq> None"
      "budget_at (entry s2) (budget_key t month) \<noteq> None"
    using e1(2) e2(2) b3' e2(4) [of "rpm_bucket_key t"] by (simp_all add: s2_def bucket_at_def hash_at_def)
  have w3: "bucket_at (entry s3) (rpm_bucket_key t) \<noteq> None" "bucket_at (entry s3) (tpm_bucket_key t) \<noteq> None"
      "budget_at (entry s3) (budget_key t month) \<noteq> None"
    using w2 e3(2) by (auto simp: s3_def s2_def bucket_at_def hash_at_def budget_at_def split: if_splits)
  have "snd E = s1 \<or> snd E = s2 \<or> snd E = s3" using E by (auto split: if_splits)
  then show "bucket_at (entry (snd E)) (rpm_bucket_key t) \<noteq> None" "bucket_at (entry (snd E)) (tpm_bucket_key t) \<noteq> None"
      "budget_at (entry (snd E)) (budget_key t month) \<noteq> None"
    using w1 w2 w3 by metis+
qed

end

text \<open>
  C21. \<open>enforce_request_limits\<close> decides exactly as its specification: request rate first, then
  token rate, then budget, each with its error code and Retry-After; it never fails inside
  Redis on well-formed buckets; a request turned away by an earlier limit leaves the later
  limits' state as it was; and no key but the three of this tenant is touched, so no tenant's
  traffic changes another tenant's limits.
\<close>

theorem enforce_request_limits_spec:
  fixes R entry now tenant s mdl prov toks month b1 b2 v
  defines "t \<equiv> tenant_id tenant"
    and "r1 \<equiv> refilled (of_int (rate_limit_rpm tenant)) (of_int (rate_limit_rpm tenant) / 60) (now s) b1"
    and "r2 \<equiv> refilled (of_int (rate_limit_tpm tenant)) (of_int (rate_limit_tpm tenant) / 60) (now s) b2"
    and "E \<equiv> enforce_request_limits R tenant prov mdl toks month s"
  assumes "redis_server R entry now"
    and "bucket_at (entry s) (rpm_bucket_key t) = Some b1" "bucket_at (entry s) (tpm_bucket_key t) = Some b2"
    and "budget_at (entry s) (budget_key t month) = Some v"
  shows "limit_outcome (fst E) = Some (limit_verdict tenant r1 r2 v toks (estimate_prompt_cost_usd mdl toks prov))
       \<and> (\<forall>j. j \<notin> {rpm_bucket_key t, tpm_bucket_key t, budget_key t month} \<longrightarrow> entry (snd E) j = entry s j)
       \<and> (r1 < 1 \<longrightarrow> entry (snd E) (tpm_bucket_key t) = entry s (tpm_bucket_key t))
       \<and> (r1 < 1 \<or> r2 < of_int toks \<longrightarrow>
            entry (snd E) (budget_key t month) = entry s (budget_key t month))
       \<and> (\<forall>u. u \<noteq> t \<longrightarrow> entry (snd E) (rpm_bucket_key u) = entry s (rpm_bucket_key u)
            \<and> entry (snd E) (tpm_bucket_key u) = entry s (tpm_bucket_key u)
            \<and> (\<forall>m. entry (snd E) (budget_key u m) = entry s (budget_key u m)))"
  using redis_server.enforce_eval [OF assms(5) assms(6-8) [unfolded t_def], where prov = prov and mdl = mdl and toks = toks]
  unfolding t_def r1_def r2_def E_def by auto

definition demo_tenant :: TenantContext where
  "demo_tenant = \<lparr>tenant_id = 7, tenant_name = ''demo'', api_key_id = ''0011223344556677'',
     monthly_budget_usd = 100, rate_limit_rpm = 60, rate_limit_tpm = 100000, max_concurrent_requests = 5,
     pii_redaction_enabled = True, injection_detection_enabled = True,
     injection_detection_threshold = 3 / 4, injection_detection_mode = Block, cache_enabled = True\<rparr>"

theorem enforce_request_limits_spec_witness:
  "limit_outcome (fst (enforce_request_limits mem_redis demo_tenant ''openai'' ''gpt-4'' 200000 ''2026-09'' mem_empty))
     = Some (Some (''token_limit_exceeded'', Some 1))"
  using enforce_request_limits_spec [OF mem_server.redis_server_axioms,
      where s = mem_empty and tenant = demo_tenant and month = "''2026-09''" and ?b1.0 = None and ?b2.0 = None
        and v = 0 and prov = "''openai''" and mdl = "''gpt-4''" and toks = 200000]
  by (simp add: fresh_bucket budget_at_def limit_verdict_def refilled_def demo_tenant_def)

end
