(* ===== verification/Slots.thy ===== *)
theory Slots
  imports Rate_Limits
begin

text \<open>
  Concurrency slots under interleaving. \<open>acquire_concurrency_slot\<close> is two or three separate Redis
  commands, so requests of one tenant interleave between them. The step relation \<open>slot_step\<close> has
  one step per command; a request's program counter says which command comes next. The cap is
  an invariant of every reachable state as long as the counter's key does not expire under a
  running request; the last section shows what happens when it does.
\<close>

section \<open>One request alone\<close>

context redis_server
begin

lemma expire_counter:
  "0 < ttl \<Longrightarrow> counter_at (entry (rd_expire R k ttl s)) j = counter_at (entry s) j"
  by (auto simp: expire_law counter_at_def split: option.splits rval.splits)

lemma incr_counter:
  assumes "counter_at (entry s) k = Some n"
  shows "counter_at (entry (snd (rd_incr R k s))) k = Some (n + 1)"
    and "j \<noteq> k \<Longrightarrow> entry (snd (rd_incr R k s)) j = entry s j"
proof -
  have "\<lfloor>(of_int n + 1 :: rat)\<rfloor> = n + 1" using floor_of_int [of "n + 1", where ?'a = rat] by simp
  then show "counter_at (entry (snd (rd_incr R k s))) k = Some (n + 1)"
    by (simp add: incr_snd_law [OF assms] counter_at_def)
  show "j \<noteq> k \<Longrightarrow> entry (snd (rd_incr R k s)) j = entry s j" by (simp add: incr_snd_law [OF assms])
qed

lemma decr_counter:
  assumes "counter_at (entry s) k = Some n"
  shows "counter_at (entry (snd (rd_decr R k s))) k = Some (n - 1)"
    and "j \<noteq> k \<Longrightarrow> entry (snd (rd_decr R k s)) j = entry s j"
proof -
  have "\<lfloor>(of_int n - 1 :: rat)\<rfloor> = n - 1" using floor_of_int [of "n - 1", where ?'a = rat] by simp
  then show "counter_at (entry (snd (rd_decr R k s))) k = Some (n - 1)"
    by (simp add: decr_snd_law [OF assms] counter_at_def)
  show "j \<noteq> k \<Longrightarrow> entry (snd (rd_decr R k s)) j = entry s j" by (simp add: decr_snd_law [OF assms])
qed

lemma acquire_slot_eval:
  assumes n: "counter_at (entry s) (concurrency_key tid) = Some n"
  shows "fst (acquire_concurrency_slot R tid limit s) \<longleftrightarrow> n < limit"
    and "counter_at (entry (snd (acquire_concurrency_slot R tid limit s))) (concurrency_key tid) =
           Some (if n < limit then n + 1 else n)"
    and "j \<noteq> concurrency_key tid \<Longrightarrow> entry (snd (acquire_concurrency_slot R tid limit s)) j = entry s j"
    and "now (snd (acquire_concurrency_slot R tid limit s)) = now s"
proof -
  let ?k = "concurrency_key tid"
  define s1 where "s1 = snd (rd_incr R ?k s)"
  define s2 where "s2 = (if n + 1 = 1 then rd_expire R ?k 300 s1 else s1)"
  have inc: "rd_incr R ?k s = (n + 1, s1)" by (simp add: s1_def prod_eq_iff incr_fst_law [OF n])
  have acq: "acquire_concurrency_slot R tid limit s =
      (if n + 1 > limit then (False, snd (rd_decr R ?k s2)) else (True, s2))"
    by (simp add: acquire_concurrency_slot_def inc s2_def CONCURRENCY_KEY_TTL_SECONDS_def Let_def)
  have c2: "counter_at (entry s2) ?k = Some (n + 1)"
    using incr_counter(1) [OF n] by (simp add: s2_def s1_def expire_counter)
  have f2: "entry s2 j = entry s j" if "j \<noteq> ?k" for j
    using incr_counter(2) [OF n that] that by (auto simp: s2_def s1_def expire_law split: option.splits)
  have n2: "now s2 = now s" by (simp add: s2_def s1_def now_expire now_incr)
  show "fst (acquire_concurrency_slot R tid limit s) \<longleftrightarrow> n < limit" by (auto simp: acq)
  show "counter_at (entry (snd (acquire_concurrency_slot R tid limit s))) ?k = Some (if n < limit then n + 1 else n)"
    using decr_counter(1) [OF c2] c2 by (auto simp: acq)
  show "j \<noteq> ?k \<Longrightarrow> entry (snd (acquire_concurrency_slot R tid limit s)) j = entry s j"
    using decr_counter(2) [OF c2] f2 by (auto simp: acq)
  show "now (snd (acquire_concurrency_slot R tid limit s)) = now s"
    using n2 by (auto simp: acq now_decr)
qed

lemma acquire_first_deadline:
  assumes n: "counter_at (entry s) (concurrency_key tid) = Some 0" and "0 < limit"
  shows "entry (snd (acquire_concurrency_slot R tid limit s)) (concurrency_key tid) =
           Some (Num 1, Some (now s + 300))"
proof -
  define s1 where "s1 = snd (rd_incr R (concurrency_key tid) s)"
  have "rd_incr R (concurrency_key tid) s = (1, s1)"
    using incr_fst_law [OF n] by (simp add: prod_eq_iff s1_def)
  then have "acquire_concurrency_slot R tid limit s = (True, rd_expire R (concurrency_key tid) 300 s1)"
    using assms(2) by (simp add: acquire_concurrency_slot_def Let_def CONCURRENCY_KEY_TTL_SECONDS_def)
  then show ?thesis by (simp add: expire_law s1_def incr_snd_law [OF n] now_incr)
qed

lemma release_slot_eval:
  assumes "counter_at (entry s) (concurrency_key tid) = Some n"
  shows "counter_at (entry (release_concurrency_slot R tid s)) (concurrency_key tid) = Some (n - 1)"
    and "j \<noteq> concurrency_key tid \<Longrightarrow> entry (release_concurrency_slot R tid s) j = entry s j"
    and "now (release_concurrency_slot R tid s) = now s"
  using decr_counter [OF assms] by (simp_all add: release_concurrency_slot_def now_decr)

end

section \<open>Many requests, command by command\<close>

datatype slot_pc = Idle | Incremented int | Armed int | Holding int

record 's slots =
  server :: 's
  pc :: "nat \<Rightarrow> slot_pc"

inductive slot_step ::
  "'s redis_api \<Rightarrow> uuid \<Rightarrow> int \<Rightarrow> ('s \<Rightarrow> 's \<Rightarrow> bool) \<Rightarrow> 's slots \<Rightarrow> 's slots \<Rightarrow> bool"
  for R tid limit env where
  incr: "pc \<sigma> i = Idle \<Longrightarrow> rd_incr R (concurrency_key tid) (server \<sigma>) = (current, s') \<Longrightarrow>
    slot_step R tid limit env \<sigma> (\<sigma>\<lparr>server := s', pc := (pc \<sigma>)(i := Incremented current)\<rparr>)"
| arm: "pc \<sigma> i = Incremented current \<Longrightarrow>
    s' = (if current = 1 then rd_expire R (concurrency_key tid) CONCURRENCY_KEY_TTL_SECONDS (server \<sigma>)
          else server \<sigma>) \<Longrightarrow>
    slot_step R tid limit env \<sigma> (\<sigma>\<lparr>server := s', pc := (pc \<sigma>)(i := Armed current)\<rparr>)"
| admit: "pc \<sigma> i = Armed current \<Longrightarrow> \<not> current > limit \<Longrightarrow>
    slot_step R tid limit env \<sigma> (\<sigma>\<lparr>pc := (pc \<sigma>)(i := Holding current)\<rparr>)"
| reject: "pc \<sigma> i = Armed current \<Longrightarrow> current > limit \<Longrightarrow>
    slot_step R tid limit env \<sigma>
      (\<sigma>\<lparr>server := snd (rd_decr R (concurrency_key tid) (server \<sigma>)), pc := (pc \<sigma>)(i := Idle)\<rparr>)"
| release: "pc \<sigma> i = Holding current \<Longrightarrow>
    slot_step R tid limit env \<sigma>
      (\<sigma>\<lparr>server := release_concurrency_slot R tid (server \<sigma>), pc := (pc \<sigma>)(i := Idle)\<rparr>)"
| other: "env (server \<sigma>) s' \<Longrightarrow> slot_step R tid limit env \<sigma> (\<sigma>\<lparr>server := s'\<rparr>)"

inductive_cases slot_step_cases: "slot_step R tid limit env \<sigma> \<tau>"

definition all_idle :: "'s \<Rightarrow> 's slots" where
  "all_idle s = \<lparr>server = s, pc = (\<lambda>_. Idle)\<rparr>"

fun current_of :: "slot_pc \<Rightarrow> int" where
  "current_of Idle = 0"
| "current_of (Incremented c) = c"
| "current_of (Armed c) = c"
| "current_of (Holding c) = c"

text \<open>The requests that have counted themselves, and those that saw a count of at most \<open>m\<close>.\<close>

definition counted :: "(nat \<Rightarrow> slot_pc) \<Rightarrow> nat set" where
  "counted p = {i. p i \<noteq> Idle}"

definition saw_upto :: "(nat \<Rightarrow> slot_pc) \<Rightarrow> int \<Rightarrow> nat set" where
  "saw_upto p m = {i. p i \<noteq> Idle \<and> current_of (p i) \<le> m}"

definition slot_inv :: "('s \<Rightarrow> keyspace) \<Rightarrow> uuid \<Rightarrow> 's slots \<Rightarrow> bool" where
  "slot_inv entry tid \<sigma> \<longleftrightarrow> finite (counted (pc \<sigma>))
     \<and> counter_at (entry (server \<sigma>)) (concurrency_key tid) = Some (int (card (counted (pc \<sigma>))))
     \<and> (\<forall>m. 0 \<le> m \<longrightarrow> int (card (saw_upto (pc \<sigma>) m)) \<le> m)"

lemma saw_upto_subset: "saw_upto p m \<subseteq> counted p"
  by (auto simp: saw_upto_def counted_def)

lemma counted_leave:
  "p i \<noteq> Idle \<Longrightarrow> counted (p(i := Idle)) = counted p - {i}"
  by (auto simp: counted_def)

lemma saw_upto_leave: "saw_upto (p(i := Idle)) m = saw_upto p m - {i}"
  by (auto simp: saw_upto_def)

lemma slot_inv_advance:
  assumes "slot_inv entry tid \<sigma>" "pc \<sigma> i \<noteq> Idle" "q \<noteq> Idle" "current_of q = current_of (pc \<sigma> i)"
    and "counter_at (entry s') (concurrency_key tid) = counter_at (entry (server \<sigma>)) (concurrency_key tid)"
  shows "slot_inv entry tid (\<sigma>\<lparr>server := s', pc := (pc \<sigma>)(i := q)\<rparr>)"
proof -
  have "counted ((pc \<sigma>)(i := q)) = counted (pc \<sigma>)" "saw_upto ((pc \<sigma>)(i := q)) m = saw_upto (pc \<sigma>) m" for m
    using assms(2-4) by (auto simp: counted_def saw_upto_def)
  with assms(1,5) show ?thesis by (simp add: slot_inv_def)
qed

context redis_server
begin

lemma slot_inv_leave:
  assumes inv: "slot_inv entry tid \<sigma>" and i: "pc \<sigma> i \<noteq> Idle"
  shows "slot_inv entry tid
    (\<sigma>\<lparr>server := snd (rd_decr R (concurrency_key tid) (server \<sigma>)), pc := (pc \<sigma>)(i := Idle)\<rparr>)"
proof -
  have fin: "finite (counted (pc \<sigma>))" and mem: "i \<in> counted (pc \<sigma>)"
    using inv i by (auto simp: slot_inv_def counted_def)
  then have card: "int (card (counted (pc \<sigma>) - {i})) = int (card (counted (pc \<sigma>))) - 1"
    by (simp add: card_Diff_singleton of_nat_diff Suc_leI card_gt_0_iff) (metis One_nat_def Suc_leI card_gt_0_iff empty_iff of_nat_1 of_nat_diff)
  have "card (saw_upto (pc \<sigma>) m - {i}) \<le> card (saw_upto (pc \<sigma>) m)" for m
    using finite_subset [OF saw_upto_subset fin] by (intro card_mono) auto
  then have "\<forall>m. 0 \<le> m \<longrightarrow> int (card (saw_upto (pc \<sigma>) m - {i})) \<le> m"
    using inv unfolding slot_inv_def by (meson of_nat_mono order_trans)
  then show ?thesis
    using inv fin card decr_counter(1)
    by (simp add: slot_inv_def counted_leave [where p = "pc \<sigma>" and i = i, OF i] saw_upto_leave)
qed

lemma slot_inv_enter:
  assumes inv: "slot_inv entry tid \<sigma>" and i: "pc \<sigma> i = Idle"
    and inc: "rd_incr R (concurrency_key tid) (server \<sigma>) = (c, s')"
  shows "slot_inv entry tid (\<sigma>\<lparr>server := s', pc := (pc \<sigma>)(i := Incremented c)\<rparr>)"
proof -
  let ?p = "(pc \<sigma>)(i := Incremented c)"
  have fin: "finite (counted (pc \<sigma>))" and new: "i \<notin> counted (pc \<sigma>)"
    and cnt: "counter_at (entry (server \<sigma>)) (concurrency_key tid) = Some (int (card (counted (pc \<sigma>))))"
    using inv i by (auto simp: slot_inv_def counted_def)
  have C: "counted ?p = insert i (counted (pc \<sigma>))" by (auto simp: counted_def)
  have c: "c = int (card (counted (pc \<sigma>))) + 1" using incr_fst_law [OF cnt] inc by simp
  have "int (card (saw_upto ?p m)) \<le> m" if m: "0 \<le> m" for m
  proof (cases "c \<le> m")
    case True
    have "card (saw_upto ?p m) \<le> card (counted ?p)"
      using fin C saw_upto_subset by (intro card_mono) auto
    moreover have "int (card (counted ?p)) = c" unfolding C using fin new by (simp add: c)
    ultimately show ?thesis using True by linarith
  next
    case False
    then have "saw_upto ?p m = saw_upto (pc \<sigma>) m" using i by (auto simp: saw_upto_def)
    then show ?thesis using inv m by (simp add: slot_inv_def)
  qed
  then show ?thesis
    using incr_counter(1) [OF cnt] inc fin new by (simp add: slot_inv_def C)
qed

lemma slot_step_inv:
  assumes "slot_step R tid limit env \<sigma> \<tau>" "slot_inv entry tid \<sigma>"
    and "\<forall>s s'. env s s' \<longrightarrow> entry s' (concurrency_key tid) = entry s (concurrency_key tid)"
  shows "slot_inv entry tid \<tau>"
  using assms(1)
proof cases
  case (incr i current s')
  then show ?thesis using assms(2) by (auto intro: slot_inv_enter)
next
  case (arm i current s')
  then show ?thesis
    using slot_inv_advance [OF assms(2), of i "Armed current" s']
    by (auto simp: expire_counter CONCURRENCY_KEY_TTL_SECONDS_def)
next
  case (admit i current)
  then show ?thesis using slot_inv_advance [OF assms(2), of i "Holding current" "server \<sigma>"] by simp
next
  case (reject i current)
  then show ?thesis using slot_inv_leave [OF assms(2), of i] by simp
next
  case (release i current)
  then show ?thesis using slot_inv_leave [OF assms(2), of i] by (simp add: release_concurrency_slot_def)
next
  case (other s')
  then show ?thesis using assms(2,3) by (auto simp: slot_inv_def counter_at_def)
qed

lemma slot_reachable_inv:
  assumes "(slot_step R tid limit env)\<^sup>*\<^sup>* (all_idle s) \<sigma>"
    and "counter_at (entry s) (concurrency_key tid) = Some 0"
    and "\<forall>s s'. env s s' \<longrightarrow> entry s' (concurrency_key tid) = entry s (concurrency_key tid)"
  shows "slot_inv entry tid \<sigma>"
  using assms(1)
proof (induction rule: rtranclp_induct)
  case base
  then show ?case using assms(2) by (simp add: slot_inv_def all_idle_def counted_def saw_upto_def)
next
  case (step \<sigma> \<tau>)
  then show ?case using slot_step_inv assms(3) by blast
qed

end


text \<open>Run without interruption, the commands of one request are \<open>acquire_concurrency_slot\<close>.\<close>

lemma acquire_is_a_run:
  assumes "pc \<sigma> i = Idle" "acquire_concurrency_slot R tid limit (server \<sigma>) = (ok, s')"
  shows "\<exists>c. (slot_step R tid limit env)\<^sup>*\<^sup>* \<sigma>
           (\<sigma>\<lparr>server := s', pc := (pc \<sigma>)(i := (if ok then Holding c else Idle))\<rparr>)"
proof -
  let ?k = "concurrency_key tid"
  obtain c s1 where inc: "rd_incr R ?k (server \<sigma>) = (c, s1)" by fastforce
  define s2 where "s2 = (if c = 1 then rd_expire R ?k CONCURRENCY_KEY_TTL_SECONDS s1 else s1)"
  let ?\<sigma>1 = "\<sigma>\<lparr>server := s1, pc := (pc \<sigma>)(i := Incremented c)\<rparr>"
  let ?\<sigma>2 = "\<sigma>\<lparr>server := s2, pc := (pc \<sigma>)(i := Armed c)\<rparr>"
  have 1: "slot_step R tid limit env \<sigma> ?\<sigma>1" by (rule slot_step.incr [OF assms(1) inc])
  have 2: "slot_step R tid limit env ?\<sigma>1 ?\<sigma>2"
  proof -
    have "s2 = (if c = 1 then rd_expire R ?k CONCURRENCY_KEY_TTL_SECONDS (server ?\<sigma>1) else server ?\<sigma>1)"
      by (simp add: s2_def)
    from slot_step.arm [of ?\<sigma>1 i, OF _ this] show ?thesis by simp
  qed
  have 3: "slot_step R tid limit env ?\<sigma>2
      (\<sigma>\<lparr>server := s', pc := (pc \<sigma>)(i := (if ok then Holding c else Idle))\<rparr>)"
  proof (cases "c > limit")
    case True
    then have "ok = False" "s' = snd (rd_decr R ?k s2)"
      using assms(2) by (simp_all add: acquire_concurrency_slot_def Let_def inc s2_def)
    then show ?thesis using slot_step.reject [of ?\<sigma>2 i c limit R tid env] True by simp
  next
    case False
    then have "ok = True" "s' = s2"
      using assms(2) by (simp_all add: acquire_concurrency_slot_def Let_def inc s2_def split: if_splits)
    then show ?thesis using slot_step.admit [of ?\<sigma>2 i c limit R tid env] False by simp
  qed
  from 1 2 3 show ?thesis by (meson rtranclp.rtrancl_into_rtrancl rtranclp.rtrancl_refl)
qed

lemma holding_within_limit:
  assumes "(slot_step R tid limit env)\<^sup>*\<^sup>* (all_idle s) \<sigma>"
  shows "pc \<sigma> i = Holding c \<Longrightarrow> c \<le> limit"
  using assms
proof (induction arbitrary: i c rule: rtranclp_induct)
  case base
  then show ?case by (simp add: all_idle_def)
next
  case (step \<sigma> \<tau>)
  from step.hyps(2) step.prems show ?case
    by cases (auto split: if_splits dest: step.IH)
qed

text \<open>
  C6. The concurrency cap is hard: however the commands of a tenant's requests interleave, as
  long as the counter's key does not expire, no reachable state has more than \<open>limit\<close> requests
  holding a slot.
\<close>

theorem concurrency_cap:
  fixes \<sigma> :: "'s slots"
  assumes "redis_server R entry now"
    and "counter_at (entry s) (concurrency_key tid) = Some 0" "0 \<le> limit"
    and "\<forall>s s'. env s s' \<longrightarrow> entry s' (concurrency_key tid) = entry s (concurrency_key tid)"
    and "(slot_step R tid limit env)\<^sup>*\<^sup>* (all_idle s) \<sigma>"
  shows "int (card {i. \<exists>c. pc \<sigma> i = Holding c}) \<le> limit"
proof -
  have inv: "slot_inv entry tid \<sigma>"
    by (rule redis_server.slot_reachable_inv [OF assms(1,5,2,4)])
  have "{i. \<exists>c. pc \<sigma> i = Holding c} \<subseteq> saw_upto (pc \<sigma>) limit"
    using holding_within_limit [OF assms(5)] by (auto simp: saw_upto_def)
  moreover have "finite (saw_upto (pc \<sigma>) limit)"
    using inv finite_subset [OF saw_upto_subset] by (auto simp: slot_inv_def)
  ultimately have "card {i. \<exists>c. pc \<sigma> i = Holding c} \<le> card (saw_upto (pc \<sigma>) limit)"
    by (intro card_mono)
  also have "int (card (saw_upto (pc \<sigma>) limit)) \<le> limit" using inv assms(3) by (simp add: slot_inv_def)
  finally show ?thesis by simp
qed

lemma mem_empty_counter: "counter_at (mem_entry mem_empty) k = Some 0"
  by (simp add: counter_at_def)

theorem concurrency_cap_witness:
  "\<exists>\<sigma> :: mem slots. (\<exists>c. pc \<sigma> 7 = Holding c) \<and> int (card {i. \<exists>c. pc \<sigma> i = Holding c}) \<le> 1"
proof -
  have ok: "fst (acquire_concurrency_slot mem_redis 5 1 mem_empty)"
    by (simp add: mem_server.acquire_slot_eval(1) [OF mem_empty_counter])
  then obtain c where run: "(slot_step mem_redis 5 1 (=))\<^sup>*\<^sup>* (all_idle mem_empty)
      ((all_idle mem_empty)\<lparr>server := snd (acquire_concurrency_slot mem_redis 5 1 mem_empty),
         pc := (pc (all_idle mem_empty))(7 := Holding c)\<rparr>)"
    using acquire_is_a_run [of "all_idle mem_empty" 7 mem_redis 5 1 True _ "(=)"]
    by (auto simp: all_idle_def prod_eq_iff)
  show ?thesis
    using concurrency_cap [OF mem_server.redis_server_axioms mem_empty_counter, of 1 "(=)", OF _ _ run]
    by (intro exI [of _ "(all_idle mem_empty)\<lparr>server := snd (acquire_concurrency_slot mem_redis 5 1 mem_empty),
         pc := (pc (all_idle mem_empty))(7 := Holding c)\<rparr>"]) auto
qed

section \<open>When the key expires under a running request\<close>

fun acquire_times :: "'s redis_api \<Rightarrow> uuid \<Rightarrow> int \<Rightarrow> nat \<Rightarrow> 's \<Rightarrow> bool list" where
  "acquire_times R tid limit 0 s = []"
| "acquire_times R tid limit (Suc m) s =
     fst (acquire_concurrency_slot R tid limit s)
       # acquire_times R tid limit m (snd (acquire_concurrency_slot R tid limit s))"

context redis_server
begin

lemma acquire_times_all:
  "counter_at (entry s) (concurrency_key tid) = Some n \<Longrightarrow> n + int m \<le> limit \<Longrightarrow>
   acquire_times R tid limit m s = replicate m True"
proof (induction m arbitrary: s n)
  case (Suc m)
  then show ?case using acquire_slot_eval(1,2) [OF Suc.prems(1), of limit] by simp
qed simp

end

text \<open>
  If the counter's key expires while a request holds its slot (it is set to expire 300
  seconds after the count last rose from zero, however long streams run), the release of that
  slot leaves a counter of minus one with no expiry, and from then on one request more than the
  tenant's limit is admitted at the same time.
\<close>

theorem slot_counter_drift:
  assumes "redis_server R entry now" "entry s (concurrency_key tid) = None" "0 \<le> limit"
  defines "s' \<equiv> release_concurrency_slot R tid s"
  shows "entry s' (concurrency_key tid) = Some (Num (- 1), None)
       \<and> acquire_times R tid limit (Suc (nat limit)) s' = replicate (Suc (nat limit)) True"
proof -
  have c: "counter_at (entry s) (concurrency_key tid) = Some 0" using assms(2) by (simp add: counter_at_def)
  have "entry s' (concurrency_key tid) = Some (Num (- 1), None)"
    using redis_server.decr_snd_law [OF assms(1) c] assms(2)
    by (simp add: s'_def release_concurrency_slot_def deadline_at_def)
  moreover have "counter_at (entry s') (concurrency_key tid) = Some (- 1)"
    using redis_server.release_slot_eval(1) [OF assms(1) c] by (simp add: s'_def)
  ultimately show ?thesis
    using redis_server.acquire_times_all [OF assms(1), of s' tid "- 1" "Suc (nat limit)" limit] assms(3) by simp
qed

theorem slot_counter_drift_witness:
  "acquire_times mem_redis 5 1 2 (release_concurrency_slot mem_redis 5 (mem_wait 300000000
      (snd (acquire_concurrency_slot mem_redis 5 1 mem_empty)))) = [True, True]"
proof -
  let ?s = "snd (acquire_concurrency_slot mem_redis 5 1 mem_empty)"
  have "mem_entry ?s (concurrency_key 5) = Some (Num 1, Some 300)"
    using mem_server.acquire_first_deadline [OF mem_empty_counter, of 1 5] by simp
  moreover have "mem_now ?s = 0"
    using mem_server.acquire_slot_eval(4) [OF mem_empty_counter, of 5 1] by simp
  ultimately have "mem_entry (mem_wait 300000000 ?s) (concurrency_key 5) = None"
    by (simp add: mem_wait_entry)
  from slot_counter_drift [OF mem_server.redis_server_axioms this, of 1] show ?thesis
    by (simp add: numeral_2_eq_2)
qed

end
