(* ===== verification/Provider_Errors.thy ===== *)
theory Provider_Errors
  imports Schemas
begin

text \<open>
  \<^verbatim>\<open>providers/errors.py\<close>: the failure modes of a provider adapter and their mapping to HTTP
  errors. \<open>exn\<close> collects every exception that can pass through the provider code: the ones
  the HTTP client raises, the adapter's own, and everything else (a body that is not JSON,
  a reset connection, a failed validation, a cancelled task).
\<close>

datatype ProviderError =
    UpstreamTimeoutError string
  | UpstreamConnectionError string
  | UpstreamStatusError int string
  | CircuitOpenError string
  | OtherProviderError string

datatype exn =
    TimeoutException string
  | ConnectError string
  | Provider_exn ProviderError
  | AssertionError
  | Other_exn string

text \<open>\<open>str(exc)\<close> of a provider error.\<close>

fun provider_error_str :: "ProviderError \<Rightarrow> string" where
  "provider_error_str (UpstreamTimeoutError m) = m"
| "provider_error_str (UpstreamConnectionError m) = m"
| "provider_error_str (UpstreamStatusError st body) =
     ''upstream returned '' @ int_str st @ '': '' @ take 500 body"
| "provider_error_str (CircuitOpenError m) = m"
| "provider_error_str (OtherProviderError m) = m"

definition upstream_error :: "int \<Rightarrow> string \<Rightarrow> string \<Rightarrow> HTTPException" where
  "upstream_error st message code =
     \<lparr>status_code = st, detail = openai_error message ''upstream_error'' code, headers = []\<rparr>"

fun provider_error_to_http_exception :: "ProviderError \<Rightarrow> HTTPException" where
  "provider_error_to_http_exception (CircuitOpenError m) = upstream_error 503 m ''circuit_open''"
| "provider_error_to_http_exception (UpstreamTimeoutError m) = upstream_error 504 m ''upstream_timeout''"
| "provider_error_to_http_exception (UpstreamConnectionError m) =
     upstream_error 502 m ''upstream_connection_error''"
| "provider_error_to_http_exception (UpstreamStatusError st body) =
     upstream_error (if 400 \<le> st \<and> st < 500 then st else 502) (take 500 body) ''upstream_error''"
| "provider_error_to_http_exception (OtherProviderError m) = upstream_error 502 m ''unknown_provider_error''"

text \<open>
  Whatever goes wrong upstream, the client sees a client error that the upstream itself
  answered with, or one of 502, 503 and 504; a server error of the upstream is never passed on
  with its own status; and the body is in OpenAI's shape with at most 500 characters of the
  upstream's body.
\<close>

theorem provider_error_status:
  "status_code (provider_error_to_http_exception e) \<in> {400..<500} \<union> {502, 503, 504}
   \<and> (status_code (provider_error_to_http_exception e) \<in> {400..<500} \<longleftrightarrow>
        (\<exists>st body. e = UpstreamStatusError st body \<and> 400 \<le> st \<and> st < 500
           \<and> status_code (provider_error_to_http_exception e) = st))
   \<and> (\<exists>m c. detail (provider_error_to_http_exception e) = openai_error m ''upstream_error'' c
        \<and> (\<forall>st body. e = UpstreamStatusError st body \<longrightarrow> length m \<le> 500))"
  by (cases e) (auto simp: upstream_error_def)

theorem provider_error_status_witness:
  "status_code (provider_error_to_http_exception (UpstreamStatusError 429 ''slow down'')) \<in> {400..<500}
   \<and> (\<exists>m c. detail (provider_error_to_http_exception (UpstreamStatusError 429 ''slow down''))
          = openai_error m ''upstream_error'' c \<and> length m \<le> 500)"
  using provider_error_status [of "UpstreamStatusError 429 ''slow down''"]
  by (auto simp: upstream_error_def)

end
