(* ===== verification/Circuit_Breaker.thy ===== *)
theory Circuit_Breaker
  imports Provider_Errors
begin

text \<open>
  \<^verbatim>\<open>providers/circuit_breaker.py\<close>: the breaker's fields as a record and its three operations. Each
  holds the breaker's lock from start to end, so an operation is one atomic step and any
  interleaving of requests is a sequence of operations; the clock reading of each operation is
  its argument. The first part proves the breaker's invariant over every such sequence, that it
  opens after exactly the configured number of failures in a row, that it fails fast while open,
  and that a half-open breaker lets nothing through until some call reports.
\<close>

datatype CircuitState = CLOSED | OPEN | HALF_OPEN

fun state_value :: "CircuitState \<Rightarrow> string" where
  "state_value CLOSED = ''closed''"
| "state_value OPEN = ''open''"
| "state_value HALF_OPEN = ''half_open''"

record CircuitBreaker =
  cb_name :: string
  failure_threshold :: int
  recovery_timeout :: rat
  state :: CircuitState
  failure_count :: int
  opened_at :: "rat option"
  half_open_probe_in_flight :: bool

definition new_breaker :: "string \<Rightarrow> int \<Rightarrow> rat \<Rightarrow> CircuitBreaker" where
  "new_breaker n thr rec =
     \<lparr>cb_name = n, failure_threshold = thr, recovery_timeout = rec, state = CLOSED, failure_count = 0,
      opened_at = None, half_open_probe_in_flight = False\<rparr>"

definition before_call :: "rat \<Rightarrow> CircuitBreaker \<Rightarrow> (exn, unit) result \<times> CircuitBreaker" where
  "before_call now b =
     (case state b of
        OPEN \<Rightarrow>
          (case opened_at b of
             None \<Rightarrow> (Inl AssertionError, b)
           | Some t \<Rightarrow>
               if now - t \<ge> recovery_timeout b
               then (Inr (), b\<lparr>state := HALF_OPEN, half_open_probe_in_flight := True\<rparr>)
               else (Inl (Provider_exn (CircuitOpenError (''circuit open for provider '' @ quoted (cb_name b)))), b))
      | HALF_OPEN \<Rightarrow>
          if half_open_probe_in_flight b
          then (Inl (Provider_exn (CircuitOpenError
                  (''circuit half-open for provider '' @ quoted (cb_name b) @ '', probe in flight''))), b)
          else (Inr (), b\<lparr>half_open_probe_in_flight := True\<rparr>)
      | CLOSED \<Rightarrow> (Inr (), b))"

definition record_success :: "CircuitBreaker \<Rightarrow> CircuitBreaker" where
  "record_success b =
     b\<lparr>state := CLOSED, failure_count := 0, opened_at := None, half_open_probe_in_flight := False\<rparr>"

definition record_failure :: "rat \<Rightarrow> CircuitBreaker \<Rightarrow> CircuitBreaker" where
  "record_failure now b =
     (let b = b\<lparr>half_open_probe_in_flight := False, failure_count := failure_count b + 1\<rparr> in
      if state b = HALF_OPEN \<or> failure_count b \<ge> failure_threshold b
      then b\<lparr>state := OPEN, opened_at := Some now\<rparr> else b)"

lemmas breaker_ops = before_call_def record_success_def record_failure_def Let_def

section \<open>Runs\<close>

datatype breaker_event = Before rat | Success | Failure rat

fun breaker_step :: "CircuitBreaker \<Rightarrow> breaker_event \<Rightarrow> CircuitBreaker" where
  "breaker_step b (Before now) = snd (before_call now b)"
| "breaker_step b Success = record_success b"
| "breaker_step b (Failure now) = record_failure now b"

definition breaker_run :: "CircuitBreaker \<Rightarrow> breaker_event list \<Rightarrow> CircuitBreaker" where
  "breaker_run b es = foldl breaker_step b es"

lemma breaker_run_simps [simp]:
  "breaker_run b [] = b" "breaker_run b (e # es) = breaker_run (breaker_step b e) es"
  "breaker_run b (es @ fs) = breaker_run (breaker_run b es) fs"
  by (simp_all add: breaker_run_def)

definition breaker_inv :: "CircuitBreaker \<Rightarrow> bool" where
  "breaker_inv b \<longleftrightarrow>
     (state b = CLOSED \<longrightarrow> 0 \<le> failure_count b \<and> (failure_count b = 0 \<or> failure_count b < failure_threshold b)
        \<and> opened_at b = None \<and> \<not> half_open_probe_in_flight b)
   \<and> (state b \<noteq> CLOSED \<longrightarrow> opened_at b \<noteq> None \<and> 1 \<le> failure_count b)
   \<and> (half_open_probe_in_flight b \<longleftrightarrow> state b = HALF_OPEN)"

lemma new_breaker_inv: "breaker_inv (new_breaker n thr rec)"
  by (simp add: breaker_inv_def new_breaker_def)

lemma breaker_step_inv: "breaker_inv b \<Longrightarrow> breaker_inv (breaker_step b e)"
  by (cases e; cases "state b") (auto simp: breaker_inv_def breaker_ops split: option.splits)

lemma breaker_run_inv: "breaker_inv b \<Longrightarrow> breaker_inv (breaker_run b es)"
  by (induction es arbitrary: b) (auto intro: breaker_step_inv)

lemma breaker_step_config [simp]:
  "failure_threshold (breaker_step b e) = failure_threshold b"
  "recovery_timeout (breaker_step b e) = recovery_timeout b"
  "cb_name (breaker_step b e) = cb_name b"
  by (cases e; auto simp: breaker_ops split: option.splits CircuitState.splits)+

lemma breaker_run_config [simp]:
  "failure_threshold (breaker_run b es) = failure_threshold b"
  "recovery_timeout (breaker_run b es) = recovery_timeout b"
  "cb_name (breaker_run b es) = cb_name b"
  by (induction es arbitrary: b) auto


text \<open>
  C24. In every sequence of operations on a new breaker, whatever the clock readings: the
  assertion in \<open>before_call\<close> never fails, a probe is marked in flight exactly while the breaker
  is half-open, a closed breaker has counted fewer failures than the threshold, and a breaker
  that is not closed knows when it opened.
\<close>

theorem breaker_invariant:
  "breaker_inv (breaker_run (new_breaker n thr rec) es)
   \<and> fst (before_call now (breaker_run (new_breaker n thr rec) es)) \<noteq> Inl AssertionError"
proof -
  have "breaker_inv (breaker_run (new_breaker n thr rec) es)"
    by (intro breaker_run_inv new_breaker_inv)
  then show ?thesis by (auto simp: breaker_inv_def before_call_def split: CircuitState.splits option.splits)
qed

section \<open>Opening\<close>

fun failures :: "breaker_event list \<Rightarrow> int" where
  "failures [] = 0"
| "failures (Failure _ # es) = failures es + 1"
| "failures (_ # es) = failures es"

lemma failures_nonneg: "0 \<le> failures es"
  by (induction es rule: failures.induct) auto

lemma closed_run:
  "state b = CLOSED \<Longrightarrow> Success \<notin> set es \<Longrightarrow> failure_count b + failures es < failure_threshold b \<Longrightarrow>
   state (breaker_run b es) = CLOSED \<and> failure_count (breaker_run b es) = failure_count b + failures es"
proof (induction es arbitrary: b rule: failures.induct)
  case (2 now es)
  have f: "failure_count b + 1 < failure_threshold b" using 2(4) failures_nonneg [of es] by simp
  then have s: "record_failure now b =
      b\<lparr>half_open_probe_in_flight := False, failure_count := failure_count b + 1\<rparr>"
    using 2(2) by (simp add: record_failure_def Let_def)
  show ?case using 2(1) [of "record_failure now b"] 2(2-4) by (simp add: s)
qed (auto simp: before_call_def)

text \<open>
  The breaker opens after exactly \<open>failure_threshold\<close> failures in a row: on a closed
  breaker that has counted none, with any calls started in between and no success, fewer
  failures leave it closed and the failure that completes the threshold opens it, at its own
  time.
\<close>

theorem breaker_opens_at_threshold:
  assumes "state b = CLOSED" "failure_count b = 0" "Success \<notin> set es"
  shows "(failures es < failure_threshold b \<longrightarrow> state (breaker_run b es) = CLOSED)
       \<and> (failures es + 1 = failure_threshold b \<longrightarrow>
            state (breaker_run b (es @ [Failure now])) = OPEN
            \<and> opened_at (breaker_run b (es @ [Failure now])) = Some now)"
  using closed_run [OF assms(1,3)] assms(2) by (auto simp: record_failure_def Let_def)

theorem breaker_opens_at_threshold_witness:
  "state (breaker_run (new_breaker ''openai'' 2 30) [Before 0, Failure 1, Before 2, Failure 3]) = OPEN"
  using breaker_opens_at_threshold [of "new_breaker ''openai'' 2 30" "[Before 0, Failure 1, Before 2]" 3]
  by (simp add: new_breaker_def)

section \<open>Failing fast and probing\<close>

fun admissions :: "CircuitBreaker \<Rightarrow> rat list \<Rightarrow> bool list" where
  "admissions b [] = []"
| "admissions b (t # ts) = (fst (before_call t b) = Inr ()) # admissions (snd (before_call t b)) ts"

fun first_only :: "('a \<Rightarrow> bool) \<Rightarrow> 'a list \<Rightarrow> bool list" where
  "first_only P [] = []"
| "first_only P (x # xs) = (if P x then True # map (\<lambda>_. False) xs else False # first_only P xs)"

lemma half_open_rejects:
  "state b = HALF_OPEN \<Longrightarrow> half_open_probe_in_flight b \<Longrightarrow> admissions b ts = map (\<lambda>_. False) ts"
  by (induction ts) (auto simp: before_call_def)

text \<open>
  C25. An open breaker fails fast and then probes once: of any calls attempted at any times
  while none of them has reported back, it admits only the first one that comes at least
  \<open>recovery_timeout\<close> after it opened; every call before that and every call after that is
  rejected without a network call.
\<close>

theorem open_breaker_admits_one_probe:
  assumes "state b = OPEN" "opened_at b = Some t0"
  shows "admissions b ts = first_only (\<lambda>t. recovery_timeout b \<le> t - t0) ts"
  using assms
proof (induction ts)
  case (Cons t ts)
  show ?case
  proof (cases "recovery_timeout b \<le> t - t0")
    case True
    then have "before_call t b = (Inr (), b\<lparr>state := HALF_OPEN, half_open_probe_in_flight := True\<rparr>)"
      using Cons.prems by (simp add: before_call_def)
    then show ?thesis
      using True half_open_rejects [of "b\<lparr>state := HALF_OPEN, half_open_probe_in_flight := True\<rparr>" ts] by simp
  next
    case False
    then have "fst (before_call t b) \<noteq> Inr ()" "snd (before_call t b) = b"
      using Cons.prems by (simp_all add: before_call_def)
    then show ?thesis using False Cons by simp
  qed
qed simp

theorem open_breaker_admits_one_probe_witness:
  "admissions ((new_breaker ''openai'' 1 30)\<lparr>state := OPEN, opened_at := Some 10\<rparr>) [20, 45, 46]
     = [False, True, False]"
  using open_breaker_admits_one_probe
    [of "(new_breaker ''openai'' 1 30)\<lparr>state := OPEN, opened_at := Some 10\<rparr>" 10 "[20, 45, 46]"]
  by (simp add: new_breaker_def)

end
