(* ===== verification/Retry.thy ===== *)
theory Retry
  imports Provider_Errors
begin

text \<open>
  \<^verbatim>\<open>providers/retry.py\<close>: the bounded retry loop with exponential backoff and full jitter. The
  awaited operation is a function of the attempt number (what the network does at the first,
  second, \<dots> try), the random generator likewise; the loop returns its result together with
  the sleeps it took. \<open>random.uniform(0, d)\<close> is \<open>d\<close> times a fraction between 0 and 1.
\<close>

definition RETRYABLE_STATUS_CODES :: "int set" where
  "RETRYABLE_STATUS_CODES = {429, 500, 502, 503, 504}"

function retry_loop ::
  "(int \<Rightarrow> (exn, 'a) result) \<Rightarrow> (exn \<Rightarrow> bool) \<Rightarrow> int \<Rightarrow> rat \<Rightarrow> rat \<Rightarrow> (int \<Rightarrow> rat) \<Rightarrow> int \<Rightarrow> exn option
     \<Rightarrow> (exn, 'a) result \<times> rat list" where
  "retry_loop fn is_retryable max_attempts base_delay max_delay rand attempt last_exc =
     (if attempt < max_attempts + 1 then
        (case fn attempt of
           Inr v \<Rightarrow> (Inr v, [])
         | Inl exc \<Rightarrow>
             if \<not> is_retryable exc \<or> attempt = max_attempts then (Inl exc, [])
             else
               let delay = min max_delay (base_delay * 2 ^ nat (attempt - 1));
                   (r, sleeps) = retry_loop fn is_retryable max_attempts base_delay max_delay rand
                                   (attempt + 1) (Some exc)
               in (r, rand attempt * delay # sleeps))
      else (case last_exc of None \<Rightarrow> (Inl AssertionError, []) | Some exc \<Rightarrow> (Inl exc, [])))"
  by pat_completeness auto
termination
  by (relation "measure (\<lambda>(_, _, max_attempts, _, _, _, attempt, _). nat (max_attempts + 1 - attempt))") auto

declare retry_loop.simps [simp del]

definition call_with_retry ::
  "(int \<Rightarrow> (exn, 'a) result) \<Rightarrow> (exn \<Rightarrow> bool) \<Rightarrow> int \<Rightarrow> rat \<Rightarrow> rat \<Rightarrow> (int \<Rightarrow> rat)
     \<Rightarrow> (exn, 'a) result \<times> rat list" where
  "call_with_retry fn is_retryable max_attempts base_delay max_delay rand =
     retry_loop fn is_retryable max_attempts base_delay max_delay rand 1 None"

section \<open>Which attempt decides\<close>

definition decisive :: "(int \<Rightarrow> (exn, 'a) result) \<Rightarrow> (exn \<Rightarrow> bool) \<Rightarrow> int \<Rightarrow> int \<Rightarrow> bool" where
  "decisive fn is_retryable max_attempts k \<longleftrightarrow>
     k = max_attempts \<or> (case fn k of Inr _ \<Rightarrow> True | Inl e \<Rightarrow> \<not> is_retryable e)"

lemma retry_loop_decisive:
  "a \<le> m \<Longrightarrow> decisive fn p m a \<Longrightarrow> retry_loop fn p m b d rand a l = (fn a, [])"
  by (subst retry_loop.simps) (auto simp: decisive_def split: sum.splits)

lemma retry_loop_continue:
  "a \<le> m \<Longrightarrow> \<not> decisive fn p m a \<Longrightarrow>
   \<exists>e. fn a = Inl e \<and> p e \<and> retry_loop fn p m b d rand a l =
     (fst (retry_loop fn p m b d rand (a + 1) (Some e)),
      rand a * min d (b * 2 ^ nat (a - 1)) # snd (retry_loop fn p m b d rand (a + 1) (Some e)))"
  by (subst retry_loop.simps) (auto simp: decisive_def Let_def split: sum.splits prod.splits)

lemma retry_loop_spec:
  assumes "1 \<le> a" "a \<le> m"
  shows "\<exists>k. a \<le> k \<and> k \<le> m \<and> decisive fn p m k
     \<and> (\<forall>j. a \<le> j \<and> j < k \<longrightarrow> (\<exists>e. fn j = Inl e \<and> p e))
     \<and> retry_loop fn p m b d rand a l =
         (fn k, map (\<lambda>j. rand j * min d (b * 2 ^ nat (j - 1))) [a..k - 1])"
  using assms
proof (induction "nat (m - a)" arbitrary: a l)
  case 0
  then have "decisive fn p m a" by (simp add: decisive_def)
  with 0 show ?case by (intro exI [of _ a]) (auto simp: retry_loop_decisive)
next
  case (Suc n)
  show ?case
  proof (cases "decisive fn p m a")
    case True
    with Suc.prems show ?thesis by (intro exI [of _ a]) (auto simp: retry_loop_decisive)
  next
    case False
    from retry_loop_continue [OF Suc.prems(2) this] obtain e where e: "fn a = Inl e" "p e"
      and r: "retry_loop fn p m b d rand a l =
        (fst (retry_loop fn p m b d rand (a + 1) (Some e)),
         rand a * min d (b * 2 ^ nat (a - 1)) # snd (retry_loop fn p m b d rand (a + 1) (Some e)))"
      by blast
    have "n = nat (m - (a + 1))" "1 \<le> a + 1" "a + 1 \<le> m" using Suc.hyps(2) Suc.prems by auto
    from Suc.hyps(1) [OF this, of "Some e"] obtain k where k: "a + 1 \<le> k" "k \<le> m" "decisive fn p m k"
      "\<forall>j. a + 1 \<le> j \<and> j < k \<longrightarrow> (\<exists>e. fn j = Inl e \<and> p e)"
      "retry_loop fn p m b d rand (a + 1) (Some e) =
         (fn k, map (\<lambda>j. rand j * min d (b * 2 ^ nat (j - 1))) [a + 1..k - 1])" by blast
    have "[a..k - 1] = a # [a + 1..k - 1]" using k(1) by (simp add: upto_rec1)
    moreover have "\<exists>e. fn j = Inl e \<and> p e" if "a \<le> j" "j < k" for j
      using that e k(4) by (cases "j = a") auto
    ultimately show ?thesis using k r by (intro exI [of _ k]) auto
  qed
qed

text \<open>
  C26. \<open>call_with_retry\<close> always returns, after at most \<open>max_attempts\<close> tries: its result is that of
  the first try that succeeds, fails in a way that must not be retried, or is the last allowed;
  every earlier try failed retryably; it sleeps once between two tries, and with fractions in
  \<open>[0, 1]\<close> each sleep is non-negative and at most the capped exponential delay, so all sleeps
  together stay below \<open>max_delay\<close> per retry.
\<close>

theorem call_with_retry_spec:
  assumes "1 \<le> max_attempts" "\<forall>j. 0 \<le> rand j \<and> rand j \<le> 1" "0 \<le> base_delay" "0 \<le> max_delay"
  shows "\<exists>k sleeps. 1 \<le> k \<and> k \<le> max_attempts \<and> decisive fn is_retryable max_attempts k
     \<and> (\<forall>j. 1 \<le> j \<and> j < k \<longrightarrow> (\<exists>e. fn j = Inl e \<and> is_retryable e))
     \<and> call_with_retry fn is_retryable max_attempts base_delay max_delay rand = (fn k, sleeps)
     \<and> length sleeps = nat (k - 1)
     \<and> (\<forall>i < length sleeps. 0 \<le> sleeps ! i \<and> sleeps ! i \<le> min max_delay (base_delay * 2 ^ i))
     \<and> sum_list sleeps \<le> of_nat (length sleeps) * max_delay"
proof -
  let ?delay = "\<lambda>j. min max_delay (base_delay * 2 ^ nat (j - 1))"
  let ?sleep = "\<lambda>j. rand j * ?delay j"
  have bound: "0 \<le> ?sleep j \<and> ?sleep j \<le> ?delay j" for j
  proof -
    have "0 \<le> ?delay j" using assms(3,4) by simp
    then show ?thesis using assms(2) by (metis mult_left_le_one_le mult_nonneg_nonneg)
  qed
  obtain k where k: "1 \<le> k" "k \<le> max_attempts" "decisive fn is_retryable max_attempts k"
    "\<forall>j. 1 \<le> j \<and> j < k \<longrightarrow> (\<exists>e. fn j = Inl e \<and> is_retryable e)"
    "retry_loop fn is_retryable max_attempts base_delay max_delay rand 1 None = (fn k, map ?sleep [1..k - 1])"
    using retry_loop_spec [of 1 max_attempts] assms(1) by blast
  have nth: "0 \<le> map ?sleep [1..k - 1] ! i \<and> map ?sleep [1..k - 1] ! i \<le> min max_delay (base_delay * 2 ^ i)"
    if "i < length (map ?sleep [1..k - 1])" for i
    using that bound [of "1 + int i"] by simp
  have "sum_list (map ?sleep [1..k - 1]) \<le> sum_list (map (\<lambda>_. max_delay) [1..k - 1])"
    by (intro sum_list_mono) (use bound in \<open>meson min.bounded_iff order_trans order_refl\<close>)
  then show ?thesis
    using k nth by (intro exI [of _ k] exI [of _ "map ?sleep [1..k - 1]"])
      (simp add: call_with_retry_def sum_list_triv)
qed

theorem call_with_retry_spec_witness:
  "\<exists>k sleeps. 1 \<le> k \<and> k \<le> 3
     \<and> call_with_retry (\<lambda>i. if i < 3 then Inl (TimeoutException []) else Inr i) (\<lambda>_. True) 3 (1 / 4) 4 (\<lambda>_. 1 / 2)
         = ((if k < 3 then Inl (TimeoutException []) else Inr k), sleeps)
     \<and> sum_list sleeps \<le> of_nat (length sleeps) * 4"
  using call_with_retry_spec [of 3 "\<lambda>_. 1 / 2" "1 / 4" 4
      "\<lambda>i. if i < 3 then Inl (TimeoutException []) else Inr i" "\<lambda>_. True"] by auto

end
