(* ===== verification/Provider.thy ===== *)
theory Provider
  imports Circuit_Breaker Retry
begin

text \<open>
  \<^verbatim>\<open>providers/openai_compatible.py\<close>, \<^verbatim>\<open>providers/registry.py\<close>, \<^verbatim>\<open>providers/base.py\<close> and the circuit
  gauge of \<^verbatim>\<open>core/metrics.py\<close>. The HTTP client, pydantic's validation and dumping, and the JSON
  decoder are outside the repository: one call's share of them is the record \<open>upstream\<close>, an
  argument of the adapter's methods. It also carries the clock readings and random fractions of
  that call. The response of a stream is the list of its lines, in which an exception may stand
  where the connection broke.
\<close>

section \<open>The outside world of one call\<close>

datatype 'b http_outcome = Raised exn | Http_response int 'b

type_synonym dict = "(string \<times> json) list"

record upstream =
  up_dump :: "ChatCompletionRequest \<Rightarrow> dict"
  up_loads :: "string \<Rightarrow> json option"
  up_validate :: "json \<Rightarrow> ChatCompletionResponse option"
  up_post :: "string \<Rightarrow> (string \<times> string) list \<Rightarrow> dict \<Rightarrow> int \<Rightarrow> string http_outcome"
  up_send_stream :: "string \<Rightarrow> (string \<times> string) list \<Rightarrow> dict \<Rightarrow> int \<Rightarrow> (string \<times> (exn, string) result list) http_outcome"
  up_rand :: "int \<Rightarrow> rat"
  up_t_before :: rat
  up_t_after :: rat

definition dict_set :: "string \<Rightarrow> json \<Rightarrow> dict \<Rightarrow> dict" where
  "dict_set k v d = (if k \<in> fst ` set d then map (\<lambda>(j, w). if j = k then (j, v) else (j, w)) d else d @ [(k, v)])"

section \<open>The circuit gauge\<close>

fun CIRCUIT_STATE_VALUES :: "string \<Rightarrow> int option" where
  "CIRCUIT_STATE_VALUES v =
     (if v = ''closed'' then Some 0 else if v = ''half_open'' then Some 1 else if v = ''open'' then Some 2 else None)"

section \<open>The adapter\<close>

record OpenAICompatibleProvider =
  p_name :: string
  p_base_url :: string
  p_api_key :: "string option"
  p_max_attempts :: int
  p_breaker :: CircuitBreaker
  p_gauge :: "int option"

definition rstrip_slash :: "string \<Rightarrow> string" where
  "rstrip_slash s = rev (dropWhile (\<lambda>c. c = CHR ''/'') (rev s))"

definition new_provider :: "string \<Rightarrow> string \<Rightarrow> string option \<Rightarrow> int \<Rightarrow> CircuitBreaker \<Rightarrow> OpenAICompatibleProvider" where
  "new_provider n base_url api_key max_attempts breaker =
     \<lparr>p_name = n, p_base_url = rstrip_slash base_url, p_api_key = api_key, p_max_attempts = max_attempts,
      p_breaker = breaker, p_gauge = None\<rparr>"

definition provider_headers :: "OpenAICompatibleProvider \<Rightarrow> (string \<times> string) list" where
  "provider_headers p =
     (''Content-Type'', ''application/json'') #
     (case p_api_key p of None \<Rightarrow> []
      | Some k \<Rightarrow> if k = [] then [] else [(''Authorization'', ''Bearer '' @ k)])"

fun is_retryable :: "exn \<Rightarrow> bool" where
  "is_retryable (TimeoutException _) = True"
| "is_retryable (ConnectError _) = True"
| "is_retryable (Provider_exn (UpstreamStatusError st _)) = (st \<in> RETRYABLE_STATUS_CODES)"
| "is_retryable _ = False"

definition set_circuit_breaker_state :: "OpenAICompatibleProvider \<Rightarrow> OpenAICompatibleProvider" where
  "set_circuit_breaker_state p = p\<lparr>p_gauge := CIRCUIT_STATE_VALUES (state_value (state (p_breaker p)))\<rparr>"

definition note_failure :: "rat \<Rightarrow> OpenAICompatibleProvider \<Rightarrow> OpenAICompatibleProvider" where
  "note_failure now p = set_circuit_breaker_state (p\<lparr>p_breaker := record_failure now (p_breaker p)\<rparr>)"

definition note_success :: "OpenAICompatibleProvider \<Rightarrow> OpenAICompatibleProvider" where
  "note_success p = set_circuit_breaker_state (p\<lparr>p_breaker := record_success (p_breaker p)\<rparr>)"

definition run_with_breaker ::
  "upstream \<Rightarrow> (int \<Rightarrow> (exn, 'a) result) \<Rightarrow> OpenAICompatibleProvider \<Rightarrow> (exn, 'a) result \<times> OpenAICompatibleProvider" where
  "run_with_breaker U coro p =
     (case before_call (up_t_before U) (p_breaker p) of
        (Inl e, b) \<Rightarrow> (Inl e, p\<lparr>p_breaker := b\<rparr>)
      | (Inr _, b) \<Rightarrow>
          let p = p\<lparr>p_breaker := b\<rparr> in
          (case fst (call_with_retry coro is_retryable (p_max_attempts p) (1 / 4) 4 (up_rand U)) of
             Inl (TimeoutException m) \<Rightarrow>
               (Inl (Provider_exn (UpstreamTimeoutError m)), note_failure (up_t_after U) p)
           | Inl (ConnectError m) \<Rightarrow>
               (Inl (Provider_exn (UpstreamConnectionError m)), note_failure (up_t_after U) p)
           | Inl (Provider_exn (UpstreamStatusError st body)) \<Rightarrow>
               (Inl (Provider_exn (UpstreamStatusError st body)), note_failure (up_t_after U) p)
           | Inl e \<Rightarrow> (Inl e, p)
           | Inr v \<Rightarrow> (Inr v, note_success p)))"

definition completions_url :: "OpenAICompatibleProvider \<Rightarrow> string" where
  "completions_url p = p_base_url p @ ''/chat/completions''"

definition post_once :: "upstream \<Rightarrow> OpenAICompatibleProvider \<Rightarrow> dict \<Rightarrow> int \<Rightarrow> (exn, json) result" where
  "post_once U p payload attempt =
     (case up_post U (completions_url p) (provider_headers p) payload attempt of
        Raised e \<Rightarrow> Inl e
      | Http_response st txt \<Rightarrow>
          if st \<ge> 400 then Inl (Provider_exn (UpstreamStatusError st txt))
          else (case up_loads U txt of None \<Rightarrow> Inl (Other_exn ''JSONDecodeError'') | Some j \<Rightarrow> Inr j))"

definition chat_completion ::
  "upstream \<Rightarrow> ChatCompletionRequest \<Rightarrow> OpenAICompatibleProvider
     \<Rightarrow> (exn, ChatCompletionResponse) result \<times> OpenAICompatibleProvider" where
  "chat_completion U request p =
     (let payload = dict_set ''stream'' (JBool False) (up_dump U request) in
      case run_with_breaker U (post_once U p payload) p of
        (Inl e, p) \<Rightarrow> (Inl e, p)
      | (Inr raw, p) \<Rightarrow>
          (case up_validate U raw of None \<Rightarrow> (Inl (Other_exn ''ValidationError''), p) | Some r \<Rightarrow> (Inr r, p)))"

definition open_stream ::
  "upstream \<Rightarrow> OpenAICompatibleProvider \<Rightarrow> dict \<Rightarrow> int \<Rightarrow> (exn, (exn, string) result list) result" where
  "open_stream U p payload attempt =
     (case up_send_stream U (completions_url p) (provider_headers p) payload attempt of
        Raised e \<Rightarrow> Inl e
      | Http_response st (body, lines) \<Rightarrow>
          if st \<ge> 400 then Inl (Provider_exn (UpstreamStatusError st body)) else Inr lines)"

text \<open>The chunks a stream yields and how it ends: normally, or with an exception.\<close>

fun sse_chunks :: "(string \<Rightarrow> json option) \<Rightarrow> string \<Rightarrow> (exn, string) result list \<Rightarrow> json list \<times> exn option" where
  "sse_chunks loads n [] = ([], None)"
| "sse_chunks loads n (Inl e # rest) = ([], Some e)"
| "sse_chunks loads n (Inr line # rest) =
     (if \<not> starts_with line ''data:'' then sse_chunks loads n rest
      else
        let dat = str_strip (drop 5 line) in
        if dat = [] \<or> dat = ''[DONE]'' then ([], None)
        else (case loads dat of
                None \<Rightarrow> ([], Some (Provider_exn (OtherProviderError
                          (''malformed SSE chunk from '' @ n @ '': '' @ take 200 dat))))
              | Some j \<Rightarrow> (j # fst (sse_chunks loads n rest), snd (sse_chunks loads n rest))))"

definition stream_chat_completion ::
  "upstream \<Rightarrow> ChatCompletionRequest \<Rightarrow> OpenAICompatibleProvider
     \<Rightarrow> (json list \<times> exn option) \<times> OpenAICompatibleProvider" where
  "stream_chat_completion U request p =
     (let payload = dict_set ''stream'' (JBool True) (up_dump U request) in
      case run_with_breaker U (open_stream U p payload) p of
        (Inl e, p) \<Rightarrow> (([], Some e), p)
      | (Inr lines, p) \<Rightarrow> (sse_chunks (up_loads U) (p_name p) lines, p))"

section \<open>The registry\<close>

definition MODEL_PREFIX_ROUTES :: "(string \<times> string) list" where
  "MODEL_PREFIX_ROUTES = [(''gpt-'', ''openai''), (''o1'', ''openai''), (''o3'', ''openai''), (''o4'', ''openai'')]"

definition DEFAULT_PROVIDER :: string where
  "DEFAULT_PROVIDER = ''ollama''"

fun route :: "(string \<rightharpoonup> 'p) \<Rightarrow> string \<Rightarrow> (string \<times> string) list \<Rightarrow> 'p option" where
  "route providers m [] = None"
| "route providers m ((pre, provider_name) # rest) =
     (if starts_with m pre
      then (case providers provider_name of Some p \<Rightarrow> Some p | None \<Rightarrow> route providers m rest)
      else route providers m rest)"

text \<open>\<open>None\<close> is \<open>UnknownProviderError\<close>.\<close>

definition resolve :: "(string \<rightharpoonup> 'p) \<Rightarrow> string \<Rightarrow> 'p option" where
  "resolve providers m =
     (case route providers m MODEL_PREFIX_ROUTES of Some p \<Rightarrow> Some p | None \<Rightarrow> providers DEFAULT_PROVIDER)"

definition OPENAI_BASE_URL :: string where
  "OPENAI_BASE_URL = ''https://api.openai.com/v1''"

definition build_provider_registry ::
  "string \<Rightarrow> string \<Rightarrow> int \<Rightarrow> int \<Rightarrow> rat \<Rightarrow> (string \<rightharpoonup> OpenAICompatibleProvider)" where
  "build_provider_registry openai_api_key ollama_base_url max_attempts threshold recovery =
     [''openai'' \<mapsto> new_provider ''openai'' OPENAI_BASE_URL
         (if openai_api_key = [] then None else Some openai_api_key) max_attempts
         (new_breaker ''openai'' threshold recovery),
      ''ollama'' \<mapsto> new_provider ''ollama'' (rstrip_slash ollama_base_url @ ''/v1'') None max_attempts
         (new_breaker ''ollama'' threshold recovery)]"

end
