(* ===== verification/Provider_Calls.thy ===== *)
theory Provider_Calls
  imports Provider
begin

text \<open>
  What a guarded provider call guarantees: when it reaches the network, what it does to the
  breaker and the gauge, how client errors and unforeseen exceptions act on the shared breaker,
  that the SSE framing of the gateway is read back by its own adapter, and where a model's
  requests are routed.
\<close>

section \<open>One guarded call\<close>

lemma run_with_breaker_rejected:
  assumes "fst (before_call (up_t_before U) (p_breaker p)) = Inl e"
  shows "run_with_breaker U coro p = (Inl e, p\<lparr>p_breaker := snd (before_call (up_t_before U) (p_breaker p))\<rparr>)"
  using assms by (auto simp: run_with_breaker_def split: prod.splits sum.splits)

lemma before_call_rejected_unchanged:
  "fst (before_call now b) = Inl e \<Longrightarrow> snd (before_call now b) = b"
  by (auto simp: before_call_def split: CircuitState.splits option.splits if_splits)

lemma run_with_breaker_admitted:
  assumes "fst (before_call (up_t_before U) (p_breaker p)) = Inr ()"
    and "fst (call_with_retry coro is_retryable (p_max_attempts p) (1 / 4) 4 (up_rand U)) = r"
  defines "q \<equiv> p\<lparr>p_breaker := snd (before_call (up_t_before U) (p_breaker p))\<rparr>"
  shows "run_with_breaker U coro p =
     (case r of
        Inl (TimeoutException m) \<Rightarrow> (Inl (Provider_exn (UpstreamTimeoutError m)), note_failure (up_t_after U) q)
      | Inl (ConnectError m) \<Rightarrow> (Inl (Provider_exn (UpstreamConnectionError m)), note_failure (up_t_after U) q)
      | Inl (Provider_exn (UpstreamStatusError st body)) \<Rightarrow>
          (Inl (Provider_exn (UpstreamStatusError st body)), note_failure (up_t_after U) q)
      | Inl e \<Rightarrow> (Inl e, q)
      | Inr v \<Rightarrow> (Inr v, note_success q))"
proof -
  obtain b where b: "before_call (up_t_before U) (p_breaker p) = (Inr (), b)"
    using assms(1) by (cases "before_call (up_t_before U) (p_breaker p)") auto
  have q: "p\<lparr>p_breaker := b\<rparr> = q" by (simp add: q_def b)
  have m: "p_max_attempts q = p_max_attempts p" by (simp add: q_def)
  show ?thesis
    by (simp add: run_with_breaker_def b q m Let_def assms(2) split: sum.splits exn.splits ProviderError.splits)
qed

lemma first_try_decides:
  assumes "1 \<le> m" "decisive coro is_retryable m 1"
  shows "fst (call_with_retry coro is_retryable m b d rand) = coro 1"
  using assms by (simp add: call_with_retry_def retry_loop_decisive)

lemma p_breaker_notes [simp]:
  "p_breaker (note_failure now p) = record_failure now (p_breaker p)"
  "p_breaker (note_success p) = record_success (p_breaker p)"
  "p_name (note_failure now p) = p_name p" "p_name (note_success p) = p_name p"
  "p_max_attempts (note_failure now p) = p_max_attempts p" "p_max_attempts (note_success p) = p_max_attempts p"
  by (simp_all add: note_failure_def note_success_def set_circuit_breaker_state_def)

text \<open>
  C35. A probe that ends in an exception the adapter does not catch (a body that is not JSON, a
  reset connection, a cancelled request) leaves the breaker half-open with its probe still
  marked in flight, and that state is final: from then on every call to this provider, at any
  later time and whatever the upstream would answer, is rejected and changes nothing.
\<close>

theorem unreported_probe_wedges_breaker:
  assumes "state (p_breaker p) = OPEN" "opened_at (p_breaker p) = Some t0"
    and "recovery_timeout (p_breaker p) \<le> up_t_before U - t0"
    and "1 \<le> p_max_attempts p" "coro 1 = Inl (Other_exn m)"
  defines "p' \<equiv> snd (run_with_breaker U coro p)"
  shows "fst (run_with_breaker U coro p) = Inl (Other_exn m)
       \<and> (\<forall>U' (coro' :: int \<Rightarrow> (exn, 'b) result).
            run_with_breaker U' coro' p' =
              (Inl (Provider_exn (CircuitOpenError (''circuit half-open for provider ''
                  @ quoted (cb_name (p_breaker p)) @ '', probe in flight''))), p'))"
proof -
  define b where "b = (p_breaker p)\<lparr>state := HALF_OPEN, half_open_probe_in_flight := True\<rparr>"
  have bc: "before_call (up_t_before U) (p_breaker p) = (Inr (), b)"
    using assms(1-3) by (simp add: before_call_def b_def)
  have "fst (call_with_retry coro is_retryable (p_max_attempts p) (1 / 4) 4 (up_rand U)) = Inl (Other_exn m)"
    using assms(4,5) by (simp add: first_try_decides decisive_def)
  from run_with_breaker_admitted [OF _ this] have run: "run_with_breaker U coro p = (Inl (Other_exn m), p\<lparr>p_breaker := b\<rparr>)"
    by (simp add: bc)
  have "before_call t b = (Inl (Provider_exn (CircuitOpenError (''circuit half-open for provider ''
      @ quoted (cb_name (p_breaker p)) @ '', probe in flight''))), b)" for t
    by (simp add: before_call_def b_def)
  note rej = this
  have "run_with_breaker U' coro' (p\<lparr>p_breaker := b\<rparr>) =
      (Inl (Provider_exn (CircuitOpenError (''circuit half-open for provider ''
         @ quoted (cb_name (p_breaker p)) @ '', probe in flight''))), p\<lparr>p_breaker := b\<rparr>)"
    for U' and coro' :: "int \<Rightarrow> (exn, 'b) result"
    by (simp add: run_with_breaker_def rej)
  then show ?thesis by (simp add: p'_def run)
qed

definition demo_upstream :: upstream where
  "demo_upstream = \<lparr>up_dump = (\<lambda>_. []), up_loads = (\<lambda>s. if s = ''{}'' then Some (JObj []) else None),
     up_validate = (\<lambda>_. None), up_post = (\<lambda>_ _ _ _. Http_response 200 ''<html>''),
     up_send_stream = (\<lambda>_ _ _ _. Http_response 200 ([], [])), up_rand = (\<lambda>_. 0), up_t_before = 100, up_t_after = 101\<rparr>"

definition demo_provider :: OpenAICompatibleProvider where
  "demo_provider = new_provider ''openai'' OPENAI_BASE_URL None 3
     ((new_breaker ''openai'' 5 30)\<lparr>state := OPEN, failure_count := 5, opened_at := Some 10\<rparr>)"

theorem unreported_probe_wedges_breaker_witness:
  "run_with_breaker demo_upstream (\<lambda>_. Inr ())
      (snd (run_with_breaker demo_upstream (post_once demo_upstream demo_provider []) demo_provider))
   = (Inl (Provider_exn (CircuitOpenError (''circuit half-open for provider '' @ quoted ''openai'' @ '', probe in flight''))),
      snd (run_with_breaker demo_upstream (post_once demo_upstream demo_provider []) demo_provider))"
proof -
  have h: "state (p_breaker demo_provider) = OPEN" "opened_at (p_breaker demo_provider) = Some 10"
    "recovery_timeout (p_breaker demo_provider) \<le> up_t_before demo_upstream - 10"
    "1 \<le> p_max_attempts demo_provider"
    "post_once demo_upstream demo_provider [] 1 = Inl (Other_exn ''JSONDecodeError'')"
    "cb_name (p_breaker demo_provider) = ''openai''"
    by (simp_all add: demo_provider_def new_provider_def new_breaker_def demo_upstream_def post_once_def)
  show ?thesis using unreported_probe_wedges_breaker [where coro = "post_once demo_upstream demo_provider []", OF h(1-5)] unfolding h(6) by blast
qed

section \<open>The gauge\<close>

lemma report_not_half_open:
  "state (record_success b) \<noteq> HALF_OPEN" "state (record_failure now b) \<noteq> HALF_OPEN"
  by (auto simp: record_success_def record_failure_def Let_def)

lemma gauge_notes:
  "p_gauge (note_failure now p) \<in> {Some 0, Some 2}" "p_gauge (note_success p) \<in> {Some 0, Some 2}"
  using report_not_half_open(2) [of now "p_breaker p"]
  by (cases "state (record_failure now (p_breaker p))"; 
      simp add: note_failure_def note_success_def set_circuit_breaker_state_def record_success_def)+

datatype call = Complete upstream ChatCompletionRequest | Stream upstream ChatCompletionRequest

fun provider_step :: "OpenAICompatibleProvider \<Rightarrow> call \<Rightarrow> OpenAICompatibleProvider" where
  "provider_step p (Complete U r) = snd (chat_completion U r p)"
| "provider_step p (Stream U r) = snd (stream_chat_completion U r p)"

definition gauge_agrees :: "OpenAICompatibleProvider \<Rightarrow> bool" where
  "gauge_agrees p \<longleftrightarrow>
     (case state (p_breaker p) of
        CLOSED \<Rightarrow> p_gauge p \<in> {None, Some 0}
      | _ \<Rightarrow> p_gauge p = Some 2)"

lemma snd_chat_completion:
  "snd (chat_completion U r p) =
     snd (run_with_breaker U (post_once U p (dict_set ''stream'' (JBool False) (up_dump U r))) p)"
  by (simp add: chat_completion_def Let_def split: prod.splits sum.splits option.splits)

lemma snd_stream_chat_completion:
  "snd (stream_chat_completion U r p) =
     snd (run_with_breaker U (open_stream U p (dict_set ''stream'' (JBool True) (up_dump U r))) p)"
  by (simp add: stream_chat_completion_def Let_def split: prod.splits sum.splits)

lemma gauge_note_failure: "gauge_agrees (note_failure now p)"
  using report_not_half_open(2) [of now "p_breaker p"]
  by (cases "state (record_failure now (p_breaker p))")
    (simp_all add: gauge_agrees_def note_failure_def set_circuit_breaker_state_def)

lemma gauge_note_success: "gauge_agrees (note_success p)"
  by (simp add: gauge_agrees_def note_success_def set_circuit_breaker_state_def record_success_def)

lemma gauge_before_call:
  "gauge_agrees p \<Longrightarrow> gauge_agrees (p\<lparr>p_breaker := snd (before_call now (p_breaker p))\<rparr>)"
  by (auto simp: gauge_agrees_def before_call_def split: CircuitState.splits option.splits)

lemma gauge_run_with_breaker:
  assumes "gauge_agrees p" shows "gauge_agrees (snd (run_with_breaker U coro p))"
proof (cases "fst (before_call (up_t_before U) (p_breaker p))")
  case (Inl e)
  then show ?thesis using assms gauge_before_call by (simp add: run_with_breaker_rejected)
next
  case (Inr u)
  then have "fst (before_call (up_t_before U) (p_breaker p)) = Inr ()" by simp
  from run_with_breaker_admitted [OF this refl, of coro] gauge_before_call [OF assms]
  show ?thesis
    by (simp add: gauge_note_failure gauge_note_success split: sum.splits exn.splits ProviderError.splits)
qed

text \<open>
  The circuit gauge of a provider, after any sequence of completions and streams, is unset
  or 0 while its breaker is closed and 2 while it is open or half-open: it never takes the value
  1 that the metric's description gives to the half-open state.
\<close>

theorem gauge_never_half_open:
  "gauge_agrees (foldl provider_step (new_provider n url key m (new_breaker n thr rec)) calls)
   \<and> p_gauge (foldl provider_step (new_provider n url key m (new_breaker n thr rec)) calls) \<noteq> CIRCUIT_STATE_VALUES ''half_open''"
proof -
  have step: "gauge_agrees (provider_step p c)" if "gauge_agrees p" for p c
    using that by (cases c) (simp_all add: snd_chat_completion snd_stream_chat_completion gauge_run_with_breaker)
  have run: "gauge_agrees (foldl provider_step p calls)" if "gauge_agrees p" for p
    using that by (induction calls arbitrary: p) (auto intro: step)
  have "gauge_agrees (new_provider n url key m (new_breaker n thr rec))"
    by (simp add: gauge_agrees_def new_provider_def new_breaker_def)
  from run [OF this] show ?thesis
    by (auto simp: gauge_agrees_def split: CircuitState.splits)
qed

section \<open>Client errors\<close>

lemma provider_target_notes [simp]:
  "p_base_url (note_failure now p) = p_base_url p" "p_api_key (note_failure now p) = p_api_key p"
  by (simp_all add: note_failure_def set_circuit_breaker_state_def)

lemma target_note_failure [simp]:
  "completions_url (note_failure now p) = completions_url p"
  "provider_headers (note_failure now p) = provider_headers p"
  by (simp_all add: completions_url_def provider_headers_def)

text \<open>A client error: the upstream refuses the request itself, so that retrying is pointless.\<close>

definition refused :: "OpenAICompatibleProvider \<Rightarrow> upstream \<times> ChatCompletionRequest \<Rightarrow> bool"
  where
  "refused p = (\<lambda>(U, r).
     case up_post U (completions_url p) (provider_headers p) (dict_set ''stream'' (JBool False) (up_dump U r)) 1 of
       Raised _ \<Rightarrow> False | Http_response st _ \<Rightarrow> 400 \<le> st \<and> st < 500 \<and> st \<noteq> 429)"

lemma refused_note_failure [simp]: "refused (note_failure now p) = refused p"
  by (simp add: refused_def)

lemma chat_completion_refused:
  assumes "refused p (U, r)" "state (p_breaker p) = CLOSED" "1 \<le> p_max_attempts p"
  shows "snd (chat_completion U r p) = note_failure (up_t_after U) p
       \<and> (\<exists>st body. fst (chat_completion U r p) = Inl (Provider_exn (UpstreamStatusError st body)))"
proof -
  let ?post = "post_once U p (dict_set ''stream'' (JBool False) (up_dump U r))"
  from assms(1) obtain st bd where st: "400 \<le> st" "st < 500" "st \<noteq> 429"
    and post: "?post 1 = Inl (Provider_exn (UpstreamStatusError st bd))"
    by (auto simp: refused_def post_once_def split: http_outcome.splits)
  have "decisive ?post is_retryable (p_max_attempts p) 1"
    using st by (auto simp: decisive_def post RETRYABLE_STATUS_CODES_def)
  from first_try_decides [OF assms(3) this]
  have call: "fst (call_with_retry ?post is_retryable (p_max_attempts p) (1 / 4) 4 (up_rand U))
      = Inl (Provider_exn (UpstreamStatusError st bd))" by (simp add: post)
  have bc: "before_call (up_t_before U) (p_breaker p) = (Inr (), p_breaker p)"
    using assms(2) by (simp add: before_call_def)
  have "run_with_breaker U ?post p = (Inl (Provider_exn (UpstreamStatusError st bd)), note_failure (up_t_after U) p)"
    using run_with_breaker_admitted [OF _ call] by (simp add: bc)
  then show ?thesis by (simp add: chat_completion_def Let_def)
qed

lemma refused_run:
  assumes "\<forall>c \<in> set cs. refused p c" "state (p_breaker p) = CLOSED" "1 \<le> p_max_attempts p"
    and "failure_count (p_breaker p) + int (length cs) = failure_threshold (p_breaker p)" "cs \<noteq> []"
  shows "let q = foldl (\<lambda>p (U, r). snd (chat_completion U r p)) p cs in
           state (p_breaker q) = OPEN \<and> opened_at (p_breaker q) = Some (up_t_after (fst (last cs)))
           \<and> recovery_timeout (p_breaker q) = recovery_timeout (p_breaker p)
           \<and> cb_name (p_breaker q) = cb_name (p_breaker p)"
  using assms
proof (induction cs arbitrary: p)
  case (Cons c cs)
  obtain U r where c: "c = (U, r)" by (cases c)
  let ?q = "note_failure (up_t_after U) p"
  have step: "snd (chat_completion U r p) = ?q" using chat_completion_refused Cons.prems c by auto
  show ?case
  proof (cases "cs = []")
    case True
    then show ?thesis using Cons.prems by (simp add: c step record_failure_def Let_def)
  next
    case False
    then have f: "record_failure (up_t_after U) (p_breaker p) =
        (p_breaker p)\<lparr>half_open_probe_in_flight := False, failure_count := failure_count (p_breaker p) + 1\<rparr>"
      using Cons.prems(2,4) by (cases cs) (simp_all add: record_failure_def Let_def)
    show ?thesis using Cons.IH [of ?q] Cons.prems False by (simp add: c step f)
  qed
qed simp

text \<open>
  Requests the upstream refuses as malformed, unauthorised or unknown (any 4xx but 429) are
  each tried once and each count as a failure of the provider: after as many of them in a row as
  the threshold the shared breaker is open, and within the recovery time every further
  completion, whatever its tenant, its content and the health of the upstream, fails with
  \<open>CircuitOpenError\<close>.
\<close>

theorem client_errors_open_circuit:
  assumes "\<forall>c \<in> set cs. refused p c" "state (p_breaker p) = CLOSED" "failure_count (p_breaker p) = 0"
    and "1 \<le> p_max_attempts p" "int (length cs) = failure_threshold (p_breaker p)" "cs \<noteq> []"
    and "up_t_before U - up_t_after (fst (last cs)) < recovery_timeout (p_breaker p)"
  defines "q \<equiv> foldl (\<lambda>p (U, r). snd (chat_completion U r p)) p cs"
  shows "state (p_breaker q) = OPEN
       \<and> chat_completion U r q =
           (Inl (Provider_exn (CircuitOpenError (''circuit open for provider '' @ quoted (cb_name (p_breaker p))))), q)"
proof -
  have q: "state (p_breaker q) = OPEN" "opened_at (p_breaker q) = Some (up_t_after (fst (last cs)))"
    "recovery_timeout (p_breaker q) = recovery_timeout (p_breaker p)" "cb_name (p_breaker q) = cb_name (p_breaker p)"
    using refused_run [of cs p] assms(1-6) by (simp_all add: q_def Let_def)
  have "before_call (up_t_before U) (p_breaker q) =
      (Inl (Provider_exn (CircuitOpenError (''circuit open for provider '' @ quoted (cb_name (p_breaker p))))), p_breaker q)"
    using assms(7) by (simp add: before_call_def q)
  then show ?thesis by (simp add: chat_completion_def run_with_breaker_def q(1))
qed

definition demo_request :: ChatCompletionRequest where
  "demo_request = \<lparr>model = ''gpt-4o-mini'', messages = [], stream = False, req_extra = []\<rparr>"

definition refusing_upstream :: upstream where
  "refusing_upstream = demo_upstream\<lparr>up_post := \<lambda>_ _ _ _. Http_response 400 ''bad request''\<rparr>"

definition fresh_provider :: OpenAICompatibleProvider where
  "fresh_provider = new_provider ''openai'' OPENAI_BASE_URL None 3 (new_breaker ''openai'' 2 30)"

theorem client_errors_open_circuit_witness:
  "fst (chat_completion demo_upstream demo_request
     (foldl (\<lambda>p (U, r). snd (chat_completion U r p)) fresh_provider
        [(refusing_upstream, demo_request), (refusing_upstream, demo_request)]))
   = Inl (Provider_exn (CircuitOpenError (''circuit open for provider '' @ quoted ''openai'')))"
proof -
  let ?cs = "[(refusing_upstream, demo_request), (refusing_upstream, demo_request)]"
  have h: "\<forall>c \<in> set ?cs. refused fresh_provider c" "state (p_breaker fresh_provider) = CLOSED"
    "failure_count (p_breaker fresh_provider) = 0" "1 \<le> p_max_attempts fresh_provider"
    "int (length ?cs) = failure_threshold (p_breaker fresh_provider)" "?cs \<noteq> []"
    "up_t_before demo_upstream - up_t_after (fst (last ?cs)) < recovery_timeout (p_breaker fresh_provider)"
    "cb_name (p_breaker fresh_provider) = ''openai''"
    by (simp_all add: refused_def refusing_upstream_def fresh_provider_def new_provider_def new_breaker_def
        demo_upstream_def)
  show ?thesis using client_errors_open_circuit [OF h(1-7)] unfolding h(8) by simp
qed

section \<open>Routing\<close>

text \<open>
  Routing by model name: a model of the \<open>gpt-\<close>, \<open>o1\<close>, \<open>o3\<close> or \<open>o4\<close> family goes to
  \<open>openai\<close> when that provider is registered; every other model, and every model when it is not,
  goes to \<open>ollama\<close>; resolution fails exactly when the provider chosen so is not registered. In
  the registry the gateway builds it never fails.
\<close>

theorem resolve_routes:
  "resolve providers m =
     (if (\<exists>pre \<in> {''gpt-'', ''o1'', ''o3'', ''o4''}. starts_with m pre) \<and> providers ''openai'' \<noteq> None
      then providers ''openai'' else providers ''ollama'')
   \<and> resolve (build_provider_registry k u a t rec) m \<noteq> None"
  by (auto simp: resolve_def MODEL_PREFIX_ROUTES_def DEFAULT_PROVIDER_def build_provider_registry_def
      split: option.splits)

end
