(* ===== verification/Token_Counter.thy ===== *)
theory Token_Counter
  imports Schemas
begin

text \<open>
  \<^verbatim>\<open>services/token_counter.py\<close>. The tokenizer library is outside the repository: \<open>encoding_for_model\<close>
  and \<open>get_encoding\<close> are arguments (\<open>tiktoken\<close>), an encoding is the function from a text to its
  tokens. A message's \<open>name\<close> is an extra field of the pydantic model.
\<close>

type_synonym encoding = "string \<Rightarrow> int list"

record tiktoken =
  encoding_for_model :: "string \<Rightarrow> encoding option"
  get_encoding :: "string \<Rightarrow> encoding"

definition FALLBACK_ENCODING :: string where
  "FALLBACK_ENCODING = ''cl100k_base''"

definition TOKENS_PER_MESSAGE :: int where
  "TOKENS_PER_MESSAGE = 3"

definition TOKENS_PER_NAME :: int where
  "TOKENS_PER_NAME = 1"

definition TOKENS_PER_REPLY_PRIMER :: int where
  "TOKENS_PER_REPLY_PRIMER = 3"

definition encoding_for :: "tiktoken \<Rightarrow> string \<Rightarrow> encoding" where
  "encoding_for tk m =
     (case encoding_for_model tk m of Some enc \<Rightarrow> enc | None \<Rightarrow> get_encoding tk FALLBACK_ENCODING)"

definition message_tokens :: "encoding \<Rightarrow> ChatMessage \<Rightarrow> int" where
  "message_tokens enc message =
     TOKENS_PER_MESSAGE
     + int (length (enc (role message)))
     + (case content message of CText t \<Rightarrow> int (length (enc t)) | _ \<Rightarrow> 0)
     + (case map_of (msg_extra message) ''name'' of
          Some (JStr n) \<Rightarrow> int (length (enc n)) + TOKENS_PER_NAME
        | _ \<Rightarrow> 0)"

definition count_prompt_tokens :: "tiktoken \<Rightarrow> ChatMessage list \<Rightarrow> string \<Rightarrow> int" where
  "count_prompt_tokens tk msgs m =
     (let enc = encoding_for tk m
      in foldl (\<lambda>num_tokens message. num_tokens + message_tokens enc message) 0 msgs
         + TOKENS_PER_REPLY_PRIMER)"

definition count_text_tokens :: "tiktoken \<Rightarrow> string \<Rightarrow> string \<Rightarrow> int" where
  "count_text_tokens tk t m = int (length (encoding_for tk m t))"

lemmas token_constants = TOKENS_PER_MESSAGE_def TOKENS_PER_NAME_def TOKENS_PER_REPLY_PRIMER_def

lemma foldl_tokens: "foldl (\<lambda>n x. n + f x) a xs = a + (\<Sum>x\<leftarrow>xs. f x)" for f :: "'a \<Rightarrow> int"
  by (induction xs arbitrary: a) auto

lemma message_tokens_ge: "3 \<le> message_tokens enc message"
  by (auto simp: message_tokens_def token_constants split: content.split option.split json.split)

lemma count_prompt_tokens_sum:
  "count_prompt_tokens tk ms m = (\<Sum>x\<leftarrow>ms. message_tokens (encoding_for tk m) x) + 3"
  by (simp add: count_prompt_tokens_def foldl_tokens token_constants)

lemma count_prompt_tokens_ge: "3 * int (length ms) + 3 \<le> count_prompt_tokens tk ms m"
proof -
  have "3 * int (length ms) \<le> (\<Sum>x\<leftarrow>ms. message_tokens enc x)" for enc
    by (induction ms) (use message_tokens_ge [of enc] in \<open>auto simp: algebra_simps add_mono\<close>)
  then show ?thesis by (simp add: count_prompt_tokens_sum)
qed

lemma count_text_tokens_nonneg: "0 \<le> count_text_tokens tk t m"
  by (simp add: count_text_tokens_def)

end
