(* ===== verification/Idempotency.thy ===== *)
theory Idempotency
  imports Redis_Api Schemas
begin

text \<open>
  \<^verbatim>\<open>services/idempotency.py\<close>: the per-tenant lock and replay entry of an idempotency key, each one
  Redis command. The lemmas give the effect of each operation on the keyspace under the contract
  of the server; the theorems say when two requests with one key can both run.
\<close>

definition LOCK_TTL_SECONDS :: int where
  "LOCK_TTL_SECONDS = 60"

definition REPLAY_CACHE_TTL_SECONDS :: int where
  "REPLAY_CACHE_TTL_SECONDS = 24 * 60 * 60"

definition lock_key :: "uuid \<Rightarrow> string \<Rightarrow> string" where
  "lock_key tid k = ''idempotency:'' @ uuid_str tid @ '':'' @ k @ '':lock''"

definition response_key :: "uuid \<Rightarrow> string \<Rightarrow> string" where
  "response_key tid k = ''idempotency:'' @ uuid_str tid @ '':'' @ k @ '':response''"

definition get_cached_response :: "'s redis_api \<Rightarrow> uuid \<Rightarrow> string \<Rightarrow> 's \<Rightarrow> rval option" where
  "get_cached_response R tid k s = rd_get R (response_key tid k) s"

definition try_acquire_lock :: "'s redis_api \<Rightarrow> uuid \<Rightarrow> string \<Rightarrow> 's \<Rightarrow> bool \<times> 's" where
  "try_acquire_lock R tid k s = rd_set_nx_ex R (lock_key tid k) (Num 1) LOCK_TTL_SECONDS s"

definition store_response :: "'s redis_api \<Rightarrow> uuid \<Rightarrow> string \<Rightarrow> string \<Rightarrow> 's \<Rightarrow> 's" where
  "store_response R tid k response_json s =
     rd_set_ex R (response_key tid k) (Text response_json) REPLAY_CACHE_TTL_SECONDS s"

definition release_lock :: "'s redis_api \<Rightarrow> uuid \<Rightarrow> string \<Rightarrow> 's \<Rightarrow> 's" where
  "release_lock R tid k s = rd_delete R (lock_key tid k) s"

lemmas idempotency_ops =
  get_cached_response_def try_acquire_lock_def store_response_def release_lock_def
  LOCK_TTL_SECONDS_def REPLAY_CACHE_TTL_SECONDS_def

section \<open>Keys\<close>

lemma lock_key_inj: "lock_key t k = lock_key t' k' \<longleftrightarrow> t = t' \<and> k = k'"
  by (auto simp: lock_key_def uuid_str_append_inj)

lemma response_key_inj: "response_key t k = response_key t' k' \<longleftrightarrow> t = t' \<and> k = k'"
  by (auto simp: response_key_def uuid_str_append_inj)

lemma lock_response_keys_distinct [simp]: "lock_key t k \<noteq> response_key t' k'" "response_key t' k' \<noteq> lock_key t k"
proof -
  have "last (lock_key t k) \<noteq> last (response_key t' k')" by (simp add: lock_key_def response_key_def)
  then show "lock_key t k \<noteq> response_key t' k'" "response_key t' k' \<noteq> lock_key t k" by metis+
qed

section \<open>Effects\<close>

context redis_server
begin

lemma get_cached_response_eval:
  "string_at (entry s) (response_key t k) = Some r \<Longrightarrow> get_cached_response R t k s = r"
  by (simp add: idempotency_ops redis_laws)

lemma try_acquire_lock_eval:
  "fst (try_acquire_lock R t k s) \<longleftrightarrow> entry s (lock_key t k) = None"
  "entry (snd (try_acquire_lock R t k s)) =
     (if entry s (lock_key t k) = None then (entry s)(lock_key t k \<mapsto> (Num 1, Some (now s + 60))) else entry s)"
  "now (snd (try_acquire_lock R t k s)) = now s"
  by (simp_all add: idempotency_ops redis_laws)

lemma store_response_eval:
  "entry (store_response R t k j s) = (entry s)(response_key t k \<mapsto> (Text j, Some (now s + 86400)))"
  "now (store_response R t k j s) = now s"
  by (simp_all add: idempotency_ops redis_laws)

lemma release_lock_eval:
  "entry (release_lock R t k s) = (entry s)(lock_key t k := None)"
  "now (release_lock R t k s) = now s"
  by (simp_all add: idempotency_ops redis_laws)

end

section \<open>Requests that share a key, command by command\<close>

text \<open>
  What a non-streaming request with an \<open>Idempotency-Key\<close> does to the two keys
  (\<^verbatim>\<open>api/proxy.py\<close>): it looks for a stored response, then tries to take the lock, runs, and either
  stores its response and releases the lock or only releases it. Any number of requests
  interleave at these commands; \<open>env\<close> is what else may happen to the server in between.
\<close>

datatype idem_pc = Start | Checked | Running | Stored | Finished | Replayed rval | Rejected | Failed

record 's idem =
  iserver :: 's
  ipc :: "nat \<Rightarrow> idem_pc"

inductive idem_step ::
  "'s redis_api \<Rightarrow> uuid \<Rightarrow> string \<Rightarrow> ('s \<Rightarrow> 's \<Rightarrow> bool) \<Rightarrow> 's idem \<Rightarrow> 's idem \<Rightarrow> bool"
  for R tid k env where
  replay: "ipc \<sigma> i = Start \<Longrightarrow> get_cached_response R tid k (iserver \<sigma>) = Some v \<Longrightarrow>
    idem_step R tid k env \<sigma> (\<sigma>\<lparr>ipc := (ipc \<sigma>)(i := Replayed v)\<rparr>)"
| miss: "ipc \<sigma> i = Start \<Longrightarrow> get_cached_response R tid k (iserver \<sigma>) = None \<Longrightarrow>
    idem_step R tid k env \<sigma> (\<sigma>\<lparr>ipc := (ipc \<sigma>)(i := Checked)\<rparr>)"
| lock: "ipc \<sigma> i = Checked \<Longrightarrow> try_acquire_lock R tid k (iserver \<sigma>) = (True, s') \<Longrightarrow>
    idem_step R tid k env \<sigma> (\<sigma>\<lparr>iserver := s', ipc := (ipc \<sigma>)(i := Running)\<rparr>)"
| busy: "ipc \<sigma> i = Checked \<Longrightarrow> try_acquire_lock R tid k (iserver \<sigma>) = (False, s') \<Longrightarrow>
    idem_step R tid k env \<sigma> (\<sigma>\<lparr>iserver := s', ipc := (ipc \<sigma>)(i := Rejected)\<rparr>)"
| finish: "ipc \<sigma> i = Running \<Longrightarrow>
    idem_step R tid k env \<sigma>
      (\<sigma>\<lparr>iserver := store_response R tid k j (iserver \<sigma>), ipc := (ipc \<sigma>)(i := Stored)\<rparr>)"
| fail: "ipc \<sigma> i = Running \<Longrightarrow>
    idem_step R tid k env \<sigma>
      (\<sigma>\<lparr>iserver := release_lock R tid k (iserver \<sigma>), ipc := (ipc \<sigma>)(i := Failed)\<rparr>)"
| unlock: "ipc \<sigma> i = Stored \<Longrightarrow>
    idem_step R tid k env \<sigma>
      (\<sigma>\<lparr>iserver := release_lock R tid k (iserver \<sigma>), ipc := (ipc \<sigma>)(i := Finished)\<rparr>)"
| other: "env (iserver \<sigma>) s' \<Longrightarrow> idem_step R tid k env \<sigma> (\<sigma>\<lparr>iserver := s'\<rparr>)"

definition idem_start :: "'s \<Rightarrow> 's idem" where
  "idem_start s = \<lparr>iserver = s, ipc = (\<lambda>_. Start)\<rparr>"

definition holds_lock :: "idem_pc \<Rightarrow> bool" where
  "holds_lock p \<longleftrightarrow> p = Running \<or> p = Stored"

lemma holds_lock_simps [simp]:
  "holds_lock Running" "holds_lock Stored" "\<not> holds_lock Start" "\<not> holds_lock Checked" "\<not> holds_lock Finished"
  "\<not> holds_lock (Replayed v)" "\<not> holds_lock Rejected" "\<not> holds_lock Failed"
  by (simp_all add: holds_lock_def)

definition lock_inv :: "('s \<Rightarrow> keyspace) \<Rightarrow> uuid \<Rightarrow> string \<Rightarrow> 's idem \<Rightarrow> bool" where
  "lock_inv entry tid k \<sigma> \<longleftrightarrow>
     (\<forall>i. holds_lock (ipc \<sigma> i) \<longrightarrow> entry (iserver \<sigma>) (lock_key tid k) \<noteq> None)
   \<and> (\<forall>i j. holds_lock (ipc \<sigma> i) \<longrightarrow> holds_lock (ipc \<sigma> j) \<longrightarrow> i = j)"

context redis_server
begin

lemma lock_inv_step:
  assumes "idem_step R tid k env \<sigma> \<tau>" "lock_inv entry tid k \<sigma>"
    and "\<And>s s'. env s s' \<Longrightarrow> entry s' (lock_key tid k) = entry s (lock_key tid k)"
  shows "lock_inv entry tid k \<tau>"
  using assms(1)
proof cases
  case (lock i s')
  then have "entry (iserver \<sigma>) (lock_key tid k) = None" "entry s' (lock_key tid k) \<noteq> None"
    using try_acquire_lock_eval(1,2) [of tid k "iserver \<sigma>"] by simp_all
  with assms(2) lock show ?thesis by (auto simp: lock_inv_def)
next
  case (busy i s')
  then have "entry s' = entry (iserver \<sigma>)"
    using try_acquire_lock_eval(1,2) [of tid k "iserver \<sigma>"] by (auto split: if_splits)
  with assms(2) busy show ?thesis by (auto simp: lock_inv_def)
next
  case (finish i j)
  then have "entry (iserver \<sigma>) (lock_key tid k) \<noteq> None" "\<And>j. holds_lock (ipc \<sigma> j) \<Longrightarrow> j = i"
    using assms(2) unfolding lock_inv_def by (metis holds_lock_simps(1))+
  with finish show ?thesis by (auto simp: lock_inv_def store_response_eval split: if_splits)
next
  case (fail i)
  with assms(2) have "\<And>j. holds_lock (ipc \<sigma> j) \<longleftrightarrow> j = i" by (auto simp: lock_inv_def)
  with fail show ?thesis by (auto simp: lock_inv_def)
next
  case (unlock i)
  with assms(2) have "\<And>j. holds_lock (ipc \<sigma> j) \<longleftrightarrow> j = i" by (auto simp: lock_inv_def)
  with unlock show ?thesis by (auto simp: lock_inv_def)
next
  case (other s')
  with assms(2,3) show ?thesis by (auto simp: lock_inv_def)
qed (use assms(2) in \<open>auto simp: lock_inv_def split: if_splits\<close>)

lemma lock_inv_reachable:
  assumes "(idem_step R tid k env)\<^sup>*\<^sup>* (idem_start s) \<sigma>"
    and "\<And>s s'. env s s' \<Longrightarrow> entry s' (lock_key tid k) = entry s (lock_key tid k)"
  shows "lock_inv entry tid k \<sigma>"
  using assms(1)
proof (induction rule: rtranclp_induct)
  case base
  show ?case by (simp add: lock_inv_def idem_start_def)
next
  case (step \<sigma> \<tau>)
  then show ?case using lock_inv_step assms(2) by blast
qed

lemma idem_enter:
  assumes "entry s (lock_key tid k) = None" "entry s (response_key tid k) = None"
  shows "\<exists>s'. (idem_step R tid k env)\<^sup>*\<^sup>* (idem_start s) \<lparr>iserver = s', ipc = (\<lambda>_. Start)(i := Running)\<rparr>"
proof -
  let ?\<sigma> = "\<lparr>iserver = s, ipc = (\<lambda>_. Start)(i := Checked)\<rparr>"
  have "get_cached_response R tid k s = None"
    using assms(2) by (intro get_cached_response_eval) (simp add: string_at_def)
  then have 1: "idem_step R tid k env (idem_start s) ?\<sigma>"
    using idem_step.miss [of "idem_start s" i R tid k env] by (simp add: idem_start_def)
  obtain s1 where "try_acquire_lock R tid k s = (True, s1)"
    using try_acquire_lock_eval(1) [of tid k s] assms(1) by (cases "try_acquire_lock R tid k s") auto
  then have "idem_step R tid k env ?\<sigma> \<lparr>iserver = s1, ipc = (\<lambda>_. Start)(i := Running)\<rparr>"
    using idem_step.lock [of ?\<sigma> i R tid k s1 env] by simp
  with 1 show ?thesis by (meson converse_rtranclp_into_rtranclp rtranclp.rtrancl_refl)
qed

lemma idem_execute:
  assumes "ipc \<sigma> i = Checked" "entry (iserver \<sigma>) (lock_key tid k) = None"
  shows "\<exists>s'. (idem_step R tid k env)\<^sup>*\<^sup>* \<sigma> (\<sigma>\<lparr>iserver := s', ipc := (ipc \<sigma>)(i := Finished)\<rparr>)
       \<and> entry s' (lock_key tid k) = None"
proof -
  obtain s1 where s1: "try_acquire_lock R tid k (iserver \<sigma>) = (True, s1)"
    using try_acquire_lock_eval(1) [of tid k "iserver \<sigma>"] assms(2)
    by (cases "try_acquire_lock R tid k (iserver \<sigma>)") auto
  let ?s2 = "store_response R tid k [] s1"
  let ?\<sigma>1 = "\<sigma>\<lparr>iserver := s1, ipc := (ipc \<sigma>)(i := Running)\<rparr>"
  let ?\<sigma>2 = "\<sigma>\<lparr>iserver := ?s2, ipc := (ipc \<sigma>)(i := Stored)\<rparr>"
  let ?\<sigma>3 = "\<sigma>\<lparr>iserver := release_lock R tid k ?s2, ipc := (ipc \<sigma>)(i := Finished)\<rparr>"
  have 1: "idem_step R tid k env \<sigma> ?\<sigma>1" using assms(1) s1 by (rule idem_step.lock)
  have 2: "idem_step R tid k env ?\<sigma>1 ?\<sigma>2" using idem_step.finish [of ?\<sigma>1 i R tid k env "[]"] by simp
  have 3: "idem_step R tid k env ?\<sigma>2 ?\<sigma>3" using idem_step.unlock [of ?\<sigma>2 i R tid k env] by simp
  from 1 2 3 have "(idem_step R tid k env)\<^sup>*\<^sup>* \<sigma> ?\<sigma>3" by (meson converse_rtranclp_into_rtranclp rtranclp.rtrancl_refl)
  then show ?thesis by (intro exI [of _ "release_lock R tid k ?s2"]) (simp add: release_lock_eval)
qed

end


lemma mem_empty_lock: "mem_entry mem_empty (lock_key t k) = None" by simp


text \<open>
  The lock does not make a key execute once: because the stored response is looked up before
  the lock is taken, and not again after, two requests that both looked before the first one
  finished run one after the other, and both complete, with no lock expired and nothing else
  touching the server.
\<close>

theorem idempotency_double_execution:
  assumes "redis_server R entry now"
    and "entry s (lock_key tid k) = None" "entry s (response_key tid k) = None"
  shows "\<exists>\<sigma>. (idem_step R tid k (\<lambda>_ _. False))\<^sup>*\<^sup>* (idem_start s) \<sigma> \<and> ipc \<sigma> 0 = Finished \<and> ipc \<sigma> 1 = Finished"
proof -
  let ?step = "idem_step R tid k (\<lambda>_ _. False)"
  let ?\<sigma>0 = "(idem_start s)\<lparr>ipc := (\<lambda>_. Start)(0 := Checked)\<rparr>"
  let ?\<sigma>1 = "(idem_start s)\<lparr>ipc := (\<lambda>_. Start)(0 := Checked, 1 := Checked)\<rparr>"
  have g: "get_cached_response R tid k s = None"
    using assms(3) by (intro redis_server.get_cached_response_eval [OF assms(1)]) (simp add: string_at_def)
  have 1: "?step\<^sup>*\<^sup>* (idem_start s) ?\<sigma>0"
    using idem_step.miss [of "idem_start s" 0 R tid k "\<lambda>_ _. False"] g by (simp add: idem_start_def r_into_rtranclp)
  have 2: "?step\<^sup>*\<^sup>* ?\<sigma>0 ?\<sigma>1"
    using idem_step.miss [of ?\<sigma>0 1 R tid k "\<lambda>_ _. False"] g by (simp add: idem_start_def r_into_rtranclp)
  obtain s2 where 3: "?step\<^sup>*\<^sup>* ?\<sigma>1 (?\<sigma>1\<lparr>iserver := s2, ipc := (ipc ?\<sigma>1)(0 := Finished)\<rparr>)"
    and s2: "entry s2 (lock_key tid k) = None"
    using redis_server.idem_execute [OF assms(1), of ?\<sigma>1 0 tid k "\<lambda>_ _. False"] assms(2) by (auto simp: idem_start_def)
  let ?\<sigma>2 = "?\<sigma>1\<lparr>iserver := s2, ipc := (ipc ?\<sigma>1)(0 := Finished)\<rparr>"
  obtain s3 where 4: "?step\<^sup>*\<^sup>* ?\<sigma>2 (?\<sigma>2\<lparr>iserver := s3, ipc := (ipc ?\<sigma>2)(1 := Finished)\<rparr>)"
    using redis_server.idem_execute [OF assms(1), of ?\<sigma>2 1 tid k "\<lambda>_ _. False"] s2 by (auto simp: idem_start_def)
  from 1 2 3 4 have "?step\<^sup>*\<^sup>* (idem_start s) (?\<sigma>2\<lparr>iserver := s3, ipc := (ipc ?\<sigma>2)(1 := Finished)\<rparr>)"
    by (meson rtranclp_trans)
  then show ?thesis by (intro exI conjI, assumption) (simp_all add: idem_start_def)
qed

theorem idempotency_double_execution_witness:
  "\<exists>\<sigma>. (idem_step mem_redis 5 ''k'' (\<lambda>_ _. False))\<^sup>*\<^sup>* (idem_start mem_empty) \<sigma>
      \<and> ipc \<sigma> 0 = Finished \<and> ipc \<sigma> 1 = Finished"
  using idempotency_double_execution [OF mem_server.redis_server_axioms, of mem_empty 5 "''k''"] by simp

end
