(* ===== verification/Json.thy ===== *)
theory Json
  imports Schemas "HOL-Library.List_Lexorder" "HOL-Library.Char_ord" "HOL-Library.Multiset"
begin

text \<open>
  \<open>json.dumps\<close> as the gateway uses it: with the default separators for the events of a stream,
  and with \<open>sort_keys=True\<close> and compact separators for the canonical text behind a cache key.
  Strings are escaped to printable ASCII as with \<open>ensure_ascii\<close>; how a float is printed
  (\<open>float.__repr__\<close>) is the argument \<open>fr\<close>. The lemmas: the printed text is printable ASCII
  without line breaks, an object prints as a text in braces, and sorting the keys makes the text
  independent of the order in which a dict was filled.
\<close>

section \<open>Printing\<close>

definition json_escape :: "char \<Rightarrow> string" where
  "json_escape c =
     (if c = CHR 0x22 then [CHR 0x5C, CHR 0x22]
      else if c = CHR 0x5C then [CHR 0x5C, CHR 0x5C]
      else if c = CHR 0x0A then [CHR 0x5C, CHR ''n'']
      else if c = CHR 0x0D then [CHR 0x5C, CHR ''r'']
      else if c = CHR 0x09 then [CHR 0x5C, CHR ''t'']
      else if c = CHR 0x0C then [CHR 0x5C, CHR ''f'']
      else if c = CHR 0x08 then [CHR 0x5C, CHR ''b'']
      else if 32 \<le> (of_char c :: nat) \<and> (of_char c :: nat) \<le> 126 then [c]
      else CHR 0x5C # ''u'' @ hex_digits 4 (of_char c))"

definition json_str :: "string \<Rightarrow> string" where
  "json_str s = CHR 0x22 # concat (map json_escape s) @ [CHR 0x22]"

fun json_dumps :: "(rat \<Rightarrow> string) \<Rightarrow> string \<Rightarrow> string \<Rightarrow> json \<Rightarrow> string" where
  "json_dumps fr isep ksep JNull = ''null''"
| "json_dumps fr isep ksep (JBool b) = (if b then ''true'' else ''false'')"
| "json_dumps fr isep ksep (JInt i) = int_str i"
| "json_dumps fr isep ksep (JNum x) = fr x"
| "json_dumps fr isep ksep (JStr s) = json_str s"
| "json_dumps fr isep ksep (JList js) = ''['' @ str_join isep (map (json_dumps fr isep ksep) js) @ '']''"
| "json_dumps fr isep ksep (JObj kvs) =
     ''{'' @ str_join isep (map (\<lambda>kv. json_str (fst kv) @ ksep @ json_dumps fr isep ksep (snd kv)) kvs) @ ''}''"

fun json_sort :: "json \<Rightarrow> json" where
  "json_sort (JList js) = JList (map json_sort js)"
| "json_sort (JObj kvs) = JObj (sort_key fst (map (\<lambda>kv. (fst kv, json_sort (snd kv))) kvs))"
| "json_sort j = j"

definition dumps :: "(rat \<Rightarrow> string) \<Rightarrow> json \<Rightarrow> string" where
  "dumps fr = json_dumps fr '', '' '': ''"

definition dumps_canonical :: "(rat \<Rightarrow> string) \<Rightarrow> json \<Rightarrow> string" where
  "dumps_canonical fr j = json_dumps fr '','' '':'' (json_sort j)"

section \<open>The text is printable ASCII\<close>

definition printable :: "char \<Rightarrow> bool" where
  "printable c \<longleftrightarrow> 32 \<le> (of_char c :: nat) \<and> (of_char c :: nat) \<le> 126"

lemma printable_not_newline: "printable c \<Longrightarrow> c \<noteq> CHR 0x0A"
  by (auto simp: printable_def)

lemma hex_char_printable: "d < 16 \<Longrightarrow> printable (hex_char d)"
  by (auto simp: hex_char_def printable_def nth_Cons' numeral_eq_Suc less_Suc_eq)

lemma hex_digits_printable: "list_all printable (hex_digits k n)"
  by (induction k arbitrary: n) (auto simp: hex_char_printable)

lemma digit_char_printable: "d < 10 \<Longrightarrow> printable (digit_char d)"
  by (auto simp: digit_char_def printable_def nth_Cons' numeral_eq_Suc less_Suc_eq)

lemma nat_str_printable: "list_all printable (nat_str n)"
proof (induction n rule: nat_str.induct)
  case (1 n)
  then show ?case by (subst nat_str.simps) (auto simp: digit_char_printable)
qed

lemma int_str_printable: "list_all printable (int_str i)"
  using nat_str_printable by (auto simp: int_str_def printable_def)

lemma json_escape_printable: "list_all printable (json_escape c)"
  using hex_digits_printable [of 4] by (auto simp: json_escape_def printable_def)

lemma json_str_printable: "list_all printable (json_str s)"
proof -
  have "list_all printable (concat (map json_escape s))"
    by (induction s) (auto simp: json_escape_printable)
  then show ?thesis by (auto simp: json_str_def printable_def)
qed

lemma str_join_printable:
  "list_all printable sep \<Longrightarrow> \<forall>x \<in> set xs. list_all printable x \<Longrightarrow> list_all printable (str_join sep xs)"
  by (induction sep xs rule: str_join.induct) auto

lemma json_dumps_printable:
  "\<forall>x. list_all printable (fr x) \<Longrightarrow> list_all printable isep \<Longrightarrow> list_all printable ksep \<Longrightarrow> list_all printable (json_dumps fr isep ksep j)"
proof (induction fr isep ksep j rule: json_dumps.induct)
  case (3 fr isep ksep i)
  show ?case by (simp add: int_str_printable)
next
  case (6 fr isep ksep js)
  then have "list_all printable (str_join isep (map (json_dumps fr isep ksep) js))"
    by (intro str_join_printable) auto
  then show ?case by (simp add: printable_def [of "CHR ''[''"] printable_def [of "CHR '']''"])
next
  case (7 fr isep ksep kvs)
  then have "list_all printable (str_join isep (map (\<lambda>kv. json_str (fst kv) @ ksep @ json_dumps fr isep ksep (snd kv)) kvs))"
    by (intro str_join_printable) (auto simp: json_str_printable)
  then show ?case by (simp add: printable_def [of "CHR ''{''"] printable_def [of "CHR ''}''"])
qed (auto simp: json_str_printable printable_def)

lemma dumps_printable:
  "\<forall>x. list_all printable (fr x) \<Longrightarrow> list_all printable (dumps fr j)"
  unfolding dumps_def by (erule json_dumps_printable) (simp_all add: printable_def)

lemma dumps_object_braces: "\<exists>m. dumps fr (JObj kvs) = CHR ''{'' # m @ [CHR ''}'']"
  by (simp add: dumps_def)

section \<open>Sorted keys\<close>

lemma sort_key_permuted:
  assumes "mset kvs = mset kvs'" "distinct (map fst kvs)"
  shows "sort_key fst kvs = sort_key fst kvs'"
proof -
  have "inj_on fst (set kvs)" using assms(2) by (simp add: distinct_map)
  then show ?thesis using assms(1) by (intro sort_key_inj_key_eq) auto
qed

lemma dumps_canonical_permuted:
  assumes "mset kvs = mset kvs'" "distinct (map fst kvs)"
  shows "dumps_canonical fr (JObj kvs) = dumps_canonical fr (JObj kvs')"
proof -
  let ?f = "\<lambda>kv :: string \<times> json. (fst kv, json_sort (snd kv))"
  have "mset (map ?f kvs) = mset (map ?f kvs')" using assms(1) by (simp add: mset_map)
  moreover have "distinct (map fst (map ?f kvs))" using assms(2) by (simp add: comp_def)
  ultimately have "sort_key fst (map ?f kvs) = sort_key fst (map ?f kvs')" by (rule sort_key_permuted)
  then show ?thesis by (simp add: dumps_canonical_def)
qed

end
