(* ===== verification/Cache.thy ===== *)
theory Cache
  imports Redis_Api Json
begin

text \<open>
  \<^verbatim>\<open>services/cache.py\<close>. pydantic's dumping and validation, SHA-256 and the printing of floats are
  outside the repository; \<open>codec\<close> is the record of the functions the gateway calls:
  \<open>model_dump\<close> is the request as a dict without its \<open>stream\<close> field and its absent fields,
  \<open>model_dump_json\<close> and \<open>model_validate_json\<close> turn a response into its JSON text and back.
\<close>

record codec =
  sha256_hex :: "string \<Rightarrow> string"
  float_repr :: "rat \<Rightarrow> string"
  model_dump :: "ChatCompletionRequest \<Rightarrow> json"
  model_dump_json :: "ChatCompletionResponse \<Rightarrow> string"
  model_validate_json :: "string \<Rightarrow> ChatCompletionResponse option"

definition compute_cache_key :: "codec \<Rightarrow> uuid \<Rightarrow> ChatCompletionRequest \<Rightarrow> string" where
  "compute_cache_key L tid body =
     (let payload = model_dump L body;
          canonical = dumps_canonical (float_repr L) payload;
          digest = sha256_hex L canonical
      in ''cache:completion:'' @ uuid_str tid @ '':'' @ digest)"

text \<open>\<open>Inl\<close>: the stored text is not a valid response.\<close>

definition get_cached_completion ::
  "codec \<Rightarrow> 's redis_api \<Rightarrow> string \<Rightarrow> 's \<Rightarrow> (string, ChatCompletionResponse option) result" where
  "get_cached_completion L R key s =
     (case rd_get R key s of
        None \<Rightarrow> Inr None
      | Some (Text raw) \<Rightarrow>
          (case model_validate_json L raw of None \<Rightarrow> Inl ''ValidationError'' | Some r \<Rightarrow> Inr (Some r))
      | Some _ \<Rightarrow> Inl ''ValidationError'')"

definition store_cached_completion ::
  "codec \<Rightarrow> 's redis_api \<Rightarrow> string \<Rightarrow> ChatCompletionResponse \<Rightarrow> int \<Rightarrow> 's \<Rightarrow> 's" where
  "store_cached_completion L R key response ttl_seconds s =
     rd_set_ex R key (Text (model_dump_json L response)) ttl_seconds s"

section \<open>Keys\<close>

lemma cache_key_tenant: "compute_cache_key L t b = compute_cache_key L t' b' \<Longrightarrow> t = t'"
  by (simp add: compute_cache_key_def Let_def uuid_str_append_inj)

lemma cache_key_digest:
  "compute_cache_key L t b = compute_cache_key L t b' \<longleftrightarrow>
   sha256_hex L (dumps_canonical (float_repr L) (model_dump L b))
     = sha256_hex L (dumps_canonical (float_repr L) (model_dump L b'))"
  by (simp add: compute_cache_key_def Let_def)

section \<open>Effects\<close>

context redis_server
begin

lemma store_cached_completion_eval:
  "0 < ttl \<Longrightarrow> entry (store_cached_completion L R key r ttl s) =
     (entry s)(key \<mapsto> (Text (model_dump_json L r), Some (now s + of_int ttl)))"
  "now (store_cached_completion L R key r ttl s) = now s"
  by (simp_all add: store_cached_completion_def redis_laws)

lemma get_cached_completion_miss:
  "entry s key = None \<Longrightarrow> get_cached_completion L R key s = Inr None"
  using get_law [of s key None] by (simp add: get_cached_completion_def string_at_def)

lemma get_cached_completion_hit:
  "entry s key = Some (Text raw, d) \<Longrightarrow> model_validate_json L raw = Some r \<Longrightarrow>
   get_cached_completion L R key s = Inr (Some r)"
  using get_law [of s key "Some (Text raw)"] by (simp add: get_cached_completion_def string_at_def)

end

text \<open>
  The cache is scoped by tenant and by content: whatever the hash function, two tenants never
  share a key; within a tenant, requests that differ only in \<open>stream\<close> or in the order in which
  their fields were given have one key; and a response stored under a key is what the same
  tenant's lookup returns until its time to live has passed, while no other tenant's lookup ever
  reaches it.
\<close>

theorem cache_scoped_by_tenant:
  fixes L :: codec and R :: "'s redis_api" and s :: 's and t t' :: uuid and b b' :: ChatCompletionRequest
    and r :: ChatCompletionResponse and ttl :: int
  assumes "redis_server R entry now" "0 < ttl"
    and "model_validate_json L (model_dump_json L r) = Some r"
    and "model_dump L b' = JObj kvs'" "model_dump L b = JObj kvs" "mset kvs' = mset kvs" "distinct (map fst kvs)"
    and "t' \<noteq> t"
  defines "s' \<equiv> store_cached_completion L R (compute_cache_key L t b) r ttl s"
  shows "get_cached_completion L R (compute_cache_key L t b') s' = Inr (Some r)
       \<and> deadline_at (entry s') (compute_cache_key L t b) = Some (now s + of_int ttl)
       \<and> (\<forall>b2. compute_cache_key L t' b2 \<noteq> compute_cache_key L t b
            \<and> entry s' (compute_cache_key L t' b2) = entry s (compute_cache_key L t' b2))"
proof -
  have k: "compute_cache_key L t b' = compute_cache_key L t b"
    using dumps_canonical_permuted [OF assms(6) [symmetric] assms(7), of "float_repr L"] assms(4,5)
    by (simp add: compute_cache_key_def)
  have e: "entry s' = (entry s)(compute_cache_key L t b \<mapsto> (Text (model_dump_json L r), Some (now s + of_int ttl)))"
    unfolding s'_def by (rule redis_server.store_cached_completion_eval(1) [OF assms(1,2)])
  have "compute_cache_key L t' b2 \<noteq> compute_cache_key L t b" for b2 using cache_key_tenant assms(8) by blast
  then show ?thesis
    using redis_server.get_cached_completion_hit [OF assms(1) _ assms(3)] by (simp add: k e deadline_at_def)
qed

definition demo_response :: ChatCompletionResponse where
  "demo_response = \<lparr>resp_id = ''chatcmpl-1'', resp_object = ''chat.completion'', resp_created = 0,
     resp_model = ''gpt-4o-mini'', choices = [], usage = None, resp_extra = []\<rparr>"

definition demo_codec :: codec where
  "demo_codec = \<lparr>sha256_hex = (\<lambda>s. s), float_repr = (\<lambda>_. ''0.5''),
     model_dump = (\<lambda>b. JObj [(''model'', JStr (model b)), (''messages'', JInt (int (length (messages b))))]),
     model_dump_json = (\<lambda>r. resp_id r), model_validate_json = (\<lambda>s. Some (demo_response\<lparr>resp_id := s\<rparr>))\<rparr>"

theorem cache_scoped_by_tenant_witness:
  "let b = \<lparr>model = ''gpt-4o'', messages = [], stream = False, req_extra = []\<rparr>;
       s = store_cached_completion demo_codec mem_redis (compute_cache_key demo_codec 7 b) demo_response 300 mem_empty
   in get_cached_completion demo_codec mem_redis (compute_cache_key demo_codec 7 (b\<lparr>stream := True\<rparr>)) s
        = Inr (Some demo_response)
      \<and> mem_entry s (compute_cache_key demo_codec 8 b) = None"
proof -
  let ?b = "\<lparr>model = ''gpt-4o'', messages = [], stream = False, req_extra = []\<rparr>"
  let ?kvs = "[(''model'', JStr ''gpt-4o''), (''messages'', JInt 0)]"
  have h: "(0::int) < 300" "model_validate_json demo_codec (model_dump_json demo_codec demo_response) = Some demo_response"
    "model_dump demo_codec (?b\<lparr>stream := True\<rparr>) = JObj ?kvs" "model_dump demo_codec ?b = JObj ?kvs"
    "mset ?kvs = mset ?kvs" "distinct (map fst ?kvs)" "(8 :: uuid) \<noteq> 7"
    by (simp_all add: demo_codec_def demo_response_def)
  show ?thesis
    using cache_scoped_by_tenant [OF mem_server.redis_server_axioms h, of mem_empty] unfolding Let_def by simp
qed

end
