(* ===== verification/Pii.thy ===== *)
theory Pii
  imports Json
begin

text \<open>
  \<^verbatim>\<open>detectors/pii.py\<close>. Presidio's analyzer and anonymizer are outside the repository: \<open>PiiRedactor\<close>
  is the record of the two functions, of which the gateway reads a finding's entity type and
  hands the rest back to the anonymizer.
\<close>

record Finding =
  entity_type :: string
  f_start :: int
  f_end :: int

record PiiRedactor =
  analyze :: "string \<Rightarrow> Finding list"
  anonymize :: "string \<Rightarrow> Finding list \<Rightarrow> string"

record PiiRedactionResult =
  redacted_text :: string
  entity_types :: "string list"

definition redact :: "PiiRedactor \<Rightarrow> string \<Rightarrow> PiiRedactionResult" where
  "redact P t =
     (if t = [] then \<lparr>redacted_text = t, entity_types = []\<rparr>
      else
        let findings = analyze P t in
        if findings = [] then \<lparr>redacted_text = t, entity_types = []\<rparr>
        else
          let anonymized = anonymize P t findings;
              types = sorted_list_of_set (set (map entity_type findings))
          in \<lparr>redacted_text = anonymized, entity_types = types\<rparr>)"

text \<open>The loop over the messages, with the list built so far and the set of entity types.\<close>

fun redact_loop :: "PiiRedactor \<Rightarrow> ChatMessage list \<Rightarrow> ChatMessage list \<Rightarrow> string set
    \<Rightarrow> ChatMessage list \<times> string set" where
  "redact_loop P [] redacted types = (redacted, types)"
| "redact_loop P (message # rest) redacted types =
     (case content message of
        CText t \<Rightarrow>
          let result = redact P t in
          if entity_types result \<noteq> []
          then redact_loop P rest (redacted @ [message\<lparr>content := CText (redacted_text result)\<rparr>])
                 (types \<union> set (entity_types result))
          else redact_loop P rest (redacted @ [message]) types
      | _ \<Rightarrow> redact_loop P rest (redacted @ [message]) types)"

definition redact_messages :: "PiiRedactor \<Rightarrow> ChatMessage list \<Rightarrow> ChatMessage list \<times> string list" where
  "redact_messages P msgs =
     (let (redacted, types) = redact_loop P msgs [] {} in (redacted, sorted_list_of_set types))"

section \<open>What redaction does\<close>

definition redact_message :: "PiiRedactor \<Rightarrow> ChatMessage \<Rightarrow> ChatMessage" where
  "redact_message P m =
     (case content m of CText t \<Rightarrow> m\<lparr>content := CText (redacted_text (redact P t))\<rparr> | _ \<Rightarrow> m)"

definition message_types :: "PiiRedactor \<Rightarrow> ChatMessage \<Rightarrow> string set" where
  "message_types P m = (case content m of CText t \<Rightarrow> set (entity_types (redact P t)) | _ \<Rightarrow> {})"

lemma redact_types: "set (entity_types (redact P t)) = (if t = [] then {} else entity_type ` set (analyze P t))"
  by (simp add: redact_def Let_def)

lemma redact_clean: "entity_types (redact P t) = [] \<Longrightarrow> redacted_text (redact P t) = t"
  by (auto simp: redact_def Let_def split: if_splits)

lemma redact_message_clean:
  "content m = CText t \<Longrightarrow> entity_types (redact P t) = [] \<Longrightarrow> redact_message P m = m"
  by (simp add: redact_message_def redact_clean)

lemma redact_loop_eq:
  "redact_loop P msgs acc types =
     (acc @ map (redact_message P) msgs, types \<union> (\<Union>m \<in> set msgs. message_types P m))"
proof (induction P msgs acc types rule: redact_loop.induct)
  case (2 P m rest acc types)
  show ?case
  proof (cases "content m")
    case (CText t)
    show ?thesis
    proof (cases "entity_types (redact P t) = []")
      case True
      then show ?thesis
        using 2(2) [OF CText refl] CText
        by (simp add: redact_message_clean [OF CText True]) (simp add: message_types_def)
    next
      case False
      then show ?thesis
        using 2(1) [OF CText refl False] CText by (simp add: redact_message_def message_types_def Un_assoc Let_def)
    qed
  qed (use 2 in \<open>simp_all add: redact_message_def message_types_def\<close>)
qed simp

lemma redact_messages_eq:
  "redact_messages P msgs =
     (map (redact_message P) msgs, sorted_list_of_set (\<Union>m \<in> set msgs. message_types P m))"
  by (simp add: redact_messages_def redact_loop_eq)

lemma finite_message_types: "finite (\<Union>m \<in> set msgs. message_types P m)"
  by (auto simp: message_types_def split: content.splits)

lemma redact_message_role [simp]: "role (redact_message P m) = role m"
  by (simp add: redact_message_def split: content.split)

text \<open>
  C33. Redaction touches exactly the text: the redacted conversation has the same messages in the
  same order with the same roles and extra fields; non-text content is passed through; each text
  becomes its redaction; the reported entity types are, sorted and without repetition, those
  found in some text message, and when none is found the conversation is unchanged. When the
  anonymizer leaves nothing the analyzer still recognises, redacting again changes nothing and
  reports nothing.
\<close>

theorem redact_messages_spec:
  fixes P :: PiiRedactor and msgs :: "ChatMessage list"
  defines "out \<equiv> redact_messages P msgs"
  shows "map role (fst out) = map role msgs \<and> map msg_extra (fst out) = map msg_extra msgs
       \<and> (\<forall>i < length msgs. content (fst out ! i) =
            (case content (msgs ! i) of CText t \<Rightarrow> CText (redacted_text (redact P t)) | c \<Rightarrow> c))
       \<and> sorted_wrt (<) (snd out)
       \<and> set (snd out) = (\<Union>t \<in> {t. t \<noteq> [] \<and> (\<exists>m \<in> set msgs. content m = CText t)}. entity_type ` set (analyze P t))
       \<and> (snd out = [] \<longrightarrow> fst out = msgs)
       \<and> ((\<forall>t. analyze P t \<noteq> [] \<longrightarrow> analyze P (anonymize P t (analyze P t)) = [])
            \<longrightarrow> redact_messages P (fst out) = (fst out, []))"
proof -
  have out: "fst out = map (redact_message P) msgs" "snd out = sorted_list_of_set (\<Union>m \<in> set msgs. message_types P m)"
    by (simp_all add: out_def redact_messages_eq)
  have types: "set (snd out) = (\<Union>m \<in> set msgs. message_types P m)"
    by (simp add: out finite_message_types)
  have id: "redact_message P m = m" if "message_types P m = {}" for m
    using that redact_message_clean by (cases "content m") (auto simp: message_types_def redact_message_def)
  have same: "fst out = msgs" if "snd out = []"
    using types that id by (auto simp: out(1) map_idI)
  have "redact_messages P (fst out) = (fst out, [])"
    if clean: "\<forall>t. analyze P t \<noteq> [] \<longrightarrow> analyze P (anonymize P t (analyze P t)) = []"
  proof -
    have "entity_types (redact P (redacted_text (redact P t))) = []" for t
      using clean by (auto simp: redact_def Let_def)
    then have "message_types P (redact_message P m) = {}" for m
      by (auto simp: message_types_def redact_message_def split: content.splits)
    then show ?thesis by (simp add: redact_messages_eq out(1) id comp_def)
  qed
  moreover have "set (snd out) = (\<Union>t \<in> {t. t \<noteq> [] \<and> (\<exists>m \<in> set msgs. content m = CText t)}. entity_type ` set (analyze P t))"
    unfolding types by (auto simp: message_types_def redact_types split: content.splits if_splits) blast
  moreover have "map msg_extra (fst out) = map msg_extra msgs"
    by (simp add: out(1) redact_message_def split: content.split)
  moreover have "\<forall>i < length msgs. content (fst out ! i) =
      (case content (msgs ! i) of CText t \<Rightarrow> CText (redacted_text (redact P t)) | c \<Rightarrow> c)"
    by (simp add: out(1) redact_message_def split: content.split)
  ultimately show ?thesis using same by (simp add: out(2)) (simp add: out(1))
qed

definition demo_redactor :: PiiRedactor where
  "demo_redactor = \<lparr>analyze = (\<lambda>t. if t = ''a@b.c'' then [\<lparr>entity_type = ''EMAIL_ADDRESS'', f_start = 0, f_end = 5\<rparr>] else []),
     anonymize = (\<lambda>_ _. ''<EMAIL_ADDRESS>'')\<rparr>"

definition user_message :: "string \<Rightarrow> ChatMessage" where
  "user_message t = \<lparr>role = ''user'', content = CText t, msg_extra = []\<rparr>"

theorem redact_messages_spec_witness:
  "redact_messages demo_redactor (fst (redact_messages demo_redactor [user_message ''a@b.c'', user_message ''hello'']))
     = (fst (redact_messages demo_redactor [user_message ''a@b.c'', user_message ''hello'']), [])"
  using redact_messages_spec [of demo_redactor "[user_message ''a@b.c'', user_message ''hello'']"]
  by (simp add: demo_redactor_def)

end
