(* ===== verification/Regex.thy ===== *)
theory Regex
  imports Aegis_Prelude
begin

text \<open>
  The part of Python's \<open>re\<close> that the injection heuristics use: case-insensitive literals,
  alternatives, an optional group, \<open>.*\<close> (which stops at a line break) and \<open>\b\<close>, searched for
  anywhere in a text. A position in the text is the character before it and the rest after it.
  \<open>rmatch\<close> lists the positions where a match can end; \<open>search\<close> is equivalent to the existence of
  a matching piece of the text in the declarative sense of \<open>rlang\<close>.
\<close>

datatype regex = Eps | Chr char | Seq regex regex | Alt regex regex | Opt regex | DotStar | WordB

definition lit :: "string \<Rightarrow> regex" where
  "lit w = foldr (\<lambda>c r. Seq (Chr c) r) w Eps"

definition seqs :: "regex list \<Rightarrow> regex" where
  "seqs rs = foldr Seq rs Eps"

fun alts :: "string list \<Rightarrow> regex" where
  "alts [] = Eps"
| "alts [w] = lit w"
| "alts (w # v # ws) = Alt (lit w) (alts (v # ws))"

type_synonym pos = "char option \<times> string"

text \<open>A word character of the Latin-1 range: letters, digits, other numerics and the underscore.\<close>

definition is_word :: "char \<Rightarrow> bool" where
  "is_word c \<longleftrightarrow>
     (let n = (of_char c :: nat) in
      (48 \<le> n \<and> n \<le> 57) \<or> (65 \<le> n \<and> n \<le> 90) \<or> n = 95 \<or> (97 \<le> n \<and> n \<le> 122)
      \<or> n \<in> {170, 178, 179, 181, 185, 186, 188, 189, 190} \<or> (192 \<le> n \<and> n \<noteq> 215 \<and> n \<noteq> 247))"

definition same_letter :: "char \<Rightarrow> char \<Rightarrow> bool" where
  "same_letter c x \<longleftrightarrow> char_lower c = char_lower x"

fun word_before :: "char option \<Rightarrow> bool" where
  "word_before None = False"
| "word_before (Some c) = is_word c"

fun word_after :: "string \<Rightarrow> bool" where
  "word_after [] = False"
| "word_after (c # _) = is_word c"

fun dot_star :: "char option \<Rightarrow> string \<Rightarrow> pos list" where
  "dot_star p [] = [(p, [])]"
| "dot_star p (x # xs) = (if x = CHR 0x0A then [] else dot_star (Some x) xs) @ [(p, x # xs)]"

fun rmatch :: "regex \<Rightarrow> pos \<Rightarrow> pos list" where
  "rmatch Eps q = [q]"
| "rmatch (Chr c) q = (case snd q of [] \<Rightarrow> [] | x # xs \<Rightarrow> if same_letter c x then [(Some x, xs)] else [])"
| "rmatch (Seq a b) q = concat (map (rmatch b) (rmatch a q))"
| "rmatch (Alt a b) q = rmatch a q @ rmatch b q"
| "rmatch (Opt a) q = rmatch a q @ [q]"
| "rmatch DotStar q = dot_star (fst q) (snd q)"
| "rmatch WordB q = (if word_before (fst q) \<noteq> word_after (snd q) then [q] else [])"

fun search_from :: "regex \<Rightarrow> char option \<Rightarrow> string \<Rightarrow> bool" where
  "search_from r p [] = (rmatch r (p, []) \<noteq> [])"
| "search_from r p (x # xs) = (rmatch r (p, x # xs) \<noteq> [] \<or> search_from r (Some x) xs)"

definition search :: "regex \<Rightarrow> string \<Rightarrow> bool" where
  "search r t = search_from r None t"

section \<open>What a search finds\<close>

definition before_end :: "char option \<Rightarrow> string \<Rightarrow> char option" where
  "before_end p w = (if w = [] then p else Some (last w))"

lemma before_end_simps [simp]:
  "before_end p [] = p" "before_end p (x # w) = before_end (Some x) w"
  "before_end p (v @ w) = before_end (before_end p v) w"
  by (auto simp: before_end_def)

text \<open>\<open>rlang r p w s\<close>: \<open>r\<close> matches the piece \<open>w\<close> that has \<open>p\<close> before it and \<open>s\<close> after it.\<close>

fun rlang :: "regex \<Rightarrow> char option \<Rightarrow> string \<Rightarrow> string \<Rightarrow> bool" where
  "rlang Eps p w s = (w = [])"
| "rlang (Chr c) p w s = (\<exists>x. w = [x] \<and> same_letter c x)"
| "rlang (Seq a b) p w s = (\<exists>u v. w = u @ v \<and> rlang a p u (v @ s) \<and> rlang b (before_end p u) v s)"
| "rlang (Alt a b) p w s = (rlang a p w s \<or> rlang b p w s)"
| "rlang (Opt a) p w s = (rlang a p w s \<or> w = [])"
| "rlang DotStar p w s = (CHR 0x0A \<notin> set w)"
| "rlang WordB p w s = (w = [] \<and> word_before p \<noteq> word_after s)"

lemma dot_star_iff:
  "q \<in> set (dot_star p t) \<longleftrightarrow> (\<exists>w s. t = w @ s \<and> q = (before_end p w, s) \<and> CHR 0x0A \<notin> set w)"
proof (induction p t rule: dot_star.induct)
  case (2 p x xs)
  show ?case
  proof
    assume "q \<in> set (dot_star p (x # xs))"
    then consider "q = (p, x # xs)" | "x \<noteq> CHR 0x0A" "q \<in> set (dot_star (Some x) xs)" by (auto split: if_splits)
    then show "\<exists>w s. x # xs = w @ s \<and> q = (before_end p w, s) \<and> CHR 0x0A \<notin> set w"
    proof cases
      case 1
      then show ?thesis by (intro exI [of _ "[]"] exI [of _ "x # xs"]) auto
    next
      case 2
      then obtain w s where "xs = w @ s" "q = (before_end (Some x) w, s)" "CHR 0x0A \<notin> set w"
        using "2.IH" by blast
      with 2 show ?thesis by (intro exI [of _ "x # w"] exI [of _ s]) auto
    qed
  next
    assume "\<exists>w s. x # xs = w @ s \<and> q = (before_end p w, s) \<and> CHR 0x0A \<notin> set w"
    then obtain w s where w: "x # xs = w @ s" "q = (before_end p w, s)" "CHR 0x0A \<notin> set w" by blast
    show "q \<in> set (dot_star p (x # xs))"
    proof (cases w)
      case Nil
      then have "q = (p, x # xs)" using w by simp
      then show ?thesis by simp
    next
      case (Cons y v)
      with w "2.IH" show ?thesis by auto
    qed
  qed
qed auto

lemma rmatch_iff:
  "q \<in> set (rmatch r (p, t)) \<longleftrightarrow> (\<exists>w s. t = w @ s \<and> q = (before_end p w, s) \<and> rlang r p w s)"
proof (induction r arbitrary: p t q)
  case (Chr c)
  show ?case by (auto split: list.splits)
next
  case (Seq a b)
  have "q \<in> set (rmatch (Seq a b) (p, t)) \<longleftrightarrow> (\<exists>m \<in> set (rmatch a (p, t)). q \<in> set (rmatch b m))" by simp
  also have "\<dots> \<longleftrightarrow> (\<exists>u t'. t = u @ t' \<and> rlang a p u t' \<and> q \<in> set (rmatch b (before_end p u, t')))"
    unfolding Bex_def by (auto simp: Seq.IH(1))
  also have "\<dots> \<longleftrightarrow> (\<exists>u v s. t = u @ v @ s \<and> rlang a p u (v @ s) \<and> q = (before_end (before_end p u) v, s)
      \<and> rlang b (before_end p u) v s)"
    by (auto simp: Seq.IH(2))
  also have "\<dots> \<longleftrightarrow> (\<exists>w s. t = w @ s \<and> q = (before_end p w, s) \<and> rlang (Seq a b) p w s)"
    by (auto 0 4)
  finally show ?case .
next
  case DotStar
  show ?case by (simp add: dot_star_iff)
qed auto

lemma search_from_iff:
  "search_from r p t \<longleftrightarrow> (\<exists>a w s. t = a @ w @ s \<and> rlang r (before_end p a) w s)"
proof (induction t arbitrary: p)
  case Nil
  have "rmatch r (p, []) \<noteq> [] \<longleftrightarrow> (\<exists>q. q \<in> set (rmatch r (p, [])))" by (metis ex_in_conv set_empty)
  also have "\<dots> \<longleftrightarrow> rlang r p [] []" by (simp only: rmatch_iff) auto
  finally show ?case by simp
next
  case (Cons x xs)
  note IH = Cons.IH
  have here: "rmatch r (p, x # xs) \<noteq> [] \<longleftrightarrow> (\<exists>w s. x # xs = w @ s \<and> rlang r p w s)"
    using rmatch_iff [of _ r p "x # xs"] by (metis list.set_intros(1) empty_iff empty_set neq_Nil_conv)
  show ?case
  proof
    assume "search_from r p (x # xs)"
    then consider "\<exists>w s. x # xs = w @ s \<and> rlang r p w s" | "\<exists>a w s. xs = a @ w @ s \<and> rlang r (before_end (Some x) a) w s"
      unfolding search_from.simps here Cons.IH by blast
    then show "\<exists>a w s. x # xs = a @ w @ s \<and> rlang r (before_end p a) w s"
      by cases (metis append_Nil before_end_simps(1), metis append_Cons before_end_simps(2))
  next
    assume "\<exists>a w s. x # xs = a @ w @ s \<and> rlang r (before_end p a) w s"
    then obtain a w s where a: "x # xs = a @ w @ s" "rlang r (before_end p a) w s" by blast
    show "search_from r p (x # xs)"
    proof (cases a)
      case Nil
      with a show ?thesis unfolding search_from.simps here by auto
    next
      case (Cons y b)
      with a show ?thesis unfolding search_from.simps IH by auto
    qed
  qed
qed

lemma search_iff: "search r t \<longleftrightarrow> (\<exists>a w s. t = a @ w @ s \<and> rlang r (before_end None a) w s)"
  by (simp add: search_def search_from_iff)

lemma rlang_lit: "rlang (lit v) p w s \<longleftrightarrow> str_lower w = str_lower v"
proof (induction v arbitrary: p w)
  case (Cons c v)
  have "rlang (lit (c # v)) p w s \<longleftrightarrow> (\<exists>x u. w = x # u \<and> same_letter c x \<and> str_lower u = str_lower v)"
    using Cons.IH unfolding lit_def by (simp add: ex_simps) (metis append_Cons append_Nil)
  then show ?case by (auto simp: str_lower_def same_letter_def)
qed (auto simp: lit_def str_lower_def)

lemma rlang_alts: "ws \<noteq> [] \<Longrightarrow> rlang (alts ws) p w s \<longleftrightarrow> (\<exists>v \<in> set ws. str_lower w = str_lower v)"
  by (induction ws rule: alts.induct) (auto simp: rlang_lit)

end
