(* ===== verification/Embeddings.thy ===== *)
theory Embeddings
  imports Provider_Errors
begin

text \<open>
  \<^verbatim>\<open>services/embeddings.py\<close>. The HTTP exchange with the embeddings endpoint is an argument: what one
  post of some texts with a key yields, either an exception or a status with the items of the
  body's \<open>data\<close> field (\<open>None\<close> when the body is not such an object).
\<close>

definition EMBEDDING_MODEL :: string where
  "EMBEDDING_MODEL = ''text-embedding-3-small''"

datatype embed_outcome = Embed_raised exn | Embed_response int "(int \<times> real list) list option"

type_synonym embed_client = "string list \<Rightarrow> string \<Rightarrow> embed_outcome"

definition EmbeddingUnavailableError :: exn where
  "EmbeddingUnavailableError = Other_exn ''EmbeddingUnavailableError''"

definition embed_texts :: "embed_client \<Rightarrow> string list \<Rightarrow> string \<Rightarrow> (exn, real list list) result" where
  "embed_texts client texts api_key =
     (if api_key = [] then Inl EmbeddingUnavailableError
      else case client texts api_key of
        Embed_raised e \<Rightarrow> Inl e
      | Embed_response st dat \<Rightarrow>
          if \<not> (200 \<le> st \<and> st < 300) then Inl (Other_exn ''HTTPStatusError'')
          else (case dat of
                  None \<Rightarrow> Inl (Other_exn ''JSONDecodeError'')
                | Some items \<Rightarrow> Inr (map snd (sort_key fst items))))"

definition dot :: "real list \<Rightarrow> real list \<Rightarrow> real" where
  "dot a b = sum_list (map2 (*) a b)"

definition norm_of :: "real list \<Rightarrow> real" where
  "norm_of a = sqrt (dot a a)"

text \<open>\<open>zip(..., strict=True)\<close> raises when the lengths differ.\<close>

definition cosine_similarity :: "real list \<Rightarrow> real list \<Rightarrow> (exn, real) result" where
  "cosine_similarity a b =
     (if length a \<noteq> length b then Inl (Other_exn ''ValueError'')
      else if norm_of a = 0 \<or> norm_of b = 0 then Inr 0
      else Inr (dot a b / (norm_of a * norm_of b)))"

section \<open>Similarity is bounded\<close>

lemma dot_nonneg: "0 \<le> dot a a"
  unfolding dot_def by (induction a) auto

lemma norm_of_nonneg: "0 \<le> norm_of a"
  by (simp add: norm_of_def dot_nonneg)

lemma dot_Cons [simp]: "dot (x # a) (y # b) = x * y + dot a b"
  by (simp add: dot_def)

lemma dot_comb:
  "length a = length b \<Longrightarrow>
   dot (map2 (\<lambda>x y. u * x - v * y) a b) (map2 (\<lambda>x y. u * x - v * y) a b)
     = u\<^sup>2 * dot a a - 2 * u * v * dot a b + v\<^sup>2 * dot b b"
proof (induction a b rule: list_induct2)
  case Nil
  then show ?case by (simp add: dot_def)
next
  case (Cons x a y b)
  then show ?case by (simp add: algebra_simps power2_eq_square)
qed

lemma cauchy_schwarz:
  assumes "length a = length b" shows "(dot a b)\<^sup>2 \<le> dot a a * dot b b"
proof (cases "dot b b = 0")
  case True
  have z: "b = map (\<lambda>_. 0) b"
    using True
  proof (induction b)
    case (Cons y b)
    then have "y * y = 0" "dot b b = 0" using dot_nonneg [of b] zero_le_square [of y] by (auto simp: add_nonneg_eq_0_iff)
    with Cons.IH show ?case by simp
  qed simp
  have "dot a b = 0" using assms z
  proof (induction a b rule: list_induct2)
    case Nil
    show ?case by (simp add: dot_def)
  qed simp
  then show ?thesis using True by simp
next
  case False
  then have pos: "0 < dot b b" using dot_nonneg [of b] by simp
  have "0 \<le> (dot b b)\<^sup>2 * dot a a - 2 * dot b b * dot a b * dot a b + (dot a b)\<^sup>2 * dot b b"
    using dot_nonneg dot_comb [OF assms, of "dot b b" "dot a b"] by metis
  then have "0 \<le> dot b b * (dot a a * dot b b - (dot a b)\<^sup>2)" by (simp add: algebra_simps power2_eq_square)
  then show ?thesis using pos by (simp add: zero_le_mult_iff)
qed

lemma abs_dot_le: "length a = length b \<Longrightarrow> \<bar>dot a b\<bar> \<le> norm_of a * norm_of b"
proof -
  assume "length a = length b"
  then have "sqrt ((dot a b)\<^sup>2) \<le> sqrt (dot a a * dot b b)" using cauchy_schwarz real_sqrt_le_mono by blast
  then show ?thesis by (simp add: norm_of_def real_sqrt_mult)
qed

lemma cosine_similarity_bounds:
  assumes "cosine_similarity a b = Inr c" shows "\<bar>c\<bar> \<le> 1"
proof (cases "norm_of a = 0 \<or> norm_of b = 0")
  case True
  with assms show ?thesis by (simp add: cosine_similarity_def split: if_splits)
next
  case False
  then have "0 < norm_of a * norm_of b" using norm_of_nonneg [of a] norm_of_nonneg [of b] by simp
  moreover have "length a = length b" "c = dot a b / (norm_of a * norm_of b)"
    using assms False by (auto simp: cosine_similarity_def split: if_splits)
  ultimately show ?thesis using abs_dot_le [of a b] by (simp add: abs_divide abs_of_pos)
qed

lemma cosine_similarity_total: "length a = length b \<Longrightarrow> \<exists>c. cosine_similarity a b = Inr c"
  by (simp add: cosine_similarity_def)

section \<open>Vectors come back in the order of the texts\<close>

lemma sort_key_indexed:
  assumes "fst ` set items = int ` {0..<length items}" "i < length items" "(int i, v) \<in> set items"
  shows "map snd (sort_key fst items) ! i = v"
proof -
  let ?s = "sort_key fst items"
  have card: "card (fst ` set items) = length items" using assms(1) by (simp add: card_image)
  then have dist: "distinct (map fst items)"
    using card_distinct [of "map fst items"] by simp
  have sm: "sorted (map fst ?s)" by simp
  have dm: "distinct (map fst ?s)" using dist by (simp add: distinct_map)
  have "set (map fst ?s) = set (map int [0..<length items])" using assms(1) by auto
  moreover have "sorted (map int [0..<length items])" "distinct (map int [0..<length items])"
    by (simp_all add: sorted_map distinct_map)
  ultimately have m: "map fst ?s = map int [0..<length items]"
    using sorted_distinct_set_unique [OF sm dm] by blast
  have "fst (?s ! i) = int i" using m assms(2) by (metis add_0 length_map length_sort nth_map nth_upt length_upt minus_nat.diff_0)
  moreover have "?s ! i \<in> set items" using assms(2) by (metis length_sort nth_mem set_sort)
  ultimately have "?s ! i = (int i, v)" using dist assms(3) by (metis eq_key_imp_eq_value prod.collapse)
  then show ?thesis using assms(2) by simp
qed

text \<open>
  Embeddings come back in the order of the texts whatever the order of the response: when a
  successful response numbers its items \<open>0, \<dots>, n - 1\<close>, the \<open>i\<close>-th returned vector is the one
  the response gives the index \<open>i\<close>.
\<close>

theorem embed_texts_order:
  assumes "api_key \<noteq> []" "client texts api_key = Embed_response st (Some items)" "200 \<le> st" "st < 300"
    and "fst ` set items = int ` {0..<length items}" "i < length items" "(int i, v) \<in> set items"
  shows "\<exists>vs. embed_texts client texts api_key = Inr vs \<and> length vs = length items \<and> vs ! i = v"
  using assms(1-4) sort_key_indexed [OF assms(5-7)] by (simp add: embed_texts_def)

theorem embed_texts_order_witness:
  "\<exists>vs. embed_texts (\<lambda>_ _. Embed_response 200 (Some [(1, [2]), (0, [1])])) [''x'', ''y''] ''sk'' = Inr vs
      \<and> length vs = 2 \<and> vs ! 1 = [2]"
proof -
  have "fst ` set [(1, [2]), (0, [1::real])] = int ` {0..<length [(1::int, [2]), (0, [1::real])]}"
    by (auto simp: atLeast0_lessThan_Suc numeral_2_eq_2)
  then show ?thesis
    using embed_texts_order [of "''sk''" "\<lambda>_ _. Embed_response 200 (Some [(1, [2]), (0, [1])])" "[''x'', ''y'']" 200
        "[(1, [2]), (0, [1])]" 1 "[2]"] by (simp add: numeral_2_eq_2)
qed

end
