(* ===== verification/Security.thy ===== *)
theory Security
  imports Schemas "HOL-Library.Countable"
begin

text \<open>
  \<^verbatim>\<open>core/security.py\<close>. HMAC, argon2 and the JWT library are outside the repository: \<open>crypto\<close> is the
  record of the functions called, and \<open>jwt_documented\<close> states what the gateway relies on of the
  JWT library. The random generator's output is an argument: the number whose bytes it
  returned.
\<close>

definition API_KEY_PREFIX :: string where
  "API_KEY_PREFIX = ''agk_live_''"

definition KEY_ID_BYTES :: nat where
  "KEY_ID_BYTES = 8"

definition SECRET_BYTES :: nat where
  "SECRET_BYTES = 24"

datatype argon_outcome = Verified | Mismatch | Argon_error string

record crypto =
  hmac_sha256 :: "string \<Rightarrow> string \<Rightarrow> string"
  argon_hash :: "string \<Rightarrow> string"
  argon_verify :: "string \<Rightarrow> string \<Rightarrow> argon_outcome"
  jwt_encode :: "(string \<times> json) list \<Rightarrow> string \<Rightarrow> string \<Rightarrow> string"
  jwt_decode :: "string \<Rightarrow> string \<Rightarrow> string \<Rightarrow> rat \<Rightarrow> (string \<times> json) list option"

section \<open>API keys\<close>

text \<open>\<open>secrets.token_hex\<close> and \<open>secrets.token_urlsafe\<close> of the bytes of a number (24 bytes are 32 digits of 6 bits).\<close>

definition token_hex :: "nat \<Rightarrow> nat \<Rightarrow> string" where
  "token_hex n r = hex_digits (2 * n) r"

definition urlsafe_char :: "nat \<Rightarrow> char" where
  "urlsafe_char d = ''ABCDEFGHIJKLMNOPQRSTUVWXYZabcdefghijklmnopqrstuvwxyz0123456789-_'' ! d"

fun urlsafe_digits :: "nat \<Rightarrow> nat \<Rightarrow> string" where
  "urlsafe_digits 0 n = []"
| "urlsafe_digits (Suc k) n = urlsafe_digits k (n div 64) @ [urlsafe_char (n mod 64)]"

definition token_urlsafe :: "nat \<Rightarrow> nat \<Rightarrow> string" where
  "token_urlsafe n r = urlsafe_digits (n * 8 div 6) r"

definition generate_api_key :: "nat \<Rightarrow> nat \<Rightarrow> string \<times> string \<times> string" where
  "generate_api_key r1 r2 =
     (let key_id = token_hex KEY_ID_BYTES r1;
          secret_part = token_urlsafe SECRET_BYTES r2;
          full_key = API_KEY_PREFIX @ key_id @ ''.'' @ secret_part
      in (full_key, key_id, secret_part))"

definition parse_api_key :: "string \<Rightarrow> (string \<times> string) option" where
  "parse_api_key full_key =
     (if \<not> starts_with full_key API_KEY_PREFIX then None
      else
        let remainder = drop (length API_KEY_PREFIX) full_key;
            (key_id, secret_part) = str_partition (CHR ''.'') remainder
        in if key_id = [] \<or> secret_part = [] then None else Some (key_id, secret_part))"

definition hash_api_key_secret :: "crypto \<Rightarrow> string \<Rightarrow> string \<Rightarrow> string" where
  "hash_api_key_secret K secret_part pepper = hmac_sha256 K pepper secret_part"

definition verify_api_key_secret :: "crypto \<Rightarrow> string \<Rightarrow> string \<Rightarrow> string \<Rightarrow> bool" where
  "verify_api_key_secret K secret_part pepper expected_hash =
     (hash_api_key_secret K secret_part pepper = expected_hash)"

section \<open>Passwords and admin tokens\<close>

definition hash_password :: "crypto \<Rightarrow> string \<Rightarrow> string" where
  "hash_password K plain = argon_hash K plain"

definition verify_password :: "crypto \<Rightarrow> string \<Rightarrow> string \<Rightarrow> (string, bool) result" where
  "verify_password K plain hashed =
     (case argon_verify K hashed plain of
        Verified \<Rightarrow> Inr True | Mismatch \<Rightarrow> Inr False | Argon_error e \<Rightarrow> Inl e)"

definition create_admin_jwt :: "crypto \<Rightarrow> rat \<Rightarrow> string \<Rightarrow> string \<Rightarrow> string \<Rightarrow> int \<Rightarrow> string" where
  "create_admin_jwt K now subject secret algorithm expire_minutes =
     (let payload = [(''sub'', JStr subject), (''iat'', JInt \<lfloor>now\<rfloor>),
                     (''exp'', JInt \<lfloor>now + of_int (60 * expire_minutes)\<rfloor>), (''scope'', JStr ''admin'')]
      in jwt_encode K payload secret algorithm)"

definition decode_admin_jwt :: "crypto \<Rightarrow> rat \<Rightarrow> string \<Rightarrow> string \<Rightarrow> string \<Rightarrow> (string \<times> json) list option" where
  "decode_admin_jwt K now token secret algorithm =
     (case jwt_decode K token secret algorithm now of
        None \<Rightarrow> None
      | Some payload \<Rightarrow> if map_of payload ''scope'' \<noteq> Some (JStr ''admin'') then None else Some payload)"

section \<open>Issued keys parse\<close>

lemma length_urlsafe_digits [simp]: "length (urlsafe_digits k n) = k"
  by (induction k arbitrary: n) auto

lemma hex_digits_no_dot: "CHR ''.'' \<notin> set (hex_digits k n)"
proof (induction k arbitrary: n)
  case (Suc k)
  have "hex_char d \<noteq> CHR ''.''" if "d < 16" for d
    using that by (auto simp: hex_char_def nth_Cons' numeral_eq_Suc less_Suc_eq)
  then have "hex_char (n mod 16) \<noteq> CHR ''.''" by simp
  with Suc show ?case by auto
qed simp

lemma parse_api_key_iff:
  "parse_api_key k = Some (key_id, secret_part) \<longleftrightarrow>
     k = API_KEY_PREFIX @ key_id @ ''.'' @ secret_part \<and> CHR ''.'' \<notin> set key_id \<and> key_id \<noteq> [] \<and> secret_part \<noteq> []"
    (is "?l \<longleftrightarrow> ?r")
proof
  assume ?l
  then have s: "starts_with k API_KEY_PREFIX" and p: "str_partition (CHR ''.'') (drop (length API_KEY_PREFIX) k) = (key_id, secret_part)"
    and ne: "key_id \<noteq> []" "secret_part \<noteq> []"
    by (auto simp: parse_api_key_def Let_def split: if_splits prod.splits)
  let ?rest = "drop (length API_KEY_PREFIX) k"
  have "?rest = key_id @ dropWhile (\<lambda>x. x \<noteq> CHR ''.'') ?rest"
    using p by (metis Pair_inject str_partition_def takeWhile_dropWhile_id)
  moreover have "dropWhile (\<lambda>x. x \<noteq> CHR ''.'') ?rest = CHR ''.'' # secret_part"
    using p ne(2) hd_dropWhile [of "\<lambda>x. x \<noteq> CHR ''.''" ?rest]
    by (cases "dropWhile (\<lambda>x. x \<noteq> CHR ''.'') ?rest") (auto simp: str_partition_def)
  ultimately have "k = API_KEY_PREFIX @ key_id @ CHR ''.'' # secret_part"
    using starts_with_drop [OF s] by metis
  then show ?r using str_partition_no_sep [OF p] ne by simp
next
  assume ?r
  then show ?l using str_partition_append [of "CHR ''.''" key_id secret_part] by (simp add: parse_api_key_def)
qed

text \<open>
  Every issued key reads back as the id and secret it was made of, the id having 16 and the
  secret 32 characters; and a presented key parses only when it is the prefix, an id without a
  dot, a dot and a non-empty secret, so each key text has at most one reading.
\<close>

theorem api_key_roundtrip:
  "(case generate_api_key r1 r2 of (full_key, key_id, secret_part) \<Rightarrow>
      parse_api_key full_key = Some (key_id, secret_part) \<and> length key_id = 16 \<and> length secret_part = 32)
   \<and> (parse_api_key k = Some (i, sec) \<longleftrightarrow>
        k = API_KEY_PREFIX @ i @ ''.'' @ sec \<and> CHR ''.'' \<notin> set i \<and> i \<noteq> [] \<and> sec \<noteq> [])"
proof -
  have "length (hex_digits 16 r1) = 16" "length (urlsafe_digits 32 r2) = 32" by simp_all
  then have "hex_digits 16 r1 \<noteq> []" "urlsafe_digits 32 r2 \<noteq> []" by fastforce+
  then show ?thesis
    unfolding generate_api_key_def Let_def prod.case parse_api_key_iff
    by (simp add: token_hex_def token_urlsafe_def KEY_ID_BYTES_def SECRET_BYTES_def hex_digits_no_dot)
qed

section \<open>Admin tokens\<close>

text \<open>
  What the gateway relies on of the JWT library: a token it encoded decodes to its payload under
  the same secret and algorithm from its \<open>iat\<close> until its \<open>exp\<close>, and no longer.
\<close>

definition jwt_documented :: "crypto \<Rightarrow> bool" where
  "jwt_documented K \<longleftrightarrow>
     (\<forall>p s a t i e. map_of p ''iat'' = Some (JInt i) \<longrightarrow> map_of p ''exp'' = Some (JInt e) \<longrightarrow>
        (of_int i \<le> t \<longrightarrow> t < of_int e \<longrightarrow> jwt_decode K (jwt_encode K p s a) s a t = Some p)
      \<and> (of_int e \<le> t \<longrightarrow> jwt_decode K (jwt_encode K p s a) s a t = None))"

lemma admin_jwt_fresh:
  assumes "jwt_documented K" "now \<le> t" "t < of_int \<lfloor>now + of_int (60 * m)\<rfloor>"
  shows "\<exists>payload. decode_admin_jwt K t (create_admin_jwt K now sub s a m) s a = Some payload
       \<and> map_of payload ''sub'' = Some (JStr sub)"
proof -
  have "of_int \<lfloor>now\<rfloor> \<le> t" using assms(2) of_int_floor_le order_trans by blast
  with assms(1,3) show ?thesis
    by (simp add: create_admin_jwt_def decode_admin_jwt_def Let_def jwt_documented_def)
qed

lemma admin_jwt_expired:
  "jwt_documented K \<Longrightarrow> of_int \<lfloor>now + of_int (60 * m)\<rfloor> \<le> t \<Longrightarrow>
   decode_admin_jwt K t (create_admin_jwt K now sub s a m) s a = None"
  by (simp add: create_admin_jwt_def decode_admin_jwt_def Let_def jwt_documented_def)

text \<open>
  A library that behaves so: a token is a string whose length numbers its payload, secret
  and algorithm.
\<close>

instance json :: countable
  by countable_datatype

definition demo_token :: "(string \<times> json) list \<Rightarrow> string \<Rightarrow> string \<Rightarrow> string" where
  "demo_token p s a = replicate (to_nat (p, s, a)) (CHR ''x'')"

definition demo_read :: "string \<Rightarrow> string \<Rightarrow> string \<Rightarrow> rat \<Rightarrow> (string \<times> json) list option" where
  "demo_read tok s a t =
     (let (p, s', a') = from_nat (length tok) in
      if s' = s \<and> a' = a
      then (case map_of p ''exp'' of Some (JInt e) \<Rightarrow> if t < of_int e then Some p else None | _ \<Rightarrow> Some p)
      else None)"

definition demo_crypto :: crypto where
  "demo_crypto = \<lparr>hmac_sha256 = (\<lambda>pepper m. pepper @ '':'' @ m), argon_hash = (\<lambda>p. p),
     argon_verify = (\<lambda>h p. if h = p then Verified else Mismatch), jwt_encode = demo_token, jwt_decode = demo_read\<rparr>"

lemma demo_crypto_documented: "jwt_documented demo_crypto"
  by (simp add: jwt_documented_def demo_crypto_def demo_read_def demo_token_def)

text \<open>
  An admin token is good for exactly the configured time: with a JWT library that checks
  signature and expiry as documented, a token created at \<open>now\<close> decodes, to its own subject, at
  every time from \<open>now\<close> until the whole second in which \<open>expire_minutes\<close> have passed, and at no
  time from then on.
\<close>

theorem admin_jwt_lifetime:
  assumes "jwt_documented K" "now \<le> t"
  shows "(\<exists>payload. decode_admin_jwt K t (create_admin_jwt K now sub secret alg m) secret alg = Some payload
            \<and> map_of payload ''sub'' = Some (JStr sub))
         \<longleftrightarrow> t < of_int \<lfloor>now + of_int (60 * m)\<rfloor>"
  using admin_jwt_fresh [OF assms] admin_jwt_expired [OF assms(1)]
  by (metis linorder_not_less option.distinct(1))

theorem admin_jwt_lifetime_witness:
  "(\<exists>payload. decode_admin_jwt demo_crypto 100 (create_admin_jwt demo_crypto 0 ''me'' ''s'' ''HS256'' 60) ''s'' ''HS256''
       = Some payload \<and> map_of payload ''sub'' = Some (JStr ''me''))"
  using admin_jwt_lifetime [OF demo_crypto_documented, of 0 100 "''me''" "''s''" "''HS256''" 60] by simp

end
