(* ===== verification/Database.thy ===== *)
theory Database
  imports Schemas
begin

text \<open>
  \<^verbatim>\<open>db/models.py\<close>, \<^verbatim>\<open>db/session.py\<close> and the row-level-security policies of the migrations. The
  tables are lists of rows; a session holds the committed tables, the tables as its transaction
  sees them, the statements its unit of work has not flushed yet (\<open>autoflush=False\<close>), and the two
  settings the policies read, which \<open>set_config(..., is_local=true)\<close> binds to the transaction: a
  commit or a rollback clears them. Timestamps are microseconds since the epoch. The primary keys of
  tenants, API keys and admins are enforced; a collision of two random ids of audit or usage rows is
  not modelled. A request's transaction runs alone.
\<close>

section \<open>Tables\<close>

type_synonym datetime = int

record Tenant =
  t_id :: uuid
  t_name :: string
  t_monthly_budget_usd :: rat
  t_rate_limit_rpm :: int
  t_rate_limit_tpm :: int
  t_max_concurrent_requests :: int
  t_pii_redaction_enabled :: bool
  t_injection_detection_enabled :: bool
  t_injection_detection_threshold :: rat
  t_injection_detection_mode :: injection_mode
  t_cache_enabled :: bool
  t_is_active :: bool
  t_created_at :: datetime

record ApiKey =
  ak_id :: uuid
  ak_tenant_id :: uuid
  ak_key_id :: string
  ak_hashed_secret :: string
  ak_name :: string
  ak_scopes :: "string list"
  ak_created_at :: datetime
  ak_revoked_at :: "datetime option"
  ak_last_used_at :: "datetime option"

record AdminUser =
  au_id :: uuid
  au_email :: string
  au_hashed_password :: string
  au_is_superuser :: bool
  au_created_at :: datetime

record AuditLog =
  al_id :: uuid
  al_tenant_id :: "uuid option"
  al_event_type :: string
  al_correlation_id :: "string option"
  al_detail :: json
  al_created_at :: datetime

record UsageRecord =
  ur_id :: uuid
  ur_tenant_id :: uuid
  ur_api_key_id :: string
  ur_provider :: string
  ur_model :: string
  ur_prompt_tokens :: int
  ur_completion_tokens :: int
  ur_total_tokens :: int
  ur_cost_usd :: rat
  ur_cache_hit :: bool
  ur_correlation_id :: "string option"
  ur_created_at :: datetime

record UsageRollup =
  ro_id :: uuid
  ro_tenant_id :: uuid
  ro_period_type :: string
  ro_period_start :: datetime
  ro_request_count :: int
  ro_cache_hit_count :: int
  ro_prompt_tokens :: int
  ro_completion_tokens :: int
  ro_total_tokens :: int
  ro_cost_usd :: rat
  ro_created_at :: datetime

record db =
  tenants :: "Tenant list"
  api_keys :: "ApiKey list"
  admin_users :: "AdminUser list"
  audit_log :: "AuditLog list"
  usage_records :: "UsageRecord list"
  usage_rollups :: "UsageRollup list"

section \<open>Column types\<close>

text \<open>
  What a value has to satisfy for its column: \<open>String(n)\<close>, a 32-bit integer, \<open>Numeric(p, k)\<close>. A
  numeric value is rounded to its scale, half away from zero, when it is stored.
\<close>

definition fits :: "nat \<Rightarrow> string \<Rightarrow> bool" where
  "fits n x \<longleftrightarrow> length x \<le> n"

definition fits_opt :: "nat \<Rightarrow> string option \<Rightarrow> bool" where
  "fits_opt n x \<longleftrightarrow> (case x of None \<Rightarrow> True | Some y \<Rightarrow> fits n y)"

definition int4 :: "int \<Rightarrow> bool" where
  "int4 i \<longleftrightarrow> - (2 ^ 31) \<le> i \<and> i < 2 ^ 31"

definition pg_numeric :: "nat \<Rightarrow> rat \<Rightarrow> rat" where
  "pg_numeric k x =
     (if x < 0 then - (of_int \<lfloor>- x * 10 ^ k + 1 / 2\<rfloor> / 10 ^ k) else of_int \<lfloor>x * 10 ^ k + 1 / 2\<rfloor> / 10 ^ k)"

definition numeric_fits :: "nat \<Rightarrow> nat \<Rightarrow> rat \<Rightarrow> bool" where
  "numeric_fits p k x \<longleftrightarrow> \<bar>pg_numeric k x\<bar> < 10 ^ (p - k)"

definition tenant_ok :: "Tenant \<Rightarrow> bool" where
  "tenant_ok t \<longleftrightarrow> fits 255 (t_name t) \<and> numeric_fits 10 2 (t_monthly_budget_usd t)
     \<and> int4 (t_rate_limit_rpm t) \<and> int4 (t_rate_limit_tpm t) \<and> int4 (t_max_concurrent_requests t)"

definition stored_tenant :: "Tenant \<Rightarrow> Tenant" where
  "stored_tenant t = t\<lparr>t_monthly_budget_usd := pg_numeric 2 (t_monthly_budget_usd t)\<rparr>"

definition api_key_ok :: "ApiKey \<Rightarrow> bool" where
  "api_key_ok k \<longleftrightarrow> fits 16 (ak_key_id k) \<and> fits 64 (ak_hashed_secret k) \<and> fits 255 (ak_name k)"

definition admin_ok :: "AdminUser \<Rightarrow> bool" where
  "admin_ok a \<longleftrightarrow> fits 255 (au_email a) \<and> fits 255 (au_hashed_password a)"

definition usage_ok :: "UsageRecord \<Rightarrow> bool" where
  "usage_ok u \<longleftrightarrow> fits 16 (ur_api_key_id u) \<and> fits 32 (ur_provider u) \<and> fits 128 (ur_model u)
     \<and> int4 (ur_prompt_tokens u) \<and> int4 (ur_completion_tokens u) \<and> int4 (ur_total_tokens u)
     \<and> numeric_fits 12 6 (ur_cost_usd u) \<and> fits_opt 64 (ur_correlation_id u)"

definition stored_usage :: "UsageRecord \<Rightarrow> UsageRecord" where
  "stored_usage u = u\<lparr>ur_cost_usd := pg_numeric 6 (ur_cost_usd u)\<rparr>"

section \<open>Values bound for a JSON column\<close>

text \<open>
  A Python value on its way into a JSONB column. A \<open>Decimal\<close> carries the number of its fraction
  digits; it is what \<open>json.dumps\<close> cannot serialise.
\<close>

datatype pyval = PNone | PBool bool | PInt int | PFloat rat | PStr string | PDec nat rat
  | PList "pyval list" | PDict "(string \<times> pyval) list"

fun collect :: "'a option list \<Rightarrow> 'a list option" where
  "collect [] = Some []"
| "collect (None # _) = None"
| "collect (Some x # xs) = map_option ((#) x) (collect xs)"

fun json_of :: "pyval \<Rightarrow> json option" where
  "json_of PNone = Some JNull"
| "json_of (PBool b) = Some (JBool b)"
| "json_of (PInt i) = Some (JInt i)"
| "json_of (PFloat x) = Some (JNum x)"
| "json_of (PStr s) = Some (JStr s)"
| "json_of (PDec k x) = None"
| "json_of (PList vs) = map_option JList (collect (map json_of vs))"
| "json_of (PDict kvs) =
     map_option JObj (collect (map (\<lambda>kv. map_option (\<lambda>j. (fst kv, j)) (json_of (snd kv))) kvs))"

section \<open>Sessions\<close>

datatype db_role = App | Owner

datatype db_error = DataError | RowSecurityViolation | IntegrityError | PermissionDenied | StatementError | StaleData
  | MultipleResultsFound

datatype stmt =
    Ins_tenant Tenant
  | Upd_tenant uuid "Tenant option"
  | Ins_api_key ApiKey
  | Upd_api_key ApiKey
  | Ins_admin AdminUser
  | Ins_audit "uuid option" string "string option" pyval
  | Ins_usage UsageRecord

record session =
  committed :: db
  working :: db
  pending :: "stmt list"
  guc_tenant :: string
  guc_bypass :: string
  db_user :: db_role
  clock :: datetime
  uuid4 :: "nat \<Rightarrow> uuid"
  drawn :: nat

definition set_rls_context :: "uuid option \<Rightarrow> bool \<Rightarrow> session \<Rightarrow> session" where
  "set_rls_context tid bypass s =
     s\<lparr>guc_tenant := (case tid of Some t \<Rightarrow> uuid_str t | None \<Rightarrow> []),
       guc_bypass := (if bypass then ''on'' else ''off'')\<rparr>"

text \<open>The policy \<open>tenant_isolation\<close>; the owner of the tables is not subject to it.\<close>

definition visible :: "session \<Rightarrow> uuid option \<Rightarrow> bool" where
  "visible s tid \<longleftrightarrow>
     db_user s = Owner \<or> guc_bypass s = ''on'' \<or> (case tid of Some t \<Rightarrow> uuid_str t = guc_tenant s | None \<Rightarrow> False)"

definition replace_by :: "('a \<Rightarrow> 'k) \<Rightarrow> 'a \<Rightarrow> 'a list \<Rightarrow> 'a list" where
  "replace_by key x xs = map (\<lambda>y. if key y = key x then x else y) xs"

definition tenant_exists :: "db \<Rightarrow> uuid \<Rightarrow> bool" where
  "tenant_exists d t \<longleftrightarrow> list_ex (\<lambda>r. t_id r = t) (tenants d)"

fun exec_stmt :: "session \<Rightarrow> stmt \<Rightarrow> (db_error, session) result" where
  "exec_stmt s (Ins_tenant t) =
     (if \<not> tenant_ok t then Inl DataError
      else if list_ex (\<lambda>r. t_id r = t_id t \<or> t_name r = t_name t) (tenants (working s)) then Inl IntegrityError
      else Inr (s\<lparr>working := (working s)\<lparr>tenants := tenants (working s) @ [stored_tenant t]\<rparr>\<rparr>))"
| "exec_stmt s (Upd_tenant i None) = Inl IntegrityError"
| "exec_stmt s (Upd_tenant i (Some t)) =
     (if \<not> tenant_ok t then Inl DataError
      else if list_ex (\<lambda>r. t_name r = t_name t \<and> t_id r \<noteq> i) (tenants (working s)) then Inl IntegrityError
      else Inr (s\<lparr>working := (working s)\<lparr>tenants := replace_by t_id (stored_tenant t) (tenants (working s))\<rparr>\<rparr>))"
| "exec_stmt s (Ins_api_key k) =
     (if \<not> api_key_ok k then Inl DataError
      else if \<not> visible s (Some (ak_tenant_id k)) then Inl RowSecurityViolation
      else if \<not> tenant_exists (working s) (ak_tenant_id k)
           \<or> list_ex (\<lambda>r. ak_id r = ak_id k \<or> ak_key_id r = ak_key_id k) (api_keys (working s)) then Inl IntegrityError
      else Inr (s\<lparr>working := (working s)\<lparr>api_keys := api_keys (working s) @ [k]\<rparr>\<rparr>))"
| "exec_stmt s (Upd_api_key k) =
     (if \<not> list_ex (\<lambda>r. ak_id r = ak_id k \<and> visible s (Some (ak_tenant_id r))) (api_keys (working s)) then Inl StaleData
      else if \<not> visible s (Some (ak_tenant_id k)) then Inl RowSecurityViolation
      else Inr (s\<lparr>working := (working s)\<lparr>api_keys := replace_by ak_id k (api_keys (working s))\<rparr>\<rparr>))"
| "exec_stmt s (Ins_admin a) =
     (if db_user s = App then Inl PermissionDenied
      else if \<not> admin_ok a then Inl DataError
      else if list_ex (\<lambda>r. au_id r = au_id a \<or> au_email r = au_email a) (admin_users (working s)) then Inl IntegrityError
      else Inr (s\<lparr>working := (working s)\<lparr>admin_users := admin_users (working s) @ [a]\<rparr>\<rparr>))"
| "exec_stmt s (Ins_audit tid event_type correlation_id det) =
     (case json_of det of
        None \<Rightarrow> Inl StatementError
      | Some j \<Rightarrow>
          if \<not> (fits 64 event_type \<and> fits_opt 64 correlation_id) then Inl DataError
          else if \<not> visible s tid then Inl RowSecurityViolation
          else if (case tid of Some t \<Rightarrow> \<not> tenant_exists (working s) t | None \<Rightarrow> False) then Inl IntegrityError
          else Inr (s\<lparr>drawn := drawn s + 1, working := (working s)\<lparr>audit_log := audit_log (working s) @
                 [\<lparr>al_id = uuid4 s (drawn s), al_tenant_id = tid, al_event_type = event_type,
                   al_correlation_id = correlation_id, al_detail = j, al_created_at = clock s\<rparr>]\<rparr>\<rparr>))"
| "exec_stmt s (Ins_usage u) =
     (if \<not> usage_ok u then Inl DataError
      else if \<not> visible s (Some (ur_tenant_id u)) then Inl RowSecurityViolation
      else if \<not> tenant_exists (working s) (ur_tenant_id u) then Inl IntegrityError
      else Inr (s\<lparr>working := (working s)\<lparr>usage_records := usage_records (working s) @ [stored_usage u]\<rparr>\<rparr>))"

fun exec_stmts :: "session \<Rightarrow> stmt list \<Rightarrow> (db_error, session) result" where
  "exec_stmts s [] = Inr s"
| "exec_stmts s (x # xs) = (case exec_stmt s x of Inl e \<Rightarrow> Inl e | Inr s' \<Rightarrow> exec_stmts s' xs)"

definition session_add :: "stmt \<Rightarrow> session \<Rightarrow> session" where
  "session_add x s = s\<lparr>pending := pending s @ [x]\<rparr>"

definition rollback :: "session \<Rightarrow> session" where
  "rollback s = s\<lparr>working := committed s, pending := [], guc_tenant := [], guc_bypass := []\<rparr>"

text \<open>A failing statement aborts the transaction, whose work is lost.\<close>

definition flush :: "session \<Rightarrow> (db_error, unit) result \<times> session" where
  "flush s = (case exec_stmts s (pending s) of
                Inl e \<Rightarrow> (Inl e, rollback s)
              | Inr s' \<Rightarrow> (Inr (), s'\<lparr>pending := []\<rparr>))"

definition commit :: "session \<Rightarrow> (db_error, unit) result \<times> session" where
  "commit s = (case flush s of
                 (Inl e, s') \<Rightarrow> (Inl e, s')
               | (Inr _, s') \<Rightarrow> (Inr (), s'\<lparr>committed := working s', guc_tenant := [], guc_bypass := []\<rparr>))"

definition session_scope :: "(session \<Rightarrow> ('e, 'a) result \<times> session) \<Rightarrow> (db_error \<Rightarrow> 'e) \<Rightarrow> session
    \<Rightarrow> ('e, 'a) result \<times> session" where
  "session_scope body err s =
     (case body s of
        (Inl e, s) \<Rightarrow> (Inl e, rollback s)
      | (Inr x, s) \<Rightarrow> (case commit s of (Inl e, s) \<Rightarrow> (Inl (err e), rollback s) | (Inr _, s) \<Rightarrow> (Inr x, s)))"

section \<open>Queries\<close>

definition select_api_keys :: "(ApiKey \<Rightarrow> bool) \<Rightarrow> session \<Rightarrow> ApiKey list" where
  "select_api_keys p s = filter (\<lambda>r. visible s (Some (ak_tenant_id r)) \<and> p r) (api_keys (working s))"

definition select_audit_log :: "(AuditLog \<Rightarrow> bool) \<Rightarrow> session \<Rightarrow> AuditLog list" where
  "select_audit_log p s = filter (\<lambda>r. visible s (al_tenant_id r) \<and> p r) (audit_log (working s))"

definition select_usage_records :: "(UsageRecord \<Rightarrow> bool) \<Rightarrow> session \<Rightarrow> UsageRecord list" where
  "select_usage_records p s = filter (\<lambda>r. visible s (Some (ur_tenant_id r)) \<and> p r) (usage_records (working s))"

definition select_usage_rollups :: "(UsageRollup \<Rightarrow> bool) \<Rightarrow> session \<Rightarrow> UsageRollup list" where
  "select_usage_rollups p s = filter (\<lambda>r. visible s (Some (ro_tenant_id r)) \<and> p r) (usage_rollups (working s))"

definition get_tenant_row :: "uuid \<Rightarrow> session \<Rightarrow> Tenant option" where
  "get_tenant_row i s = List.find (\<lambda>r. t_id r = i) (tenants (working s))"

definition get_admin_row :: "uuid \<Rightarrow> session \<Rightarrow> AdminUser option" where
  "get_admin_row i s = List.find (\<lambda>r. au_id r = i) (admin_users (working s))"

fun scalar_one_or_none :: "'a list \<Rightarrow> (db_error, 'a option) result" where
  "scalar_one_or_none [] = Inr None"
| "scalar_one_or_none [x] = Inr (Some x)"
| "scalar_one_or_none _ = Inl MultipleResultsFound"

section \<open>The session's own fields\<close>

lemma exec_stmt_frame:
  "exec_stmt s x = Inr s' \<Longrightarrow> committed s' = committed s \<and> guc_tenant s' = guc_tenant s
     \<and> guc_bypass s' = guc_bypass s \<and> db_user s' = db_user s \<and> clock s' = clock s \<and> uuid4 s' = uuid4 s
     \<and> pending s' = pending s"
  by (cases "(s, x)" rule: exec_stmt.cases) (auto split: if_splits option.splits)

lemma exec_stmts_frame:
  "exec_stmts s xs = Inr s' \<Longrightarrow> committed s' = committed s \<and> guc_tenant s' = guc_tenant s
     \<and> guc_bypass s' = guc_bypass s \<and> db_user s' = db_user s \<and> clock s' = clock s \<and> uuid4 s' = uuid4 s
     \<and> pending s' = pending s"
  by (induction xs arbitrary: s) (auto split: sum.splits dest!: exec_stmt_frame)

lemma exec_stmt_visible: "exec_stmt s x = Inr s' \<Longrightarrow> visible s' = visible s"
  by (drule exec_stmt_frame) (simp add: visible_def fun_eq_iff split: option.split)

lemma exec_stmts_append:
  "exec_stmts s (xs @ ys) = (case exec_stmts s xs of Inl e \<Rightarrow> Inl e | Inr s' \<Rightarrow> exec_stmts s' ys)"
  by (induction xs arbitrary: s) (auto split: sum.splits)

lemma set_rls_context_simps [simp]:
  "working (set_rls_context t b s) = working s" "committed (set_rls_context t b s) = committed s"
  "pending (set_rls_context t b s) = pending s" "db_user (set_rls_context t b s) = db_user s"
  "clock (set_rls_context t b s) = clock s" "drawn (set_rls_context t b s) = drawn s"
  "uuid4 (set_rls_context t b s) = uuid4 s"
  by (simp_all add: set_rls_context_def)

lemma session_add_simps [simp]:
  "working (session_add x s) = working s" "committed (session_add x s) = committed s"
  "pending (session_add x s) = pending s @ [x]" "db_user (session_add x s) = db_user s"
  "clock (session_add x s) = clock s" "visible (session_add x s) = visible s"
  "drawn (session_add x s) = drawn s" "uuid4 (session_add x s) = uuid4 s"
  by (simp_all add: session_add_def visible_def fun_eq_iff split: option.split)

lemma visible_context:
  "visible (set_rls_context c b s) tid \<longleftrightarrow> db_user s = Owner \<or> b \<or> (c \<noteq> None \<and> c = tid)"
proof -
  have "uuid_str u \<noteq> []" for u by (metis length_uuid_str list.size(3) zero_neq_numeral)
  then show ?thesis by (auto simp: visible_def set_rls_context_def uuid_str_inj split: option.splits)
qed

section \<open>Tenant isolation\<close>

text \<open>The rows of the protected tables that belong to other tenants than \<open>t\<close>.\<close>

definition foreign_rows :: "uuid \<Rightarrow> db \<Rightarrow> ApiKey list \<times> AuditLog list \<times> UsageRecord list \<times> UsageRollup list" where
  "foreign_rows t d =
     (filter (\<lambda>r. ak_tenant_id r \<noteq> t) (api_keys d), filter (\<lambda>r. al_tenant_id r \<noteq> Some t) (audit_log d),
      filter (\<lambda>r. ur_tenant_id r \<noteq> t) (usage_records d), filter (\<lambda>r. ro_tenant_id r \<noteq> t) (usage_rollups d))"

lemma replace_by_filter_out:
  assumes "\<And>y. y \<in> set xs \<Longrightarrow> key y = key x \<Longrightarrow> \<not> p y" "\<not> p x"
  shows "filter p (replace_by key x xs) = filter p xs"
  using assms by (induction xs) (auto simp: replace_by_def)

lemma exec_stmt_isolated:
  assumes "exec_stmt s x = Inr s'" "db_user s = App" "guc_bypass s = ''off''" "guc_tenant s = uuid_str t"
    and "distinct (map ak_id (api_keys (working s)))"
  shows "foreign_rows t (working s') = foreign_rows t (working s)"
proof -
  have v: "visible s tid \<longleftrightarrow> tid = Some t" for tid
    using assms(2-4) by (auto simp: visible_def uuid_str_inj split: option.splits)
  have key: "ak_tenant_id r = t"
    if "r \<in> set (api_keys (working s))" "ak_id r = ak_id k"
      and "list_ex (\<lambda>r. ak_id r = ak_id k \<and> ak_tenant_id r = t) (api_keys (working s))" for r k
    using that assms(5) unfolding list_ex_iff distinct_map by (metis inj_onD)
  show ?thesis
  proof (cases x)
    case (Upd_api_key k)
    then have ex: "list_ex (\<lambda>r. ak_id r = ak_id k \<and> ak_tenant_id r = t) (api_keys (working s))" and k: "ak_tenant_id k = t"
      and s': "s' = s\<lparr>working := (working s)\<lparr>api_keys := replace_by ak_id k (api_keys (working s))\<rparr>\<rparr>"
      using assms(1) by (auto simp: v split: if_splits)
    have "filter (\<lambda>r. ak_tenant_id r \<noteq> t) (replace_by ak_id k (api_keys (working s))) = filter (\<lambda>r. ak_tenant_id r \<noteq> t) (api_keys (working s))"
      using key ex k by (intro replace_by_filter_out) auto
    then show ?thesis by (simp add: s' foreign_rows_def)
  next
    case (Upd_tenant i o1)
    with assms(1) show ?thesis by (cases o1) (auto simp: foreign_rows_def split: if_splits)
  qed (use assms(1) in \<open>auto simp: v foreign_rows_def stored_usage_def split: if_splits option.splits\<close>)
qed

fun new_keys :: "stmt list \<Rightarrow> ApiKey list" where
  "new_keys [] = []"
| "new_keys (Ins_api_key k # xs) = k # new_keys xs"
| "new_keys (_ # xs) = new_keys xs"

lemma exec_stmt_key_ids:
  "exec_stmt s x = Inr s' \<Longrightarrow>
   map ak_id (api_keys (working s')) @ map ak_id (new_keys xs) =
   map ak_id (api_keys (working s)) @ map ak_id (new_keys (x # xs))"
  by (cases "(s, x)" rule: exec_stmt.cases) (auto simp: replace_by_def split: if_splits option.splits)

lemma exec_stmts_isolated:
  assumes "exec_stmts s xs = Inr s'" "db_user s = App" "guc_bypass s = ''off''" "guc_tenant s = uuid_str t"
    and "distinct (map ak_id (api_keys (working s)) @ map ak_id (new_keys xs))"
  shows "foreign_rows t (working s') = foreign_rows t (working s)"
  using assms
proof (induction xs arbitrary: s)
  case (Cons x xs)
  then obtain s1 where s1: "exec_stmt s x = Inr s1" "exec_stmts s1 xs = Inr s'" by (auto split: sum.splits)
  have "foreign_rows t (working s1) = foreign_rows t (working s)"
    using exec_stmt_isolated [OF s1(1) Cons.prems(2-4)] Cons.prems(5) by simp
  moreover have "distinct (map ak_id (api_keys (working s1)) @ map ak_id (new_keys xs))"
    using Cons.prems(5) unfolding exec_stmt_key_ids [OF s1(1)] .
  ultimately show ?case
    using Cons.IH [OF s1(2)] exec_stmt_frame [OF s1(1)] Cons.prems(2-4) by simp
qed simp


definition demo_row :: Tenant where
  "demo_row = \<lparr>t_id = 1, t_name = ''acme'', t_monthly_budget_usd = 100, t_rate_limit_rpm = 60, t_rate_limit_tpm = 100000,
     t_max_concurrent_requests = 5, t_pii_redaction_enabled = True, t_injection_detection_enabled = True,
     t_injection_detection_threshold = 3 / 4, t_injection_detection_mode = Block, t_cache_enabled = True,
     t_is_active = True, t_created_at = 0\<rparr>"

definition empty_db :: db where
  "empty_db = \<lparr>tenants = [], api_keys = [], admin_users = [], audit_log = [], usage_records = [], usage_rollups = []\<rparr>"

definition demo_db :: db where
  "demo_db = empty_db\<lparr>tenants := [demo_row, demo_row\<lparr>t_id := 2, t_name := ''globex''\<rparr>]\<rparr>"

definition open_session :: "db_role \<Rightarrow> datetime \<Rightarrow> db \<Rightarrow> session" where
  "open_session u now d = \<lparr>committed = d, working = d, pending = [], guc_tenant = [], guc_bypass = [], db_user = u,
     clock = now, uuid4 = (\<lambda>n. of_nat n), drawn = 0\<rparr>"


text \<open>
  The row-security context does not outlive a transaction: after any successful commit the
  application's role sees no row of a protected table, of any tenant, until it sets a context
  again, although the session stays usable.
\<close>

theorem commit_drops_rls_context:
  assumes "commit s = (Inr (), s')" "db_user s = App"
  shows "select_api_keys p1 s' = [] \<and> select_audit_log p2 s' = [] \<and> select_usage_records p3 s' = []
       \<and> select_usage_rollups p4 s' = [] \<and> committed s' = working s' \<and> pending s' = []"
proof -
  obtain s1 where s1: "exec_stmts s (pending s) = Inr s1"
    and s': "s' = s1\<lparr>pending := [], committed := working s1, guc_tenant := [], guc_bypass := []\<rparr>"
    using assms(1) by (auto simp: commit_def flush_def split: sum.splits prod.splits)
  have "uuid_str u \<noteq> []" for u by (metis length_uuid_str list.size(3) zero_neq_numeral)
  then have "\<not> visible s' tid" for tid
    using exec_stmts_frame [OF s1] assms(2) by (auto simp: s' visible_def split: option.splits)
  then show ?thesis
    by (simp add: s' select_api_keys_def select_audit_log_def select_usage_records_def select_usage_rollups_def)
qed

theorem commit_drops_rls_context_witness:
  "\<exists>s'. commit (set_rls_context None True (open_session App 0 demo_db)) = (Inr (), s') \<and> select_usage_records (\<lambda>_. True) s' = []"
proof -
  obtain s' where c: "commit (set_rls_context None True (open_session App 0 demo_db)) = (Inr (), s')"
    by (simp add: commit_def flush_def open_session_def set_rls_context_def)
  then show ?thesis using commit_drops_rls_context [OF c] by (auto simp: open_session_def set_rls_context_def)
qed

end
