(* ===== verification/Ledger.thy ===== *)
theory Ledger
  imports Database Pricing
begin

text \<open>
  \<^verbatim>\<open>services/audit.py\<close> and \<^verbatim>\<open>services/usage.py\<close>, with the counters of \<^verbatim>\<open>core/metrics.py\<close> they increment. A
  counter increment is an event: the metric, its label values and the amount. The theorems: an
  audit event is durable once written, whatever context the session had, and what keeps one from
  being written; a usage record accounts for its call to within half a millionth of a dollar.
\<close>

datatype metric =
    Chat_completions_total string string
  | Rate_limit_rejections_total string
  | Cache_lookups_total string
  | Pii_redactions_total
  | Injection_detections_total injection_mode
  | Provider_call_duration_seconds string string
  | Usage_cost_usd_total string rat
  | Usage_tokens_total string string int

definition write_audit_event ::
  "uuid option \<Rightarrow> string \<Rightarrow> string option \<Rightarrow> (string \<times> pyval) list \<Rightarrow> session \<Rightarrow> (db_error, unit) result \<times> session" where
  "write_audit_event tid event_type correlation_id det s =
     (let s = set_rls_context None True s;
          s = session_add (Ins_audit tid event_type correlation_id (PDict det)) s
      in commit s)"

definition record_usage ::
  "uuid \<Rightarrow> string \<Rightarrow> string \<Rightarrow> string \<Rightarrow> int \<Rightarrow> int \<Rightarrow> bool \<Rightarrow> string option \<Rightarrow> session
     \<Rightarrow> (db_error, unit) result \<times> session \<times> metric list" where
  "record_usage tid api_key provider_name m prompt_tokens completion_tokens cache_hit correlation_id s =
     (let s = set_rls_context (Some tid) False s;
          cost_usd = calculate_cost_usd m prompt_tokens completion_tokens provider_name;
          s = session_add (Ins_usage
                \<lparr>ur_id = uuid4 s (drawn s), ur_tenant_id = tid, ur_api_key_id = api_key, ur_provider = provider_name,
                 ur_model = m, ur_prompt_tokens = prompt_tokens, ur_completion_tokens = completion_tokens,
                 ur_total_tokens = prompt_tokens + completion_tokens, ur_cost_usd = py_round cost_usd 6,
                 ur_cache_hit = cache_hit, ur_correlation_id = correlation_id, ur_created_at = clock s\<rparr>)
              (s\<lparr>drawn := drawn s + 1\<rparr>)
      in case commit s of
           (Inl e, s) \<Rightarrow> (Inl e, s, [])
         | (Inr _, s) \<Rightarrow>
             (Inr (), s,
              [Chat_completions_total provider_name ''success'', Usage_cost_usd_total provider_name cost_usd,
               Usage_tokens_total provider_name ''prompt'' prompt_tokens,
               Usage_tokens_total provider_name ''completion'' completion_tokens]))"

section \<open>Committing one statement\<close>

lemma commit_one:
  assumes "pending s = [x]" "exec_stmt s x = Inr s1"
  shows "commit s = (Inr (), s1\<lparr>pending := [], committed := working s1, guc_tenant := [], guc_bypass := []\<rparr>)"
  using assms by (simp add: commit_def flush_def)

lemma commit_one_error:
  assumes "pending s = [x]" "exec_stmt s x = Inl e"
  shows "commit s = (Inl e, rollback s)"
  using assms by (simp add: commit_def flush_def)

lemma commit_single:
  assumes "pending s = [x]" "commit s = (r, s')"
  shows "case r of
      Inl e \<Rightarrow> exec_stmt s x = Inl e \<and> s' = rollback s
    | Inr _ \<Rightarrow> (\<exists>s1. exec_stmt s x = Inr s1 \<and> pending s' = [] \<and> working s' = working s1 \<and> committed s' = working s1)"
  using assms commit_one [OF assms(1)] commit_one_error [OF assms(1)] by (cases "exec_stmt s x") fastforce+

lemma visible_bypass [simp]: "visible (set_rls_context None True s) tid"
  by (simp add: visible_context)

definition audit_row :: "uuid option \<Rightarrow> string \<Rightarrow> string option \<Rightarrow> json \<Rightarrow> session \<Rightarrow> AuditLog" where
  "audit_row tid ev cid j s = \<lparr>al_id = uuid4 s (drawn s), al_tenant_id = tid, al_event_type = ev,
     al_correlation_id = cid, al_detail = j, al_created_at = clock s\<rparr>"

text \<open>The session after an audit event: everything worked on before is committed with it.\<close>

definition audited :: "AuditLog \<Rightarrow> session \<Rightarrow> session" where
  "audited row s =
     (let d = (working s)\<lparr>audit_log := audit_log (working s) @ [row]\<rparr>
      in s\<lparr>committed := d, working := d, pending := [], guc_tenant := [], guc_bypass := [], drawn := drawn s + 1\<rparr>)"

lemma write_audit_event_eval:
  assumes "pending s = []" "json_of (PDict det) = Some j" "fits 64 ev" "fits_opt 64 cid"
    and "case tid of None \<Rightarrow> True | Some t \<Rightarrow> tenant_exists (working s) t"
  shows "write_audit_event tid ev cid det s = (Inr (), audited (audit_row tid ev cid j s) s)"
proof -
  let ?s = "session_add (Ins_audit tid ev cid (PDict det)) (set_rls_context None True s)"
  have p: "pending ?s = [Ins_audit tid ev cid (PDict det)]" using assms(1) by simp
  have "exec_stmt ?s (Ins_audit tid ev cid (PDict det)) =
      Inr (?s\<lparr>drawn := drawn ?s + 1, working := (working ?s)\<lparr>audit_log := audit_log (working ?s) @
        [audit_row tid ev cid j s]\<rparr>\<rparr>)"
    unfolding exec_stmt.simps assms(2) using assms(3-5) by (auto simp: audit_row_def split: option.splits)
  from commit_one [OF p this] show ?thesis
    by (simp add: write_audit_event_def Let_def audited_def session_add_def set_rls_context_def)
qed

lemma write_audit_event_too_long:
  assumes "pending s = []" "json_of (PDict det) = Some j" "\<not> fits_opt 64 cid"
  shows "write_audit_event tid ev cid det s = (Inl DataError, rollback s)"
proof -
  let ?s = "session_add (Ins_audit tid ev cid (PDict det)) (set_rls_context None True s)"
  have "exec_stmt ?s (Ins_audit tid ev cid (PDict det)) = Inl DataError"
    unfolding exec_stmt.simps assms(2) using assms(3) by simp
  from commit_one_error [OF _ this] show ?thesis
    using assms(1) by (simp add: write_audit_event_def Let_def session_add_def set_rls_context_def rollback_def)
qed

text \<open>
  Writing an audit event is durable and context-free: from any row-security context, with no
  other work pending, an event with a serialisable detail about no tenant or an existing one is
  committed as exactly one new row at the end of the log, all other tables staying as the
  transaction had them; but a correlation id of more than 64 characters, which the client
  chooses, makes the write fail with nothing recorded.
\<close>

theorem audit_event_durable:
  assumes "pending s = []" "json_of (PDict det) = Some j" "fits 64 ev"
    and "case tid of None \<Rightarrow> True | Some t \<Rightarrow> tenant_exists (working s) t"
  shows "if fits_opt 64 cid
         then fst (write_audit_event tid ev cid det s) = Inr ()
            \<and> committed (snd (write_audit_event tid ev cid det s)) =
                (working s)\<lparr>audit_log := audit_log (working s) @ [audit_row tid ev cid j s]\<rparr>
         else fst (write_audit_event tid ev cid det s) = Inl DataError
            \<and> committed (snd (write_audit_event tid ev cid det s)) = committed s"
  using write_audit_event_eval [OF assms(1-3) _ assms(4), of cid] write_audit_event_too_long [OF assms(1,2), of cid]
  by (simp add: audited_def Let_def rollback_def)

theorem audit_event_durable_witness:
  "length (audit_log (committed (snd (write_audit_event (Some 1) ''auth.failure'' None [(''reason'', PStr ''x'')]
     (open_session App 0 demo_db))))) = 1"
  using audit_event_durable [of "open_session App 0 demo_db" "[(''reason'', PStr ''x'')]"
      "JObj [(''reason'', JStr ''x'')]" "''auth.failure''" "Some 1" None]
  by (simp add: open_session_def demo_db_def demo_row_def empty_db_def fits_def fits_opt_def tenant_exists_def)

section \<open>Usage\<close>

lemma pg_numeric_of_rounded: "pg_numeric k (py_round x k) = py_round x k"
proof -
  let ?n = "round_half_even (x * 10 ^ k)"
  have h: "\<lfloor>(of_int m :: rat) + 1 / 2\<rfloor> = m" for m :: int by (simp add: floor_eq_iff)
  have "py_round x k * 10 ^ k = of_int ?n" "- py_round x k * 10 ^ k = of_int (- ?n)" by (simp_all add: py_round_def)
  then show ?thesis unfolding pg_numeric_def by (simp only: h) (simp add: py_round_def)
qed

definition usage_row :: "uuid \<Rightarrow> string \<Rightarrow> string \<Rightarrow> string \<Rightarrow> int \<Rightarrow> int \<Rightarrow> bool \<Rightarrow> string option \<Rightarrow> session \<Rightarrow> UsageRecord" where
  "usage_row tid key prov m p c hit cid s =
     \<lparr>ur_id = uuid4 s (drawn s), ur_tenant_id = tid, ur_api_key_id = key, ur_provider = prov,
      ur_model = m, ur_prompt_tokens = p, ur_completion_tokens = c, ur_total_tokens = p + c,
      ur_cost_usd = py_round (calculate_cost_usd m p c prov) 6, ur_cache_hit = hit, ur_correlation_id = cid,
      ur_created_at = clock s\<rparr>"

definition used :: "UsageRecord \<Rightarrow> session \<Rightarrow> session" where
  "used row s =
     (let d = (working s)\<lparr>usage_records := usage_records (working s) @ [row]\<rparr>
      in s\<lparr>committed := d, working := d, pending := [], guc_tenant := [], guc_bypass := [], drawn := drawn s + 1\<rparr>)"

definition usage_metrics :: "string \<Rightarrow> string \<Rightarrow> int \<Rightarrow> int \<Rightarrow> metric list" where
  "usage_metrics prov m p c =
     [Chat_completions_total prov ''success'', Usage_cost_usd_total prov (calculate_cost_usd m p c prov),
      Usage_tokens_total prov ''prompt'' p, Usage_tokens_total prov ''completion'' c]"

lemma record_usage_eval:
  assumes "pending s = []" "tenant_exists (working s) tid" "usage_ok (usage_row tid key prov m p c hit cid s)"
  shows "record_usage tid key prov m p c hit cid s =
     (Inr (), used (usage_row tid key prov m p c hit cid s) s, usage_metrics prov m p c)"
proof -
  let ?row = "usage_row tid key prov m p c hit cid s"
  let ?s = "session_add (Ins_usage ?row) ((set_rls_context (Some tid) False s)\<lparr>drawn := drawn s + 1\<rparr>)"
  have p: "pending ?s = [Ins_usage ?row]" using assms(1) by (simp add: session_add_def set_rls_context_def)
  have v: "visible ?s (Some tid)" by (simp add: visible_def session_add_def set_rls_context_def)
  have st: "stored_usage ?row = ?row" by (simp add: stored_usage_def usage_row_def pg_numeric_of_rounded)
  have "exec_stmt ?s (Ins_usage ?row) =
      Inr (?s\<lparr>working := (working ?s)\<lparr>usage_records := usage_records (working ?s) @ [?row]\<rparr>\<rparr>)"
    using assms(2,3) v st by (simp add: usage_row_def session_add_def set_rls_context_def)
  from commit_one [OF p this] show ?thesis
    by (simp add: record_usage_def Let_def used_def usage_metrics_def usage_row_def session_add_def set_rls_context_def)
qed

text \<open>
  Recording usage writes exactly one row of exactly this tenant, committed on return: the
  token counts given, their sum as the total, and a cost that differs from the computed one by at
  most half a millionth of a dollar; the four counters advance by the same figures; every other
  table and every other row is unchanged.
\<close>

theorem record_usage_accounts:
  assumes "pending s = []" "tenant_exists (working s) tid" "usage_ok (usage_row tid key prov m p c hit cid s)"
  defines "out \<equiv> record_usage tid key prov m p c hit cid s"
  shows "\<exists>row. fst out = Inr ()
       \<and> committed (fst (snd out)) = (working s)\<lparr>usage_records := usage_records (working s) @ [row]\<rparr>
       \<and> ur_tenant_id row = tid \<and> ur_api_key_id row = key \<and> ur_prompt_tokens row = p \<and> ur_completion_tokens row = c
       \<and> ur_total_tokens row = p + c \<and> ur_cache_hit row = hit
       \<and> \<bar>ur_cost_usd row - calculate_cost_usd m p c prov\<bar> \<le> 1 / 2000000
       \<and> snd (snd out) = usage_metrics prov m p c"
  using record_usage_eval [OF assms(1-3)] py_round_error [of "calculate_cost_usd m p c prov" 6]
  by (intro exI [of _ "usage_row tid key prov m p c hit cid s"])
    (simp add: out_def used_def Let_def usage_row_def)

theorem record_usage_accounts_witness:
  "\<exists>row. committed (fst (snd (record_usage 1 ''ab'' ''openai'' ''gpt-4'' 10 5 False None (open_session App 0 demo_db))))
     = demo_db\<lparr>usage_records := [row]\<rparr> \<and> ur_total_tokens row = 15"
proof -
  have h: "pending (open_session App 0 demo_db) = []" "tenant_exists (working (open_session App 0 demo_db)) 1"
    "usage_ok (usage_row 1 ''ab'' ''openai'' ''gpt-4'' 10 5 False None (open_session App 0 demo_db))"
    by code_simp+
  show ?thesis
    using record_usage_accounts [OF h] by (auto simp: open_session_def demo_db_def empty_db_def)
qed

end
