(* ===== verification/Uuid_Parse.thy ===== *)
theory Uuid_Parse
  imports Uuid
begin

text \<open>
  \<open>uuid.UUID(text)\<close>, which reads the subject of an admin token: the constructor drops \<open>urn:\<close>,
  \<open>uuid:\<close>, braces and dashes, insists on 32 characters and hands them to \<open>int(_, 16)\<close>. It reads
  back what \<open>str\<close> prints.
\<close>

section \<open>Reading a hexadecimal integer\<close>

function remove_all :: "string \<Rightarrow> string \<Rightarrow> string" where
  "remove_all sub s =
     (if s = [] \<or> sub = [] then s
      else if starts_with s sub then remove_all sub (drop (length sub) s)
      else hd s # remove_all sub (tl s))"
  by pat_completeness auto
termination
  by (relation "measure (\<lambda>(sub, s). length s)") auto

declare remove_all.simps [simp del]

definition hex_value :: "char \<Rightarrow> nat option" where
  "hex_value c =
     (let n = (of_char c :: nat) in
      if 48 \<le> n \<and> n \<le> 57 then Some (n - 48)
      else if 97 \<le> n \<and> n \<le> 102 then Some (n - 87)
      else if 65 \<le> n \<and> n \<le> 70 then Some (n - 55) else None)"

text \<open>Digits with single underscores between them; \<open>after\<close> says whether a digit came just before.\<close>

fun hex_number :: "bool \<Rightarrow> nat \<Rightarrow> string \<Rightarrow> nat option" where
  "hex_number after acc [] = (if after then Some acc else None)"
| "hex_number after acc (c # cs) =
     (if c = CHR ''_'' then (if after then hex_number False acc cs else None)
      else (case hex_value c of None \<Rightarrow> None | Some d \<Rightarrow> hex_number True (16 * acc + d) cs))"

definition int_base16 :: "string \<Rightarrow> int option" where
  "int_base16 s =
     (let s = str_strip s;
          neg = starts_with s ''-'';
          s = (if neg \<or> starts_with s ''+'' then drop 1 s else s);
          hex = starts_with s ''0x'' \<or> starts_with s ''0X'';
          s = (if hex then drop 2 s else s);
          s = (if hex \<and> starts_with s ''_'' then drop 1 s else s)
      in map_option (\<lambda>n. if neg then - int n else int n) (hex_number False 0 s))"

definition strip_braces :: "string \<Rightarrow> string" where
  "strip_braces s =
     (let brace = (\<lambda>c. c = CHR ''{'' \<or> c = CHR ''}'')
      in rev (dropWhile brace (rev (dropWhile brace s))))"

definition uuid_of_str :: "string \<Rightarrow> uuid option" where
  "uuid_of_str s =
     (let h = remove_all ''uuid:'' (remove_all ''urn:'' s);
          h = filter (\<lambda>c. c \<noteq> CHR ''-'') (strip_braces h)
      in if length h \<noteq> 32 then None
         else (case int_base16 h of
                 None \<Rightarrow> None
               | Some n \<Rightarrow> if 0 \<le> n \<and> n < 2 ^ 128 then Some (of_int n) else None))"

section \<open>It reads what is printed\<close>

lemma remove_all_absent: "CHR '':'' \<notin> set s \<Longrightarrow> CHR '':'' \<in> set sub \<Longrightarrow> remove_all sub s = s"
proof (induction s)
  case Nil
  show ?case by (subst remove_all.simps) simp
next
  case (Cons c s)
  have "\<not> starts_with (c # s) sub" using Cons.prems by (metis UnI1 set_append starts_with_iff)
  then show ?case using Cons by (subst remove_all.simps) auto
qed

lemma hex_digit_facts:
  assumes "d < 16"
  shows "hex_value (hex_char d) = Some d" "hex_char d \<noteq> CHR ''_''" "\<not> is_space (hex_char d)"
    "hex_char d \<noteq> CHR ''x''" "hex_char d \<noteq> CHR ''X''" "hex_char d \<noteq> CHR ''-''" "hex_char d \<noteq> CHR ''+''"
proof -
  have "d \<in> {0, 1, 2, 3, 4, 5, 6, 7, 8, 9, 10, 11, 12, 13, 14, 15}" using assms by (simp add: numeral_eq_Suc less_Suc_eq)
  then show "hex_value (hex_char d) = Some d" "hex_char d \<noteq> CHR ''_''" "\<not> is_space (hex_char d)"
    "hex_char d \<noteq> CHR ''x''" "hex_char d \<noteq> CHR ''X''" "hex_char d \<noteq> CHR ''-''" "hex_char d \<noteq> CHR ''+''"
    by (auto simp: hex_char_def hex_value_def is_space_def)
qed

lemma hex_digits_chars: "c \<in> set (hex_digits k n) \<Longrightarrow> \<exists>d < 16. c = hex_char d"
proof (induction k arbitrary: n)
  case (Suc k)
  then show ?case by (auto intro: exI [of _ "n mod 16"])
qed simp

lemma hex_number_append:
  "hex_number a acc (hex_digits (Suc k) n) = Some (16 ^ Suc k * acc + n mod 16 ^ Suc k)"
  and hex_number_append0: "hex_number a acc (hex_digits k n @ cs) =
     hex_number (a \<or> k \<noteq> 0) (16 ^ k * acc + n mod 16 ^ k) cs"
proof -
  show app: "hex_number a acc (hex_digits k n @ cs) = hex_number (a \<or> k \<noteq> 0) (16 ^ k * acc + n mod 16 ^ k) cs"
    for a acc k n cs
  proof (induction k arbitrary: n cs)
    case (Suc k)
    have "16 * (16 ^ k * acc + n div 16 mod 16 ^ k) + n mod 16 = 16 ^ Suc k * acc + n mod 16 ^ Suc k"
      by (simp add: algebra_simps mod_mult2_eq)
    note eq = this
    have "hex_number a acc (hex_digits (Suc k) n @ cs) =
        hex_number True (16 * (16 ^ k * acc + n div 16 mod 16 ^ k) + n mod 16) cs"
      using Suc [of "n div 16" "hex_char (n mod 16) # cs"] by (simp add: hex_digit_facts)
    then show ?case unfolding eq by simp
  qed simp
  show "hex_number a acc (hex_digits (Suc k) n) = Some (16 ^ Suc k * acc + n mod 16 ^ Suc k)"
    using app [of a acc "Suc k" n "[]"] by simp
qed

lemma int_base16_hex_digits:
  assumes "n < 16 ^ Suc k" shows "int_base16 (hex_digits (Suc k) n) = Some (int n)"
proof -
  let ?h = "hex_digits (Suc k) n"
  have no: "\<not> starts_with ?h (x # y)" if "\<And>d. d < 16 \<Longrightarrow> hex_char d \<noteq> x" for x y
    using that hex_digits_chars [of x "Suc k" n] unfolding starts_with_iff
    by (metis append_Cons list.set_intros)
  have nox: "\<not> starts_with ?h [z, x]" if "\<And>d. d < 16 \<Longrightarrow> hex_char d \<noteq> x" for x z
    using that hex_digits_chars [of x "Suc k" n] unfolding starts_with_iff
    by (metis append_Cons list.set_intros)
  have "str_strip ?h = ?h"
    using hex_digits_chars [of _ "Suc k" n] hex_digit_facts(3) by (intro str_strip_id) (metis (no_types))
  then show ?thesis
    using no [of "CHR ''-''" "[]"] no [of "CHR ''+''" "[]"] nox [of "CHR ''x''" "CHR ''0''"] nox [of "CHR ''X''" "CHR ''0''"]
      hex_digit_facts assms hex_number_append [of False 0 k n]
    by (simp add: int_base16_def Let_def del: hex_digits.simps)
qed

lemma filter_dash_groups:
  assumes "length h = 32" "CHR ''-'' \<notin> set h" shows "filter (\<lambda>c. c \<noteq> CHR ''-'') (dash_groups h) = h"
proof -
  have step: "take a (drop b x) @ drop (a + b) x = drop b x" for a b and x :: string
    by (metis append_take_drop_id drop_drop)
  have split: "h = take 8 h @ take 4 (drop 8 h) @ take 4 (drop 12 h) @ take 4 (drop 16 h) @ drop 20 h"
    using step [of 4 8 h] step [of 4 12 h] step [of 4 16 h] by simp
  have keep: "filter (\<lambda>c. c \<noteq> CHR ''-'') x = x" if "set x \<subseteq> set h" for x
    using that assms(2) by (intro filter_True) auto
  have sub: "set (take a (drop b h)) \<subseteq> set h" "set (take a h) \<subseteq> set h" "set (drop b h) \<subseteq> set h" for a b
    by (auto dest: in_set_takeD in_set_dropD)
  show ?thesis by (simp add: dash_groups_def keep sub) (use split in simp)
qed

lemma uuid_of_str_uuid_str [simp]: "uuid_of_str (uuid_str u) = Some u"
proof -
  let ?h = "hex_digits 32 (unat u)"
  have dash: "CHR ''-'' \<notin> set ?h" using set_hex_digits [of 32 "unat u"] by auto
  have brace: "CHR ''{'' \<notin> set (uuid_str u)" "CHR ''}'' \<notin> set (uuid_str u)" using set_uuid_str [of u] by auto
  have "strip_braces (uuid_str u) = uuid_str u"
  proof -
    let ?b = "\<lambda>c. c = CHR ''{'' \<or> c = CHR ''}''"
    have "\<forall>c \<in> set (uuid_str u). \<not> ?b c" "\<forall>c \<in> set (rev (uuid_str u)). \<not> ?b c" using brace by auto
    then show ?thesis by (simp only: strip_braces_def Let_def dropWhile_none rev_rev_ident)
  qed
  moreover have "remove_all ''uuid:'' (remove_all ''urn:'' (uuid_str u)) = uuid_str u" by (simp add: remove_all_absent)
  moreover have "filter (\<lambda>c. c \<noteq> CHR ''-'') (uuid_str u) = ?h"
    unfolding uuid_str_def by (rule filter_dash_groups [OF length_hex_digits dash])
  moreover have lt: "unat u < 16 ^ 32" by (rule order_less_le_trans [OF unsigned_less]) simp
  moreover have "int_base16 ?h = Some (int (unat u))" using int_base16_hex_digits [of "unat u" 31] lt by simp
  moreover have "int (unat u) < 2 ^ 128" using lt by (simp flip: of_nat_less_iff [where ?'a = int])
  ultimately show ?thesis by (simp add: uuid_of_str_def Let_def)
qed

end
