(* ===== verification/Auth.thy ===== *)
theory Auth
  imports Security Ledger Uuid_Parse Provider_Errors
begin

text \<open>
  \<^verbatim>\<open>middleware/auth.py\<close> and \<^verbatim>\<open>middleware/admin_auth.py\<close>: from the \<open>Authorization\<close> header to a tenant's
  or an administrator's context. A handler returns its value or a failure: an HTTP error it
  raised, a database error, or an exception nobody caught.
\<close>

datatype failure = Http HTTPException | Db db_error | Uncaught exn

section \<open>Tenants\<close>

definition bearer_token :: "string option \<Rightarrow> string option" where
  "bearer_token header =
     (let auth_header = (case header of None \<Rightarrow> [] | Some h \<Rightarrow> h) in
      if \<not> starts_with (str_lower auth_header) ''bearer '' then None
      else Some (str_strip (snd (str_partition (CHR '' '') auth_header))))"

definition audit_and_raise ::
  "uuid option \<Rightarrow> string \<Rightarrow> string option \<Rightarrow> (string \<times> pyval) list \<Rightarrow> HTTPException \<Rightarrow> session
     \<Rightarrow> (failure, 'a) result \<times> session" where
  "audit_and_raise tid event_type correlation_id det err s =
     (case write_audit_event tid event_type correlation_id det s of
        (Inl e, s) \<Rightarrow> (Inl (Db e), s)
      | (Inr _, s) \<Rightarrow> (Inl (Http err), s))"

definition tenant_context :: "Tenant \<Rightarrow> ApiKey \<Rightarrow> TenantContext" where
  "tenant_context t k =
     \<lparr>tenant_id = t_id t, tenant_name = t_name t, api_key_id = ak_key_id k,
      monthly_budget_usd = t_monthly_budget_usd t, rate_limit_rpm = t_rate_limit_rpm t,
      rate_limit_tpm = t_rate_limit_tpm t, max_concurrent_requests = t_max_concurrent_requests t,
      pii_redaction_enabled = t_pii_redaction_enabled t, injection_detection_enabled = t_injection_detection_enabled t,
      injection_detection_threshold = t_injection_detection_threshold t,
      injection_detection_mode = t_injection_detection_mode t, cache_enabled = t_cache_enabled t\<rparr>"

definition get_current_tenant ::
  "crypto \<Rightarrow> string \<Rightarrow> string option \<Rightarrow> string option \<Rightarrow> session \<Rightarrow> (failure, TenantContext) result \<times> session" where
  "get_current_tenant K pepper header correlation_id s =
     (case bearer_token header of
        None \<Rightarrow> audit_and_raise None ''auth.failure'' correlation_id [(''reason'', PStr ''missing_bearer_token'')]
                  (UnauthorizedError ''Missing bearer token.'') s
      | Some presented_key \<Rightarrow>
     (case parse_api_key presented_key of
        None \<Rightarrow> audit_and_raise None ''auth.failure'' correlation_id [(''reason'', PStr ''malformed_api_key'')]
                  (UnauthorizedError ''Malformed API key.'') s
      | Some (key_id, secret_part) \<Rightarrow>
     (let s = set_rls_context None True s in
      case scalar_one_or_none (select_api_keys (\<lambda>k. ak_key_id k = key_id) s) of
        Inl e \<Rightarrow> (Inl (Db e), rollback s)
      | Inr None \<Rightarrow> audit_and_raise None ''auth.failure'' correlation_id
                  [(''reason'', PStr ''key_not_found''), (''key_id'', PStr key_id)] UnauthorizedError_default s
      | Inr (Some api_key) \<Rightarrow>
          if ak_revoked_at api_key \<noteq> None
          then audit_and_raise (Some (ak_tenant_id api_key)) ''auth.failure'' correlation_id
                  [(''reason'', PStr ''key_revoked''), (''key_id'', PStr key_id)] UnauthorizedError_default s
          else if \<not> verify_api_key_secret K secret_part pepper (ak_hashed_secret api_key)
          then audit_and_raise (Some (ak_tenant_id api_key)) ''auth.failure'' correlation_id
                  [(''reason'', PStr ''invalid_secret''), (''key_id'', PStr key_id)] UnauthorizedError_default s
          else
            let s = set_rls_context (Some (ak_tenant_id api_key)) False s in
            (case get_tenant_row (ak_tenant_id api_key) s of
               Some tenant \<Rightarrow>
                 if \<not> t_is_active tenant
                 then audit_and_raise (Some (ak_tenant_id api_key)) ''auth.failure'' correlation_id
                        [(''reason'', PStr ''tenant_inactive''), (''key_id'', PStr key_id)]
                        (UnauthorizedError ''Tenant is inactive.'') s
                 else
                   let s = session_add (Upd_api_key (api_key\<lparr>ak_last_used_at := Some (clock s)\<rparr>)) s in
                   (case commit s of
                      (Inl e, s) \<Rightarrow> (Inl (Db e), s)
                    | (Inr _, s) \<Rightarrow> (Inr (tenant_context tenant api_key), s))
             | None \<Rightarrow> audit_and_raise (Some (ak_tenant_id api_key)) ''auth.failure'' correlation_id
                        [(''reason'', PStr ''tenant_inactive''), (''key_id'', PStr key_id)]
                        (UnauthorizedError ''Tenant is inactive.'') s))))"

section \<open>Administrators\<close>

record AdminContext =
  ac_admin_id :: uuid
  ac_email :: string
  ac_is_superuser :: bool

definition plain_error :: "int \<Rightarrow> string \<Rightarrow> HTTPException" where
  "plain_error code message = \<lparr>status_code = code, detail = JStr message, headers = []\<rparr>"

definition get_current_admin ::
  "crypto \<Rightarrow> string \<Rightarrow> string \<Rightarrow> rat \<Rightarrow> string option \<Rightarrow> session \<Rightarrow> (failure, AdminContext) result \<times> session" where
  "get_current_admin K jwt_secret jwt_algorithm now header s =
     (case bearer_token header of
        None \<Rightarrow> (Inl (Http (plain_error 401 ''Missing bearer token.'')), s)
      | Some token \<Rightarrow>
     (case decode_admin_jwt K now token jwt_secret jwt_algorithm of
        None \<Rightarrow> (Inl (Http (plain_error 401 ''Invalid or expired admin token.'')), s)
      | Some payload \<Rightarrow>
     (case map_of payload ''sub'' of
        None \<Rightarrow> (Inl (Http (plain_error 401 ''Malformed admin token.'')), s)
      | Some (JStr sub) \<Rightarrow>
          (case uuid_of_str sub of
             None \<Rightarrow> (Inl (Http (plain_error 401 ''Malformed admin token.'')), s)
           | Some admin_id \<Rightarrow>
               let s = set_rls_context None True s in
               (case get_admin_row admin_id s of
                  None \<Rightarrow> (Inl (Http (plain_error 401 ''Admin account no longer exists.'')), s)
                | Some admin \<Rightarrow>
                    (Inr \<lparr>ac_admin_id = au_id admin, ac_email = au_email admin, ac_is_superuser = au_is_superuser admin\<rparr>, s)))
      | Some JNull \<Rightarrow> (Inl (Uncaught (Other_exn ''TypeError'')), s)
      | Some _ \<Rightarrow> (Inl (Uncaught (Other_exn ''AttributeError'')), s))))"

section \<open>What authentication decides\<close>

text \<open>
  The decision as a function of the committed tables alone: whom to reject, with which audit
  detail and which error, or which key and tenant to accept.
\<close>

definition auth_decision ::
  "crypto \<Rightarrow> string \<Rightarrow> string option \<Rightarrow> db \<Rightarrow> (uuid option \<times> (string \<times> pyval) list \<times> HTTPException) + (Tenant \<times> ApiKey)" where
  "auth_decision K pepper header d =
     (case bearer_token header of
        None \<Rightarrow> Inl (None, [(''reason'', PStr ''missing_bearer_token'')], UnauthorizedError ''Missing bearer token.'')
      | Some tok \<Rightarrow>
     (case parse_api_key tok of
        None \<Rightarrow> Inl (None, [(''reason'', PStr ''malformed_api_key'')], UnauthorizedError ''Malformed API key.'')
      | Some (key_id, sec) \<Rightarrow>
     (case List.find (\<lambda>k. ak_key_id k = key_id) (api_keys d) of
        None \<Rightarrow> Inl (None, [(''reason'', PStr ''key_not_found''), (''key_id'', PStr key_id)], UnauthorizedError_default)
      | Some k \<Rightarrow>
          let reject = (\<lambda>why err. Inl (Some (ak_tenant_id k), [(''reason'', PStr why), (''key_id'', PStr key_id)], err)) in
          if ak_revoked_at k \<noteq> None then reject ''key_revoked'' UnauthorizedError_default
          else if \<not> verify_api_key_secret K sec pepper (ak_hashed_secret k) then reject ''invalid_secret'' UnauthorizedError_default
          else (case List.find (\<lambda>t. t_id t = ak_tenant_id k) (tenants d) of
                  None \<Rightarrow> reject ''tenant_inactive'' (UnauthorizedError ''Tenant is inactive.'')
                | Some t \<Rightarrow> if t_is_active t then Inr (t, k)
                           else reject ''tenant_inactive'' (UnauthorizedError ''Tenant is inactive.'')))))"

definition db_ok :: "db \<Rightarrow> bool" where
  "db_ok d \<longleftrightarrow> distinct (map t_id (tenants d)) \<and> distinct (map ak_id (api_keys d)) \<and> distinct (map ak_key_id (api_keys d))
     \<and> list_all (\<lambda>k. tenant_exists d (ak_tenant_id k)) (api_keys d)"

definition touched :: "ApiKey \<Rightarrow> session \<Rightarrow> session" where
  "touched k s =
     (let d = (working s)\<lparr>api_keys := replace_by ak_id (k\<lparr>ak_last_used_at := Some (clock s)\<rparr>) (api_keys (working s))\<rparr>
      in s\<lparr>committed := d, working := d, pending := [], guc_tenant := [], guc_bypass := []\<rparr>)"

lemma set_rls_context_twice [simp]: "set_rls_context c b (set_rls_context c' b' s) = set_rls_context c b s"
  by (simp add: set_rls_context_def)

lemma write_audit_event_context [simp]:
  "write_audit_event tid ev cid det (set_rls_context c b s) = write_audit_event tid ev cid det s"
  by (simp add: write_audit_event_def)

lemma audit_and_raise_context [simp]:
  "audit_and_raise tid ev cid det err (set_rls_context c b s) = audit_and_raise tid ev cid det err s"
  by (simp add: audit_and_raise_def)

lemma filter_distinct_key:
  "distinct (map f xs) \<Longrightarrow> scalar_one_or_none (filter (\<lambda>x. f x = a) xs) = Inr (List.find (\<lambda>x. f x = a) xs)"
proof (induction xs)
  case (Cons x xs)
  show ?case
  proof (cases "f x = a")
    case True
    then have "filter (\<lambda>x. f x = a) xs = []" using Cons.prems by (auto simp: filter_empty_conv image_iff)
    with True show ?thesis by simp
  qed (use Cons in auto)
qed simp

lemma commit_touch:
  assumes "pending s = []" "k \<in> set (api_keys (working s))"
  shows "commit (session_add (Upd_api_key (k\<lparr>ak_last_used_at := Some (clock s)\<rparr>)) (set_rls_context (Some (ak_tenant_id k)) False s))
       = (Inr (), touched k s)"
proof -
  let ?k = "k\<lparr>ak_last_used_at := Some (clock s)\<rparr>"
  let ?s = "session_add (Upd_api_key ?k) (set_rls_context (Some (ak_tenant_id k)) False s)"
  have p: "pending ?s = [Upd_api_key ?k]" using assms(1) by simp
  have v: "visible ?s (Some (ak_tenant_id k))" by (simp add: visible_context)
  have ex: "list_ex (\<lambda>r. ak_id r = ak_id ?k \<and> visible ?s (Some (ak_tenant_id r))) (api_keys (working ?s))"
    using assms(2) v by (auto simp: list_ex_iff)
  have "exec_stmt ?s (Upd_api_key ?k) =
      Inr (?s\<lparr>working := (working ?s)\<lparr>api_keys := replace_by ak_id ?k (api_keys (working ?s))\<rparr>\<rparr>)"
    unfolding exec_stmt.simps using ex v by simp
  from commit_one [OF p this] show ?thesis
    by (simp add: touched_def Let_def session_add_def set_rls_context_def)
qed

lemma find_in_set: "List.find P xs = Some x \<Longrightarrow> x \<in> set xs \<and> P x"
  by (auto simp: find_Some_iff)

lemma get_current_tenant_eval:
  assumes "pending s = []" "db_ok (working s)"
  shows "get_current_tenant K pepper header cid s =
     (case auth_decision K pepper header (working s) of
        Inl (tid, det, err) \<Rightarrow> audit_and_raise tid ''auth.failure'' cid det err s
      | Inr (t, k) \<Rightarrow> (Inr (tenant_context t k), touched k s))"
proof -
  have sel: "scalar_one_or_none (select_api_keys (\<lambda>k. ak_key_id k = i) (set_rls_context None True s))
      = Inr (List.find (\<lambda>k. ak_key_id k = i) (api_keys (working s)))" for i
    using assms(2) filter_distinct_key by (auto simp: select_api_keys_def db_ok_def)
  have touch: "commit (session_add (Upd_api_key (k\<lparr>ak_last_used_at := Some (clock s)\<rparr>)) (set_rls_context (Some (ak_tenant_id k)) False s))
       = (Inr (), touched k s)" if "List.find (\<lambda>k. ak_key_id k = i) (api_keys (working s)) = Some k" for k i
    using commit_touch [OF assms(1)] find_in_set [OF that] by simp
  show ?thesis
    unfolding get_current_tenant_def auth_decision_def
    by (auto simp: sel touch Let_def get_tenant_row_def split: option.split)
qed

lemma find_distinct:
  "distinct (map f xs) \<Longrightarrow> List.find (\<lambda>x. f x = a) xs = Some x \<longleftrightarrow> x \<in> set xs \<and> f x = a"
  by (induction xs) (auto simp: image_iff)

lemma auth_decision_accepts_iff:
  assumes "db_ok d"
  shows "auth_decision K pepper header d = Inr (t, k) \<longleftrightarrow>
     (\<exists>sec. map_option parse_api_key (bearer_token header) = Some (Some (ak_key_id k, sec))
        \<and> k \<in> set (api_keys d) \<and> ak_revoked_at k = None \<and> hmac_sha256 K pepper sec = ak_hashed_secret k
        \<and> t \<in> set (tenants d) \<and> t_id t = ak_tenant_id k \<and> t_is_active t)"
proof -
  have dk: "distinct (map ak_key_id (api_keys d))" and dt: "distinct (map t_id (tenants d))"
    using assms by (simp_all add: db_ok_def)
  show ?thesis (is "?l \<longleftrightarrow> ?r")
  proof
    assume ?l
    then obtain tok i sec where tok: "bearer_token header = Some tok" "parse_api_key tok = Some (i, sec)"
      and k: "List.find (\<lambda>k. ak_key_id k = i) (api_keys d) = Some k" "ak_revoked_at k = None"
        "verify_api_key_secret K sec pepper (ak_hashed_secret k)"
      and t: "List.find (\<lambda>t. t_id t = ak_tenant_id k) (tenants d) = Some t" "t_is_active t"
      by (auto simp: auth_decision_def Let_def split: option.splits if_splits prod.splits)
    then show ?r
      using find_in_set [OF k(1)] find_in_set [OF t(1)]
      by (auto simp: verify_api_key_secret_def hash_api_key_secret_def)
  next
    assume ?r
    then obtain tok sec where tok: "bearer_token header = Some tok" "parse_api_key tok = Some (ak_key_id k, sec)"
      and k: "k \<in> set (api_keys d)" "ak_revoked_at k = None" "hmac_sha256 K pepper sec = ak_hashed_secret k"
      and t: "t \<in> set (tenants d)" "t_id t = ak_tenant_id k" "t_is_active t" by auto
    have "List.find (\<lambda>j. ak_key_id j = ak_key_id k) (api_keys d) = Some k" "List.find (\<lambda>u. t_id u = ak_tenant_id k) (tenants d) = Some t"
      using k(1) t(1,2) find_distinct [OF dk] find_distinct [OF dt] by blast+
    then show ?l using tok k(2,3) t(3)
      by (simp add: auth_decision_def Let_def verify_api_key_secret_def hash_api_key_secret_def)
  qed
qed

lemma auth_decision_rejects:
  assumes "db_ok d" "auth_decision K pepper header d = Inl (tid, det, err)"
  shows "status_code err = 401 \<and> error_code (detail err) = Some ''invalid_api_key''
       \<and> (\<exists>j. json_of (PDict det) = Some j) \<and> (case tid of None \<Rightarrow> True | Some t \<Rightarrow> tenant_exists d t)"
proof -
  have fk: "tenant_exists d (ak_tenant_id k)" if "List.find (\<lambda>k. ak_key_id k = i) (api_keys d) = Some k" for k i
    using assms(1) find_in_set [OF that] by (auto simp: db_ok_def list_all_iff)
  show ?thesis
    using assms(2) fk
    by (auto simp: auth_decision_def Let_def UnauthorizedError_def UnauthorizedError_default_def
        split: option.splits if_splits prod.splits)
qed

text \<open>
  C3. A request is authenticated exactly when its bearer token parses into the id of an API key
  that is stored and not revoked and a secret whose keyed hash is the stored one, and the key's
  tenant is active; the context is then that tenant's row and key, and apart from the key's
  last-used time the tables are unchanged.
\<close>

theorem auth_accepts_iff:
  assumes "pending s = []" "db_ok (working s)"
  shows "((\<exists>s'. get_current_tenant K pepper header cid s = (Inr ctx, s')) \<longleftrightarrow>
           (\<exists>t k sec. map_option parse_api_key (bearer_token header) = Some (Some (ak_key_id k, sec))
              \<and> k \<in> set (api_keys (working s)) \<and> ak_revoked_at k = None
              \<and> hmac_sha256 K pepper sec = ak_hashed_secret k
              \<and> t \<in> set (tenants (working s)) \<and> t_id t = ak_tenant_id k \<and> t_is_active t
              \<and> ctx = tenant_context t k))
       \<and> (\<forall>s'. get_current_tenant K pepper header cid s = (Inr ctx, s') \<longrightarrow>
           (\<exists>k \<in> set (api_keys (working s)). ak_key_id k = api_key_id ctx
              \<and> committed s' = (working s)\<lparr>api_keys := replace_by ak_id (k\<lparr>ak_last_used_at := Some (clock s)\<rparr>) (api_keys (working s))\<rparr>))"
proof -
  have never: "audit_and_raise tid ev cid det err s \<noteq> (Inr ctx, s')" for tid ev det err s'
    by (auto simp: audit_and_raise_def split: prod.splits sum.splits)
  have acc: "get_current_tenant K pepper header cid s = (Inr ctx, s') \<longleftrightarrow>
      (\<exists>t k. auth_decision K pepper header (working s) = Inr (t, k) \<and> ctx = tenant_context t k \<and> s' = touched k s)" for s'
    unfolding get_current_tenant_eval [OF assms] using never by (auto split: sum.splits prod.splits)
  have "(\<exists>s'. get_current_tenant K pepper header cid s = (Inr ctx, s')) \<longleftrightarrow>
      (\<exists>t k. auth_decision K pepper header (working s) = Inr (t, k) \<and> ctx = tenant_context t k)"
    unfolding acc by blast
  moreover have "\<exists>k \<in> set (api_keys (working s)). ak_key_id k = api_key_id ctx
      \<and> committed s' = (working s)\<lparr>api_keys := replace_by ak_id (k\<lparr>ak_last_used_at := Some (clock s)\<rparr>) (api_keys (working s))\<rparr>"
    if "get_current_tenant K pepper header cid s = (Inr ctx, s')" for s'
    using that unfolding acc auth_decision_accepts_iff [OF assms(2)]
    by (auto simp: touched_def Let_def tenant_context_def)
  ultimately show ?thesis unfolding auth_decision_accepts_iff [OF assms(2)] by blast
qed

text \<open>
  C22. No failed authentication goes unrecorded, as long as the correlation id fits its column: the
  client gets a 401 in OpenAI's shape and the log has gained exactly one \<open>auth.failure\<close> row, with
  the key's tenant when the key is known. With a correlation id of more than 64 characters, which
  the client sets, the failure is not recorded and the request ends in an uncaught database error.
\<close>

theorem auth_failure_audited:
  assumes "pending s = []" "db_ok (working s)" "committed s = working s"
    and "auth_decision K pepper header (working s) = Inl (tid, det, err)"
  shows "if fits_opt 64 cid
         then \<exists>row. fst (get_current_tenant K pepper header cid s) = Inl (Http err) \<and> status_code err = 401
            \<and> committed (snd (get_current_tenant K pepper header cid s)) =
                (committed s)\<lparr>audit_log := audit_log (committed s) @ [row]\<rparr>
            \<and> al_event_type row = ''auth.failure'' \<and> al_tenant_id row = tid \<and> al_correlation_id row = cid
         else fst (get_current_tenant K pepper header cid s) = Inl (Db DataError)
            \<and> committed (snd (get_current_tenant K pepper header cid s)) = committed s"
proof -
  from auth_decision_rejects [OF assms(2,4)] obtain j where r: "status_code err = 401" "json_of (PDict det) = Some j"
    "case tid of None \<Rightarrow> True | Some t \<Rightarrow> tenant_exists (working s) t" by blast
  have ev: "fits 64 ''auth.failure''" by (simp add: fits_def)
  have eval: "get_current_tenant K pepper header cid s = audit_and_raise tid ''auth.failure'' cid det err s"
    unfolding get_current_tenant_eval [OF assms(1,2)] assms(4) by simp
  show ?thesis
  proof (cases "fits_opt 64 cid")
    case True
    let ?row = "audit_row tid ''auth.failure'' cid j s"
    have "al_event_type ?row = ''auth.failure''" "al_tenant_id ?row = tid" "al_correlation_id ?row = cid"
      by (simp_all add: audit_row_def)
    then show ?thesis
      using write_audit_event_eval [OF assms(1) r(2) ev True r(3)] True r(1) assms(3)
      by (auto simp: eval audit_and_raise_def audited_def Let_def intro!: exI [of _ ?row])
  next
    case False
    show ?thesis
      using write_audit_event_too_long [OF assms(1) r(2) False] False
      by (simp add: eval audit_and_raise_def rollback_def)
  qed
qed

definition demo_key :: ApiKey where
  "demo_key = \<lparr>ak_id = 9, ak_tenant_id = 1, ak_key_id = ''00ab'', ak_hashed_secret = ''p:s'', ak_name = ''k'',
     ak_scopes = [], ak_created_at = 0, ak_revoked_at = None, ak_last_used_at = None\<rparr>"

definition demo_session :: session where
  "demo_session = open_session App 0 (demo_db\<lparr>api_keys := [demo_key]\<rparr>)"

theorem auth_accepts_iff_witness:
  "\<exists>s'. get_current_tenant demo_crypto ''p'' (Some ''Bearer agk_live_00ab.s'') None demo_session
     = (Inr (tenant_context demo_row demo_key), s')"
proof -
  have h: "pending demo_session = []" "db_ok (working demo_session)" by code_simp+
  have k: "map_option parse_api_key (bearer_token (Some ''Bearer agk_live_00ab.s'')) = Some (Some (ak_key_id demo_key, ''s''))"
    by code_simp
  have "demo_key \<in> set (api_keys (working demo_session))" "ak_revoked_at demo_key = None"
    "hmac_sha256 demo_crypto ''p'' ''s'' = ak_hashed_secret demo_key" "demo_row \<in> set (tenants (working demo_session))"
    "t_id demo_row = ak_tenant_id demo_key" "t_is_active demo_row"
    by (simp_all add: demo_session_def demo_key_def demo_row_def demo_db_def open_session_def demo_crypto_def)
  with k show ?thesis
    unfolding auth_accepts_iff [OF h, of demo_crypto "''p''" "Some ''Bearer agk_live_00ab.s''" None "tenant_context demo_row demo_key", THEN conjunct1]
    by blast
qed

theorem auth_failure_audited_witness:
  "\<exists>row. committed (snd (get_current_tenant demo_crypto ''p'' None None demo_session))
     = (committed demo_session)\<lparr>audit_log := [row]\<rparr> \<and> al_event_type row = ''auth.failure''"
proof -
  have h: "pending demo_session = []" "db_ok (working demo_session)" "committed demo_session = working demo_session"
    by (code_simp, code_simp, simp add: demo_session_def open_session_def)
  have d: "auth_decision demo_crypto ''p'' None (working demo_session)
      = Inl (None, [(''reason'', PStr ''missing_bearer_token'')], UnauthorizedError ''Missing bearer token.'')"
    by (simp add: auth_decision_def bearer_token_def str_lower_def starts_with_def)
  have "audit_log (committed demo_session) = []" by (simp add: demo_session_def open_session_def demo_db_def empty_db_def)
  with auth_failure_audited [OF h d, of None] show ?thesis by (auto simp: fits_opt_def)
qed

end
