(* ===== verification/Proxy.thy ===== *)
theory Proxy
  imports Slots Provider_Calls Token_Counter Idempotency Cache Pii Prompt_Injection Auth
begin

text \<open>
  \<^verbatim>\<open>api/proxy.py\<close>: the chat-completions endpoint, non-streaming and streaming, with everything it
  changes: the Redis server, the database session, the providers' breakers and the counters. The
  environment of one request (\<open>env\<close>) holds the libraries and the outside world as arguments; a
  streaming response is run to its end, or to the point where the client goes away.
\<close>

section \<open>State and environment\<close>

record 's gateway =
  g_redis :: 's
  g_session :: session
  g_providers :: "string \<rightharpoonup> OpenAICompatibleProvider"
  g_metrics :: "metric list"

record 's env =
  e_redis :: "'s redis_api"
  e_codec :: codec
  e_tiktoken :: tiktoken
  e_pii :: PiiRedactor
  e_detector :: PromptInjectionDetector
  e_embed :: embed_client
  e_upstream :: upstream
  e_month :: string
  e_cache_ttl :: int
  e_unix_time :: int
  e_client_reads :: "nat option"

datatype response =
    Json_response rval "(string \<times> string) list"
  | Sse_response "string list" "failure option"

text \<open>An absent header and an empty one are alike falsy.\<close>

definition truthy :: "string option \<Rightarrow> string option" where
  "truthy k = (case k of Some (c # cs) \<Rightarrow> Some (c # cs) | _ \<Rightarrow> None)"

definition unlock :: "'s env \<Rightarrow> TenantContext \<Rightarrow> string option \<Rightarrow> 's gateway \<Rightarrow> 's gateway" where
  "unlock E tenant key g =
     (case key of None \<Rightarrow> g | Some k \<Rightarrow> g\<lparr>g_redis := release_lock (e_redis E) (tenant_id tenant) k (g_redis g)\<rparr>)"

definition free_slot :: "'s env \<Rightarrow> TenantContext \<Rightarrow> 's gateway \<Rightarrow> 's gateway" where
  "free_slot E tenant g = g\<lparr>g_redis := release_concurrency_slot (e_redis E) (tenant_id tenant) (g_redis g)\<rparr>"

definition count_metrics :: "metric list \<Rightarrow> 's gateway \<Rightarrow> 's gateway" where
  "count_metrics ms g = g\<lparr>g_metrics := g_metrics g @ ms\<rparr>"

section \<open>Helpers\<close>

definition ping :: "TenantContext \<Rightarrow> (string \<times> string) list" where
  "ping tenant = [(''status'', ''ok''), (''tenant'', tenant_name tenant), (''api_key_id'', api_key_id tenant)]"

definition choice_text :: "json \<Rightarrow> string list" where
  "choice_text choice =
     (case jget ''message'' choice of
        Some (JObj m) \<Rightarrow> (case map_of m ''content'' of Some (JStr t) \<Rightarrow> [t] | _ \<Rightarrow> [])
      | _ \<Rightarrow> [])"

definition completion_text :: "json list \<Rightarrow> string" where
  "completion_text cs = concat (concat (map choice_text cs))"

definition rate_limit_http_exception :: "string \<Rightarrow> string \<Rightarrow> int option \<Rightarrow> HTTPException" where
  "rate_limit_http_exception code message retry_after =
     \<lparr>status_code = 429, detail = openai_error message ''rate_limit_error'' code,
      headers = (case retry_after of
                   Some n \<Rightarrow> if n \<noteq> 0 then [(''Retry-After'', int_str n)] else []
                 | None \<Rightarrow> [])\<rparr>"

section \<open>The security pipeline\<close>

fun mode_str :: "injection_mode \<Rightarrow> string" where
  "mode_str Block = ''block''"
| "mode_str Log = ''log''"

text \<open>\<open>round(score, 3)\<close>.\<close>

definition round3 :: "real \<Rightarrow> rat" where
  "round3 x =
     (let y = x * 1000; f = \<lfloor>y\<rfloor>; d = y - of_int f in
      of_int (if d < 1 / 2 then f else if d > 1 / 2 then f + 1 else if even f then f else f + 1) / 1000)"

definition user_text :: "ChatMessage list \<Rightarrow> string" where
  "user_text msgs =
     str_join [CHR 0x0A] (concat (map (\<lambda>m. case content m of
        CText t \<Rightarrow> if role m = ''user'' then [t] else [] | _ \<Rightarrow> []) msgs))"

definition injection_error :: HTTPException where
  "injection_error =
     \<lparr>status_code = 403,
      detail = openai_error ''Request flagged as a likely prompt injection attempt.'' ''invalid_request_error''
                 ''prompt_injection_detected'',
      headers = []\<rparr>"

definition audit_in_request ::
  "TenantContext \<Rightarrow> string \<Rightarrow> string option \<Rightarrow> (string \<times> pyval) list \<Rightarrow> 's gateway \<Rightarrow> (failure, unit) result \<times> 's gateway" where
  "audit_in_request tenant event_type cid det g =
     (case write_audit_event (Some (tenant_id tenant)) event_type cid det (g_session g) of
        (Inl e, s) \<Rightarrow> (Inl (Db e), g\<lparr>g_session := s\<rparr>)
      | (Inr _, s) \<Rightarrow> (Inr (), g\<lparr>g_session := s\<rparr>))"

definition redaction_step ::
  "'s env \<Rightarrow> TenantContext \<Rightarrow> string option \<Rightarrow> ChatMessage list \<Rightarrow> 's gateway
     \<Rightarrow> (failure, ChatMessage list) result \<times> 's gateway" where
  "redaction_step E tenant cid msgs g =
     (if \<not> pii_redaction_enabled tenant then (Inr msgs, g)
      else
        let (msgs, types) = redact_messages (e_pii E) msgs in
        if types = [] then (Inr msgs, g)
        else
          (case audit_in_request tenant ''pii.redacted'' cid [(''entity_types'', PList (map PStr types))]
                  (count_metrics [Pii_redactions_total] g) of
             (Inl f, g) \<Rightarrow> (Inl f, g)
           | (Inr _, g) \<Rightarrow> (Inr msgs, g)))"

definition injection_step ::
  "'s env \<Rightarrow> TenantContext \<Rightarrow> string option \<Rightarrow> ChatMessage list \<Rightarrow> 's gateway \<Rightarrow> (failure, unit) result \<times> 's gateway" where
  "injection_step E tenant cid msgs g =
     (if \<not> injection_detection_enabled tenant then (Inr (), g)
      else case detect (e_embed E) (e_detector E) (user_text msgs) of
        Inl e \<Rightarrow> (Inl (Uncaught e), g)
      | Inr verdict \<Rightarrow>
          if score verdict \<ge> of_rat (injection_detection_threshold tenant) then
            let blocked = (injection_detection_mode tenant = Block);
                g = count_metrics [Injection_detections_total (injection_detection_mode tenant)] g in
            (case audit_in_request tenant (if blocked then ''injection.blocked'' else ''injection.detected'') cid
                    [(''score'', PFloat (round3 (score verdict))),
                     (''matched_heuristic'', PBool (matched_heuristic verdict)),
                     (''matched_embedding'', PBool (matched_embedding verdict)),
                     (''mode'', PStr (mode_str (injection_detection_mode tenant)))] g of
               (Inl f, g) \<Rightarrow> (Inl f, g)
             | (Inr _, g) \<Rightarrow> if blocked then (Inl (Http injection_error), g) else (Inr (), g))
          else (Inr (), g))"

definition run_security_pipeline ::
  "'s env \<Rightarrow> TenantContext \<Rightarrow> string option \<Rightarrow> ChatCompletionRequest \<Rightarrow> 's gateway
     \<Rightarrow> (failure, ChatCompletionRequest) result \<times> 's gateway" where
  "run_security_pipeline E tenant cid body g =
     (case redaction_step E tenant cid (messages body) g of
        (Inl f, g) \<Rightarrow> (Inl f, g)
      | (Inr msgs, g) \<Rightarrow>
          (case injection_step E tenant cid msgs g of
             (Inl f, g) \<Rightarrow> (Inl f, g)
           | (Inr _, g) \<Rightarrow> (Inr (body\<lparr>messages := msgs\<rparr>), g)))"

section \<open>Streaming\<close>

definition sse_event :: "string \<Rightarrow> string" where
  "sse_event d = ''data: '' @ d @ [CHR 0x0A, CHR 0x0A]"

definition DONE_EVENT :: string where
  "DONE_EVENT = sse_event ''[DONE]''"

definition record_usage_in ::
  "TenantContext \<Rightarrow> string \<Rightarrow> string \<Rightarrow> int \<Rightarrow> int \<Rightarrow> bool \<Rightarrow> string option \<Rightarrow> 's gateway \<Rightarrow> (failure, unit) result \<times> 's gateway" where
  "record_usage_in tenant prov m p c hit cid g =
     (case record_usage (tenant_id tenant) (api_key_id tenant) prov m p c hit cid (g_session g) of
        (Inl e, s, _) \<Rightarrow> (Inl (Db e), g\<lparr>g_session := s\<rparr>)
      | (Inr _, s, ms) \<Rightarrow> (Inr (), count_metrics ms (g\<lparr>g_session := s\<rparr>)))"

text \<open>The events a client that reads \<open>reads\<close> events gets (all of them when it stays).\<close>

definition delivered :: "nat option \<Rightarrow> string list \<Rightarrow> string list" where
  "delivered reads evs = (case reads of None \<Rightarrow> evs | Some n \<Rightarrow> take n evs)"

definition cached_chunk :: "ChatCompletionResponse \<Rightarrow> json" where
  "cached_chunk resp =
     JObj [(''id'', JStr (resp_id resp)), (''object'', JStr ''chat.completion.chunk''),
           (''created'', JInt (resp_created resp)), (''model'', JStr (resp_model resp)),
           (''choices'', JList [JObj [(''index'', JInt 0),
              (''delta'', JObj [(''role'', JStr ''assistant''), (''content'', JStr (completion_text (choices resp)))]),
              (''finish_reason'', JStr ''stop'')]])]"

definition stream_cached_completion ::
  "'s env \<Rightarrow> ChatCompletionResponse \<Rightarrow> TenantContext \<Rightarrow> string \<Rightarrow> string option \<Rightarrow> string option \<Rightarrow> 's gateway \<Rightarrow> response \<times> 's gateway" where
  "stream_cached_completion E resp tenant prov cid key g =
     (let evs = delivered (e_client_reads E) [sse_event (dumps (float_repr (e_codec E)) (cached_chunk resp)), DONE_EVENT];
          (r, g) = (case usage resp of
                      None \<Rightarrow> (Inr (), g)
                    | Some u \<Rightarrow> record_usage_in tenant prov (resp_model resp) (u_prompt_tokens u) (u_completion_tokens u) True cid g)
      in case r of
           Inl f \<Rightarrow> (Sse_response evs (Some f), g)
         | Inr _ \<Rightarrow> (Sse_response evs None, unlock E tenant key g))"

text \<open>
  The text parts of one chunk. A chunk that is not an object, or whose \<open>choices\<close> is a number, makes
  the loop raise; iterating over a string or an object yields no dict.
\<close>

definition delta_text :: "json \<Rightarrow> string list" where
  "delta_text choice =
     (case jget ''delta'' choice of
        Some (JObj m) \<Rightarrow> (case map_of m ''content'' of Some (JStr t) \<Rightarrow> [t] | _ \<Rightarrow> [])
      | _ \<Rightarrow> [])"

definition chunk_parts :: "json \<Rightarrow> (exn, string list) result" where
  "chunk_parts chunk =
     (case chunk of
        JObj kvs \<Rightarrow>
          (case map_of kvs ''choices'' of
             Some (JList cs) \<Rightarrow> Inr (concat (map delta_text cs))
           | Some (JInt i) \<Rightarrow> if i = 0 then Inr [] else Inl (Other_exn ''TypeError'')
           | Some (JNum x) \<Rightarrow> if x = 0 then Inr [] else Inl (Other_exn ''TypeError'')
           | Some (JBool True) \<Rightarrow> Inl (Other_exn ''TypeError'')
           | _ \<Rightarrow> Inr [])
      | _ \<Rightarrow> Inl (Other_exn ''AttributeError''))"

datatype relay_end = Exhausted | Client_gone | Loop_raised exn

fun relay :: "(json \<Rightarrow> string) \<Rightarrow> nat option \<Rightarrow> json list \<Rightarrow> string list \<times> string list \<times> relay_end" where
  "relay dump reads [] = ([], [], Exhausted)"
| "relay dump reads (c # cs) =
     (case chunk_parts c of
        Inl e \<Rightarrow> ([], [], Loop_raised e)
      | Inr ps \<Rightarrow>
          if reads = Some 0 then (ps, [], Client_gone)
          else
            let (qs, evs, fin) = relay dump (map_option (\<lambda>n. n - 1) reads) cs
            in (ps @ qs, sse_event (dump c) # evs, fin))"

definition cacheable :: "'s env \<Rightarrow> uuid \<Rightarrow> string \<Rightarrow> string \<Rightarrow> int \<Rightarrow> int \<Rightarrow> ChatCompletionResponse" where
  "cacheable E u m t p c =
     \<lparr>resp_id = ''chatcmpl-cache-'' @ hex_digits 32 (unat u), resp_object = ''chat.completion'',
      resp_created = e_unix_time E, resp_model = m,
      choices = [JObj [(''index'', JInt 0),
                       (''message'', JObj [(''role'', JStr ''assistant''), (''content'', JStr t)]),
                       (''finish_reason'', JStr ''stop'')]],
      usage = Some \<lparr>u_prompt_tokens = p, u_completion_tokens = c, u_total_tokens = p + c, u_extra = []\<rparr>,
      resp_extra = []\<rparr>"

text \<open>The \<open>finally\<close> block: accounting, caching, and the release of the slot and the lock.\<close>

definition stream_finally ::
  "'s env \<Rightarrow> ChatCompletionRequest \<Rightarrow> TenantContext \<Rightarrow> string \<Rightarrow> int \<Rightarrow> string option \<Rightarrow> string option \<Rightarrow> string option
     \<Rightarrow> bool \<Rightarrow> string \<Rightarrow> 's gateway \<Rightarrow> (failure, unit) result \<times> 's gateway" where
  "stream_finally E body tenant prov prompt_tokens key cache_key cid succeeded full g =
     (let g = count_metrics (Provider_call_duration_seconds prov (if succeeded then ''success'' else ''error'')
                # (if succeeded then [] else [Chat_completions_total prov ''error''])) g;
          completion_tokens = count_text_tokens (e_tiktoken E) full (model body);
          (r, g) = (if succeeded
                    then record_usage_in tenant prov (model body) prompt_tokens completion_tokens False cid g
                    else (Inr (), g))
      in case r of
           Inl f \<Rightarrow> (Inl f, g)
         | Inr _ \<Rightarrow>
             let g = (case cache_key of
                        Some ck \<Rightarrow>
                          if succeeded \<and> full \<noteq> [] then
                            let s = g_session g;
                                resp = cacheable E (uuid4 s (drawn s)) (model body) full prompt_tokens completion_tokens
                            in g\<lparr>g_session := s\<lparr>drawn := drawn s + 1\<rparr>,
                                 g_redis := store_cached_completion (e_codec E) (e_redis E) ck resp (e_cache_ttl E) (g_redis g)\<rparr>
                          else g
                      | None \<Rightarrow> g);
                 g = free_slot E tenant g
             in (Inr (), unlock E tenant key g))"

text \<open>
  How the generator ends: whether it counts as a success, what it yields last, and what escapes it.
  Only a \<open>ProviderError\<close> is caught; when the client goes away or another exception is raised,
  \<open>succeeded\<close> keeps its initial value.
\<close>

definition stream_verdict :: "(json \<Rightarrow> string) \<Rightarrow> relay_end \<Rightarrow> exn option \<Rightarrow> bool \<times> string list \<times> exn option" where
  "stream_verdict dump fin err =
     (case fin of
        Client_gone \<Rightarrow> (True, [], None)
      | Loop_raised e \<Rightarrow> (True, [], Some e)
      | Exhausted \<Rightarrow>
          (case err of
             None \<Rightarrow> (True, [DONE_EVENT], None)
           | Some (Provider_exn e) \<Rightarrow>
               (False, [sse_event (dump (openai_error (provider_error_str e) ''upstream_error'' ''provider_error''))], None)
           | Some e \<Rightarrow> (True, [], Some e)))"

definition stream_chat_completion_sse ::
  "'s env \<Rightarrow> OpenAICompatibleProvider \<Rightarrow> ChatCompletionRequest \<Rightarrow> TenantContext \<Rightarrow> int \<Rightarrow> string option \<Rightarrow> string option
     \<Rightarrow> string option \<Rightarrow> 's gateway \<Rightarrow> response \<times> 's gateway" where
  "stream_chat_completion_sse E provider body tenant prompt_tokens key cache_key cid g =
     (let ((chunks, err), provider') = stream_chat_completion (e_upstream E) body provider;
          g = g\<lparr>g_providers := (g_providers g)(p_name provider \<mapsto> provider')\<rparr>;
          dump = dumps (float_repr (e_codec E));
          (parts, evs, fin) = relay dump (e_client_reads E) chunks;
          (succeeded, last_events, raised) = stream_verdict dump fin err;
          (r, g) = stream_finally E body tenant (p_name provider) prompt_tokens key cache_key cid succeeded (concat parts) g
      in (Sse_response (delivered (e_client_reads E) (evs @ last_events))
            (case r of Inl f \<Rightarrow> Some f | Inr _ \<Rightarrow> map_option Uncaught raised), g))"

section \<open>The endpoint\<close>

definition idempotency_error :: HTTPException where
  "idempotency_error =
     \<lparr>status_code = 409,
      detail = openai_error ''A request with this Idempotency-Key is already in progress.'' ''invalid_request_error''
                 ''idempotency_key_in_use'',
      headers = []\<rparr>"

definition unknown_model_error :: "(string \<rightharpoonup> OpenAICompatibleProvider) \<Rightarrow> string \<Rightarrow> HTTPException" where
  "unknown_model_error providers m =
     \<lparr>status_code = 400,
      detail = openai_error
        (''no provider configured to handle model '' @ quoted m @ '' (known: ['' @
           str_join '', '' (map quoted (filter (\<lambda>n. providers n \<noteq> None) [''ollama'', ''openai''])) @ ''])'')
        ''invalid_request_error'' ''model_not_found'',
      headers = []\<rparr>"

definition concurrency_error :: "TenantContext \<Rightarrow> HTTPException" where
  "concurrency_error tenant =
     \<lparr>status_code = 429,
      detail = openai_error (''Too many concurrent requests (limit '' @ int_str (max_concurrent_requests tenant) @ '').'')
                 ''rate_limit_error'' ''concurrency_limit_exceeded'',
      headers = [(''Retry-After'', ''1'')]\<rparr>"

text \<open>From the limits to a held slot; the prompt is counted before redaction.\<close>

definition admission ::
  "'s env \<Rightarrow> TenantContext \<Rightarrow> string \<Rightarrow> ChatCompletionRequest \<Rightarrow> string option \<Rightarrow> 's gateway \<Rightarrow> (failure, unit) result \<times> 's gateway" where
  "admission E tenant prov body key g =
     (let prompt_tokens = count_prompt_tokens (e_tiktoken E) (messages body) (model body) in
      case enforce_request_limits (e_redis E) tenant prov (model body) prompt_tokens (e_month E) (g_redis g) of
        (Inl (RateLimitExceeded code message retry_after), r) \<Rightarrow>
          (Inl (Http (rate_limit_http_exception code message retry_after)),
           unlock E tenant key (count_metrics [Rate_limit_rejections_total code, Chat_completions_total prov ''rate_limited'']
             (g\<lparr>g_redis := r\<rparr>)))
      | (Inl ResponseError, r) \<Rightarrow> (Inl (Uncaught (Other_exn ''ResponseError'')), g\<lparr>g_redis := r\<rparr>)
      | (Inr _, r) \<Rightarrow>
          (case acquire_concurrency_slot (e_redis E) (tenant_id tenant) (max_concurrent_requests tenant) r of
             (False, r) \<Rightarrow>
               (Inl (Http (concurrency_error tenant)),
                unlock E tenant key (count_metrics [Rate_limit_rejections_total ''concurrency_limit_exceeded'',
                    Chat_completions_total prov ''rate_limited''] (g\<lparr>g_redis := r\<rparr>)))
           | (True, r) \<Rightarrow> (Inr (), g\<lparr>g_redis := r\<rparr>)))"

text \<open>Only an \<open>HTTPException\<close> out of the pipeline gives the slot and the lock back.\<close>

definition secured ::
  "'s env \<Rightarrow> TenantContext \<Rightarrow> string \<Rightarrow> string option \<Rightarrow> ChatCompletionRequest \<Rightarrow> string option \<Rightarrow> 's gateway
     \<Rightarrow> (failure, ChatCompletionRequest) result \<times> 's gateway" where
  "secured E tenant prov cid body key g =
     (case run_security_pipeline E tenant cid body g of
        (Inl (Http e), g) \<Rightarrow>
          (Inl (Http e), unlock E tenant key (free_slot E tenant (count_metrics [Chat_completions_total prov ''blocked''] g)))
      | (Inl f, g) \<Rightarrow> (Inl f, g)
      | (Inr body, g) \<Rightarrow> (Inr body, g))"

definition finish_json ::
  "'s env \<Rightarrow> TenantContext \<Rightarrow> string option \<Rightarrow> ChatCompletionResponse \<Rightarrow> string \<Rightarrow> 's gateway \<Rightarrow> (failure, response) result \<times> 's gateway" where
  "finish_json E tenant key resp cache_header g =
     (let response_json = model_dump_json (e_codec E) resp;
          g = (case key of None \<Rightarrow> g
               | Some k \<Rightarrow> g\<lparr>g_redis := store_response (e_redis E) (tenant_id tenant) k response_json (g_redis g)\<rparr>)
      in (Inr (Json_response (Text response_json) [(''X-Cache'', cache_header)]), unlock E tenant key g))"

definition cache_hit ::
  "'s env \<Rightarrow> TenantContext \<Rightarrow> string \<Rightarrow> string option \<Rightarrow> ChatCompletionRequest \<Rightarrow> string option \<Rightarrow> ChatCompletionResponse
     \<Rightarrow> 's gateway \<Rightarrow> (failure, response) result \<times> 's gateway" where
  "cache_hit E tenant prov cid body key resp g =
     (let g = free_slot E tenant (count_metrics [Cache_lookups_total ''hit''] g) in
      if stream body then
        (let (r, g) = stream_cached_completion E resp tenant prov cid key g in (Inr r, g))
      else
        (case (case usage resp of
                 None \<Rightarrow> (Inr (), g)
               | Some u \<Rightarrow> record_usage_in tenant prov (model body) (u_prompt_tokens u) (u_completion_tokens u) True cid g) of
           (Inl f, g) \<Rightarrow> (Inl f, g)
         | (Inr _, g) \<Rightarrow> finish_json E tenant key resp ''hit'' g))"

definition fill_usage :: "'s env \<Rightarrow> ChatCompletionRequest \<Rightarrow> int \<Rightarrow> ChatCompletionResponse \<Rightarrow> Usage" where
  "fill_usage E body prompt_tokens resp =
     (case usage resp of
        Some u \<Rightarrow> u
      | None \<Rightarrow>
          let c = count_text_tokens (e_tiktoken E) (completion_text (choices resp)) (model body)
          in \<lparr>u_prompt_tokens = prompt_tokens, u_completion_tokens = c, u_total_tokens = prompt_tokens + c, u_extra = []\<rparr>)"

definition call_provider ::
  "'s env \<Rightarrow> TenantContext \<Rightarrow> OpenAICompatibleProvider \<Rightarrow> string option \<Rightarrow> ChatCompletionRequest \<Rightarrow> int \<Rightarrow> string option
     \<Rightarrow> string option \<Rightarrow> 's gateway \<Rightarrow> (failure, response) result \<times> 's gateway" where
  "call_provider E tenant provider cid body prompt_tokens key cache_key g =
     (let prov = p_name provider;
          (r, provider') = chat_completion (e_upstream E) body provider;
          g = g\<lparr>g_providers := (g_providers g)(prov \<mapsto> provider')\<rparr> in
      case r of
        Inl (Provider_exn e) \<Rightarrow>
          (Inl (Http (provider_error_to_http_exception e)),
           free_slot E tenant (unlock E tenant key (count_metrics
             [Provider_call_duration_seconds prov ''error'', Chat_completions_total prov ''error''] g)))
      | Inl e \<Rightarrow> (Inl (Uncaught e), free_slot E tenant g)
      | Inr resp \<Rightarrow>
          let g = count_metrics [Provider_call_duration_seconds prov ''success''] (free_slot E tenant g);
              u = fill_usage E body prompt_tokens resp;
              resp = resp\<lparr>usage := Some u\<rparr>;
              g = (case cache_key of None \<Rightarrow> g
                   | Some ck \<Rightarrow> g\<lparr>g_redis := store_cached_completion (e_codec E) (e_redis E) ck resp (e_cache_ttl E) (g_redis g)\<rparr>) in
          (case record_usage_in tenant prov (model body) (u_prompt_tokens u) (u_completion_tokens u) False cid g of
             (Inl f, g) \<Rightarrow> (Inl f, g)
           | (Inr _, g) \<Rightarrow> finish_json E tenant key resp ''miss'' g))"

definition answer ::
  "'s env \<Rightarrow> TenantContext \<Rightarrow> OpenAICompatibleProvider \<Rightarrow> string option \<Rightarrow> ChatCompletionRequest \<Rightarrow> int \<Rightarrow> string option
     \<Rightarrow> 's gateway \<Rightarrow> (failure, response) result \<times> 's gateway" where
  "answer E tenant provider cid body prompt_tokens key g =
     (let cache_key = (if cache_enabled tenant then Some (compute_cache_key (e_codec E) (tenant_id tenant) body) else None) in
      case (case cache_key of None \<Rightarrow> Inr None | Some ck \<Rightarrow> get_cached_completion (e_codec E) (e_redis E) ck (g_redis g)) of
        Inl e \<Rightarrow> (Inl (Uncaught (Other_exn e)), g)
      | Inr (Some resp) \<Rightarrow> cache_hit E tenant (p_name provider) cid body key resp g
      | Inr None \<Rightarrow>
          let g = (if cache_key \<noteq> None then count_metrics [Cache_lookups_total ''miss''] g else g) in
          if stream body then
            (let (r, g) = stream_chat_completion_sse E provider body tenant prompt_tokens key cache_key cid g in (Inr r, g))
          else call_provider E tenant provider cid body prompt_tokens key cache_key g)"

text \<open>The replay lookup (non-streaming requests only) and the lock of the idempotency key.\<close>

definition stored_reply :: "'s env \<Rightarrow> TenantContext \<Rightarrow> string option \<Rightarrow> ChatCompletionRequest \<Rightarrow> 's gateway \<Rightarrow> rval option" where
  "stored_reply E tenant key body g =
     (case key of
        Some k \<Rightarrow> if \<not> stream body then get_cached_response (e_redis E) (tenant_id tenant) k (g_redis g) else None
      | None \<Rightarrow> None)"

definition take_lock :: "'s env \<Rightarrow> TenantContext \<Rightarrow> string option \<Rightarrow> 's gateway \<Rightarrow> bool \<times> 's gateway" where
  "take_lock E tenant key g =
     (case key of
        None \<Rightarrow> (True, g)
      | Some k \<Rightarrow> (case try_acquire_lock (e_redis E) (tenant_id tenant) k (g_redis g) of
                   (acquired, r) \<Rightarrow> (acquired, g\<lparr>g_redis := r\<rparr>)))"

definition chat_completions ::
  "'s env \<Rightarrow> TenantContext \<Rightarrow> string option \<Rightarrow> string option \<Rightarrow> ChatCompletionRequest \<Rightarrow> 's gateway
     \<Rightarrow> (failure, response) result \<times> 's gateway" where
  "chat_completions E tenant idempotency_key cid body g =
     (let key = truthy idempotency_key in
      case stored_reply E tenant key body g of
        Some cached \<Rightarrow> (Inr (Json_response cached [(''Idempotency-Replayed'', ''true'')]), g)
      | None \<Rightarrow>
      (case take_lock E tenant key g of
        (False, g) \<Rightarrow> (Inl (Http idempotency_error), g)
      | (True, g) \<Rightarrow>
      (case resolve (g_providers g) (model body) of
        None \<Rightarrow> (Inl (Http (unknown_model_error (g_providers g) (model body))), unlock E tenant key g)
      | Some provider \<Rightarrow>
      (let prompt_tokens = count_prompt_tokens (e_tiktoken E) (messages body) (model body) in
      case admission E tenant (p_name provider) body key g of
        (Inl f, g) \<Rightarrow> (Inl f, g)
      | (Inr _, g) \<Rightarrow>
      (case secured E tenant (p_name provider) cid body key g of
        (Inl f, g) \<Rightarrow> (Inl f, g)
      | (Inr body, g) \<Rightarrow> answer E tenant provider cid body prompt_tokens key g)))))"

text \<open>The ways through the endpoint.\<close>

lemma chat_completions_cases [consumes 1, case_names replayed in_use unknown refused blocked answered]:
  assumes "chat_completions E tenant idem cid body g = (r, g')"
  obtains v where "stored_reply E tenant (truthy idem) body g = Some v"
      "r = Inr (Json_response v [(''Idempotency-Replayed'', ''true'')])" "g' = g"
  | "stored_reply E tenant (truthy idem) body g = None" "take_lock E tenant (truthy idem) g = (False, g')"
      "r = Inl (Http idempotency_error)"
  | g0 where "stored_reply E tenant (truthy idem) body g = None" "take_lock E tenant (truthy idem) g = (True, g0)"
      "resolve (g_providers g0) (model body) = None"
      "r = Inl (Http (unknown_model_error (g_providers g0) (model body)))" "g' = unlock E tenant (truthy idem) g0"
  | provider g0 f where "stored_reply E tenant (truthy idem) body g = None" "take_lock E tenant (truthy idem) g = (True, g0)"
      "resolve (g_providers g0) (model body) = Some provider"
      "admission E tenant (p_name provider) body (truthy idem) g0 = (Inl f, g')" "r = Inl f"
  | provider g0 g1 f where "stored_reply E tenant (truthy idem) body g = None" "take_lock E tenant (truthy idem) g = (True, g0)"
      "resolve (g_providers g0) (model body) = Some provider"
      "admission E tenant (p_name provider) body (truthy idem) g0 = (Inr (), g1)"
      "secured E tenant (p_name provider) cid body (truthy idem) g1 = (Inl f, g')" "r = Inl f"
  | provider g0 g1 g2 body' where "stored_reply E tenant (truthy idem) body g = None" "take_lock E tenant (truthy idem) g = (True, g0)"
      "resolve (g_providers g0) (model body) = Some provider"
      "admission E tenant (p_name provider) body (truthy idem) g0 = (Inr (), g1)"
      "secured E tenant (p_name provider) cid body (truthy idem) g1 = (Inr body', g2)"
      "answer E tenant provider cid body' (count_prompt_tokens (e_tiktoken E) (messages body) (model body))
         (truthy idem) g2 = (r, g')"
proof -
  obtain ok g0 where lk: "take_lock E tenant (truthy idem) g = (ok, g0)" by fastforce
  show thesis
  proof (cases "stored_reply E tenant (truthy idem) body g")
    case (Some v)
    show thesis by (rule that(1) [OF Some]) (use assms Some in \<open>simp_all add: chat_completions_def Let_def\<close>)
  next
    case none: None
    show thesis
    proof (cases "resolve (g_providers g0) (model body)")
      case nr: None
      show thesis
      proof (cases ok)
        case True
        show thesis
          by (rule that(3) [of g0]) (use True assms none lk nr in \<open>simp_all add: chat_completions_def Let_def\<close>)
      next
        case False
        show thesis
          by (rule that(2)) (use False assms none lk in \<open>simp_all add: chat_completions_def Let_def\<close>)
      qed
    next
      case p: (Some provider)
      obtain a g1 where a: "admission E tenant (p_name provider) body (truthy idem) g0 = (a, g1)" by fastforce
      obtain b g2 where b: "secured E tenant (p_name provider) cid body (truthy idem) g1 = (b, g2)" by fastforce
      note go = chat_completions_def [of E tenant idem cid body g, unfolded Let_def none lk assms]
      consider "\<not> ok" | f where "ok" "a = Inl f" | "ok" "a = Inr ()" by (cases a) auto
      then show thesis
      proof cases
        case 1
        show thesis by (rule that(2)) (use 1 assms none lk in \<open>simp_all add: chat_completions_def Let_def\<close>)
      next
        case (2 f)
        show thesis by (rule that(4) [of g0 provider f]) (use go none lk p a 2 in simp_all)
      next
        case 3
        show thesis
        proof (cases b)
          case (Inl f)
          show thesis by (rule that(5) [of g0 provider g1 f]) (use go none lk p a b 3 Inl in simp_all)
        next
          case (Inr body')
          show thesis by (rule that(6) [of g0 provider g1 body' g2]) (use go none lk p a b 3 Inr in simp_all)
        qed
      qed
    qed
  qed
qed

lemma chat_completions_reaches_answer:
  assumes "stored_reply E tenant (truthy idem) body g = None" "take_lock E tenant (truthy idem) g = (True, g0)"
    "resolve (g_providers g0) (model body) = Some provider"
    "admission E tenant (p_name provider) body (truthy idem) g0 = (Inr (), g1)"
    "secured E tenant (p_name provider) cid body (truthy idem) g1 = (Inr body', g2)"
  shows "chat_completions E tenant idem cid body g =
    answer E tenant provider cid body' (count_prompt_tokens (e_tiktoken E) (messages body) (model body)) (truthy idem) g2"
  using assms by (simp add: chat_completions_def Let_def)

lemma secured_without_detection:
  assumes "\<not> injection_detection_enabled tenant" "redaction_step E tenant cid (messages body) g = (Inr msgs, g')"
  shows "secured E tenant prov cid body key g = (Inr (body\<lparr>messages := msgs\<rparr>), g')"
  using assms by (simp add: secured_def run_security_pipeline_def injection_step_def)

end
