(* ===== verification/Proxy_Resources.thy ===== *)
theory Proxy_Resources
  imports Proxy
begin

text \<open>
  What one chat-completions request does to Redis. \<open>endpoint_services\<close> is the contract under which
  the endpoint uses the limiter, the slots, the locks and the stores: \<open>holds n L s\<close> says that in the
  server state \<open>s\<close> the tenant's slot counter reads \<open>n\<close> and exactly the idempotency keys in \<open>L\<close> are
  locked. The endpoint's bookkeeping is proved once from that contract; \<open>redis_gateway\<close> shows that
  the services over any Redis server meet it.
\<close>

section \<open>Keys of a tenant\<close>

definition owned_by :: "uuid \<Rightarrow> string \<Rightarrow> bool" where
  "owned_by t j \<longleftrightarrow>
     j = rpm_bucket_key t \<or> j = tpm_bucket_key t \<or> j = concurrency_key t
     \<or> starts_with j (''budget:'' @ uuid_str t @ '':'')
     \<or> starts_with j (''idempotency:'' @ uuid_str t @ '':'')
     \<or> starts_with j (''cache:completion:'' @ uuid_str t @ '':'')"

definition services_at ::
  "TenantContext \<Rightarrow> string \<Rightarrow> keyspace \<Rightarrow> int \<Rightarrow> (string \<Rightarrow> bool) \<Rightarrow> keyspace \<Rightarrow> bool" where
  "services_at tenant month ks0 n L ks \<longleftrightarrow>
     (let t = tenant_id tenant in
      bucket_at ks (rpm_bucket_key t) \<noteq> None \<and> bucket_at ks (tpm_bucket_key t) \<noteq> None
      \<and> budget_at ks (budget_key t month) \<noteq> None \<and> counter_at ks (concurrency_key t) = Some n
      \<and> (\<forall>k. (ks (lock_key t k) \<noteq> None) = L k) \<and> (\<forall>j. \<not> owned_by t j \<longrightarrow> ks j = ks0 j))"

lemma starts_with_Cons [simp]: "starts_with (x # s) (y # p) \<longleftrightarrow> x = y \<and> starts_with s p"
  "starts_with s []"
  by (auto simp: starts_with_def)

lemma starts_with_shared [simp]: "starts_with (p @ s) (p @ q) \<longleftrightarrow> starts_with s q"
  by (simp add: starts_with_def)

lemma owned_keys [simp]:
  "owned_by t (rpm_bucket_key t)" "owned_by t (tpm_bucket_key t)" "owned_by t (concurrency_key t)"
  "owned_by t (budget_key t m)" "owned_by t (lock_key t k)" "owned_by t (response_key t k)"
  "owned_by t (compute_cache_key C t b)"
  by (auto simp: owned_by_def budget_key_def lock_key_def response_key_def compute_cache_key_def Let_def)

lemma owned_by_inj: "owned_by t j \<Longrightarrow> owned_by u j \<Longrightarrow> t = u"
  by (auto simp: owned_by_def rpm_bucket_key_def tpm_bucket_key_def concurrency_key_def starts_with_iff
      uuid_str_append_inj)

section \<open>What the endpoint relies on\<close>

locale endpoint_services =
  fixes E :: "'s env" and tenant :: TenantContext and holds :: "int \<Rightarrow> (string \<Rightarrow> bool) \<Rightarrow> 's \<Rightarrow> bool"
  assumes limits_ok: "holds n L s \<Longrightarrow> fst (enforce_request_limits (e_redis E) tenant p m toks (e_month E) s) \<noteq> Inl ResponseError"
    and limits_at: "holds n L s \<Longrightarrow> holds n L (snd (enforce_request_limits (e_redis E) tenant p m toks (e_month E) s))"
    and slot_granted: "holds n L s \<Longrightarrow>
      fst (acquire_concurrency_slot (e_redis E) (tenant_id tenant) limit s) \<longleftrightarrow> n < limit"
    and slot_at: "holds n L s \<Longrightarrow>
      holds (if n < limit then n + 1 else n) L (snd (acquire_concurrency_slot (e_redis E) (tenant_id tenant) limit s))"
    and slot_free_at: "holds n L s \<Longrightarrow> holds (n - 1) L (release_concurrency_slot (e_redis E) (tenant_id tenant) s)"
    and lock_granted: "holds n L s \<Longrightarrow> fst (try_acquire_lock (e_redis E) (tenant_id tenant) k s) \<longleftrightarrow> \<not> L k"
    and lock_at: "holds n L s \<Longrightarrow> holds n (L(k := True)) (snd (try_acquire_lock (e_redis E) (tenant_id tenant) k s))"
    and unlock_at: "holds n L s \<Longrightarrow> holds n (L(k := False)) (release_lock (e_redis E) (tenant_id tenant) k s)"
    and response_at: "holds n L s \<Longrightarrow> holds n L (store_response (e_redis E) (tenant_id tenant) k j s)"
    and cached_at: "holds n L s \<Longrightarrow>
      holds n L (store_cached_completion C (e_redis E) (compute_cache_key C (tenant_id tenant) b) r (e_cache_ttl E) s)"

text \<open>
  An outcome after which the endpoint owes nothing: an answer, an HTTP error, or a stream whose
  \<open>finally\<close> block ran to its end.
\<close>

fun settled :: "(failure, response) result \<Rightarrow> bool" where
  "settled (Inl (Http _)) = True"
| "settled (Inl _) = False"
| "settled (Inr (Json_response _ _)) = True"
| "settled (Inr (Sse_response _ (Some (Db _)))) = False"
| "settled (Inr (Sse_response _ _)) = True"

fun unlocked :: "string option \<Rightarrow> (string \<Rightarrow> bool) \<Rightarrow> string \<Rightarrow> bool" where
  "unlocked None L = L"
| "unlocked (Some k) L = L(k := False)"

lemma count_metrics_simps [simp]:
  "g_redis (count_metrics ms g) = g_redis g" "g_session (count_metrics ms g) = g_session g"
  "g_providers (count_metrics ms g) = g_providers g"
  by (simp_all add: count_metrics_def)

lemma unlock_simps [simp]:
  "g_session (unlock E tenant key g) = g_session g" "g_providers (unlock E tenant key g) = g_providers g"
  by (simp_all add: unlock_def split: option.splits)

lemma free_slot_simps [simp]:
  "g_session (free_slot E tenant g) = g_session g" "g_providers (free_slot E tenant g) = g_providers g"
  by (simp_all add: free_slot_def)

text \<open>The accounting and auditing steps change the session and the counters only.\<close>

lemma audit_in_request_frame:
  "audit_in_request tenant ev cid det g = (r, g') \<Longrightarrow> g_redis g' = g_redis g \<and> g_providers g' = g_providers g"
  by (auto simp: audit_in_request_def split: prod.splits sum.splits)

lemma record_usage_in_frame:
  "record_usage_in tenant prov m p c hit cid g = (r, g') \<Longrightarrow> g_redis g' = g_redis g \<and> g_providers g' = g_providers g"
  by (auto simp: record_usage_in_def split: prod.splits sum.splits)

lemma record_usage_in_Db: "record_usage_in tenant prov m p c hit cid g = (Inl f, g') \<Longrightarrow> \<exists>e. f = Db e"
  by (auto simp: record_usage_in_def split: prod.splits sum.splits)

lemma redaction_step_frame:
  "redaction_step E tenant cid msgs g = (r, g') \<Longrightarrow> g_redis g' = g_redis g \<and> g_providers g' = g_providers g"
  by (fastforce simp: redaction_step_def Let_def dest: audit_in_request_frame split: prod.splits sum.splits if_splits)

lemma injection_step_frame:
  "injection_step E tenant cid msgs g = (r, g') \<Longrightarrow> g_redis g' = g_redis g \<and> g_providers g' = g_providers g"
  by (fastforce simp: injection_step_def Let_def dest: audit_in_request_frame split: prod.splits sum.splits if_splits)

lemma pipeline_frame:
  "run_security_pipeline E tenant cid body g = (r, g') \<Longrightarrow> g_redis g' = g_redis g \<and> g_providers g' = g_providers g"
  by (fastforce simp: run_security_pipeline_def dest: redaction_step_frame injection_step_frame
      split: prod.splits sum.splits)

section \<open>The books of a request\<close>

context endpoint_services
begin

lemma free_slot_holds: "holds n L (g_redis g) \<Longrightarrow> holds (n - 1) L (g_redis (free_slot E tenant g))"
  by (simp add: free_slot_def slot_free_at)

lemma unlock_holds: "holds n L (g_redis g) \<Longrightarrow> holds n (unlocked key L) (g_redis (unlock E tenant key g))"
  by (cases key) (simp_all add: unlock_def unlock_at)

lemma admission_books:
  assumes "holds n L (g_redis g)" and "admission E tenant prov body key g = (r, g')"
  shows "(case r of Inl f \<Rightarrow> (\<exists>e. f = Http e) \<and> holds n (unlocked key L) (g_redis g')
          | Inr _ \<Rightarrow> holds (n + 1) L (g_redis g'))"
proof -
  let ?toks = "count_prompt_tokens (e_tiktoken E) (messages body) (model body)"
  let ?lim = "max_concurrent_requests tenant"
  obtain q s where q: "enforce_request_limits (e_redis E) tenant prov (model body) ?toks (e_month E) (g_redis g) = (q, s)"
    by fastforce
  have h: "q \<noteq> Inl ResponseError" "holds n L s"
    using limits_ok [OF assms(1), of prov "model body" ?toks] limits_at [OF assms(1), of prov "model body" ?toks]
    by (simp_all add: q)
  obtain b s2 where b: "acquire_concurrency_slot (e_redis E) (tenant_id tenant) ?lim s = (b, s2)" by fastforce
  have h2: "b \<longleftrightarrow> n < ?lim" "holds (if n < ?lim then n + 1 else n) L s2"
    using slot_granted [OF h(2), of ?lim] slot_at [OF h(2), of ?lim] by (simp_all add: b)
  show ?thesis
    using assms(2) h h2 unlock_holds
    by (auto simp: admission_def Let_def q b split: sum.splits limit_error.splits bool.splits)
qed

lemma secured_books:
  assumes "holds n L (g_redis g)" and "secured E tenant prov cid body key g = (r, g')"
  shows "(case r of Inl (Http e) \<Rightarrow> holds (n - 1) (unlocked key L) (g_redis g') | _ \<Rightarrow> holds n L (g_redis g'))"
proof -
  obtain q g1 where q: "run_security_pipeline E tenant cid body g = (q, g1)" by fastforce
  have h: "holds n L (g_redis g1)" using pipeline_frame [OF q] assms(1) by simp
  have "holds (n - 1) (unlocked key L) (g_redis (unlock E tenant key (free_slot E tenant (count_metrics ms g1))))" for ms
    by (intro unlock_holds free_slot_holds) (simp add: h)
  then show ?thesis using assms(2) h by (auto simp: secured_def q split: sum.splits failure.splits)
qed

lemma finish_json_books:
  assumes "holds n L (g_redis g)" and "finish_json E tenant key resp hdr g = (r, g')"
  shows "holds n (unlocked key L) (g_redis g') \<and> settled r"
  using assms by (cases key) (auto simp: finish_json_def Let_def unlock_def unlock_at response_at)

text \<open>
  From a held slot: a settled outcome has given the slot and the lock back, any other may keep
  either.
\<close>

definition closes :: "int \<Rightarrow> (string \<Rightarrow> bool) \<Rightarrow> string option \<Rightarrow> (failure, response) result \<Rightarrow> 's gateway \<Rightarrow> bool" where
  "closes n L key r g' \<longleftrightarrow>
     (if settled r then holds n (unlocked key L) (g_redis g')
      else (\<exists>m. holds m L (g_redis g') \<and> (m = n \<or> m = n + 1)))"

lemma stream_cached_books:
  assumes "holds n L (g_redis g)" and "stream_cached_completion E resp tenant prov cid key g = (r, g')"
  shows "closes n L key (Inr r) g'"
proof -
  define evs where "evs = delivered (e_client_reads E)
     [sse_event (dumps (float_repr (e_codec E)) (cached_chunk resp)), DONE_EVENT]"
  obtain q g1 where q: "(case usage resp of None \<Rightarrow> (Inr (), g)
      | Some u \<Rightarrow> record_usage_in tenant prov (resp_model resp) (u_prompt_tokens u) (u_completion_tokens u) True cid g) = (q, g1)"
    by fastforce
  have "g_redis g1 = g_redis g" "\<And>f. q = Inl f \<Longrightarrow> \<exists>e. f = Db e"
    using q by (auto split: option.splits dest: record_usage_in_frame record_usage_in_Db)
  then show ?thesis
    using assms unlock_holds [of n L g1 key]
    by (auto simp: stream_cached_completion_def Let_def q closes_def evs_def [symmetric] split: sum.splits)
qed

lemma cache_hit_books:
  assumes "holds (n + 1) L (g_redis g)" and "cache_hit E tenant prov cid body key resp g = (r, g')"
  shows "closes n L key r g'"
proof -
  define g0 where "g0 = free_slot E tenant (count_metrics [Cache_lookups_total ''hit''] g)"
  have h: "holds n L (g_redis g0)" using free_slot_holds [of "n + 1" L "count_metrics ms g" for ms] assms(1) by (simp add: g0_def)
  obtain q g1 where q: "(case usage resp of None \<Rightarrow> (Inr (), g0)
      | Some u \<Rightarrow> record_usage_in tenant prov (model body) (u_prompt_tokens u) (u_completion_tokens u) True cid g0) = (q, g1)"
    by fastforce
  have "g_redis g1 = g_redis g0" "\<And>f. q = Inl f \<Longrightarrow> \<exists>e. f = Db e"
    using q by (auto split: option.splits dest: record_usage_in_frame record_usage_in_Db)
  then show ?thesis
    using assms(2) h finish_json_books [of n L g1 key resp "''hit''" r g'] stream_cached_books [OF h]
    by (auto simp: cache_hit_def Let_def g0_def [symmetric] q closes_def split: sum.splits prod.splits if_splits)
qed

lemma stream_finally_books:
  assumes "holds (n + 1) L (g_redis g)" and "cache_key \<in> {None, Some (compute_cache_key (e_codec E) (tenant_id tenant) b)}"
    and "stream_finally E body tenant prov toks key cache_key cid ok txt g = (r, g')"
  shows "(case r of Inl f \<Rightarrow> (\<exists>e. f = Db e) \<and> holds (n + 1) L (g_redis g') | Inr _ \<Rightarrow> holds n (unlocked key L) (g_redis g'))"
proof -
  define c where "c = count_text_tokens (e_tiktoken E) txt (model body)"
  define g0 where "g0 = count_metrics (Provider_call_duration_seconds prov (if ok then ''success'' else ''error'')
      # (if ok then [] else [Chat_completions_total prov ''error''])) g"
  obtain q g1 where q: "(if ok then record_usage_in tenant prov (model body) toks c False cid g0 else (Inr (), g0)) = (q, g1)"
    by fastforce
  have g1: "g_redis g1 = g_redis g" "\<And>f. q = Inl f \<Longrightarrow> \<exists>e. f = Db e"
    using q by (auto simp: g0_def split: if_splits dest: record_usage_in_frame record_usage_in_Db)
  define stored where "stored = (case cache_key of
      Some ck \<Rightarrow>
        if ok \<and> txt \<noteq> [] then
          let s = g_session g1; resp = cacheable E (uuid4 s (drawn s)) (model body) txt toks c
          in g1\<lparr>g_session := s\<lparr>drawn := drawn s + 1\<rparr>,
               g_redis := store_cached_completion (e_codec E) (e_redis E) ck resp (e_cache_ttl E) (g_redis g1)\<rparr>
        else g1
    | None \<Rightarrow> g1)"
  have "holds (n + 1) L (g_redis stored)"
    using assms(1,2) by (auto simp: stored_def g1(1) Let_def cached_at)
  then have released: "holds n (unlocked key L) (g_redis (unlock E tenant key (free_slot E tenant stored)))"
    using free_slot_holds [of "n + 1" L stored] unlock_holds by simp
  show ?thesis
    using assms(1,3) g1 released
    by (auto simp: stream_finally_def Let_def c_def [symmetric] g0_def [symmetric] q
        stored_def [symmetric] split: sum.splits)
qed

lemma stream_sse_books:
  assumes "holds (n + 1) L (g_redis g)" and "cache_key \<in> {None, Some (compute_cache_key (e_codec E) (tenant_id tenant) b)}"
    and "stream_chat_completion_sse E provider body tenant toks key cache_key cid g = (r, g')"
  shows "closes n L key (Inr r) g'"
proof -
  obtain chunks err p' where st: "stream_chat_completion (e_upstream E) body provider = ((chunks, err), p')"
    by (metis prod.exhaust)
  define g0 where "g0 = g\<lparr>g_providers := (g_providers g)(p_name provider \<mapsto> p')\<rparr>"
  have h: "holds (n + 1) L (g_redis g0)" using assms(1) by (simp add: g0_def)
  note fin = stream_finally_books [OF h assms(2), of body "p_name provider" toks key cid]
  obtain parts evs fin where rl: "relay (dumps (float_repr (e_codec E))) (e_client_reads E) chunks = (parts, evs, fin)"
    by (metis prod.exhaust)
  obtain ok lst raised where v: "stream_verdict (dumps (float_repr (e_codec E))) fin err = (ok, lst, raised)"
    by (metis prod.exhaust)
  obtain q g1 where q: "stream_finally E body tenant (p_name provider) toks key cache_key cid ok (concat parts) g0 = (q, g1)"
    by fastforce
  have "r = Sse_response (delivered (e_client_reads E) (evs @ lst)) (case q of Inl f \<Rightarrow> Some f | Inr _ \<Rightarrow> map_option Uncaught raised)"
    "g' = g1"
    using assms(3) by (simp_all add: stream_chat_completion_sse_def Let_def st g0_def [symmetric] rl v q)
  then show ?thesis
    using stream_finally_books [OF h assms(2) q] by (cases raised) (auto simp: closes_def split: sum.splits)
qed

lemma call_provider_books:
  assumes "holds (n + 1) L (g_redis g)" and "cache_key \<in> {None, Some (compute_cache_key (e_codec E) (tenant_id tenant) b)}"
    and "call_provider E tenant provider cid body toks key cache_key g = (r, g')"
  shows "closes n L key r g'"
proof -
  define prov where "prov = p_name provider"
  obtain q p' where q: "chat_completion (e_upstream E) body provider = (q, p')" by fastforce
  define g0 where "g0 = g\<lparr>g_providers := (g_providers g)(prov \<mapsto> p')\<rparr>"
  have h: "holds (n + 1) L (g_redis g0)" using assms(1) by (simp add: g0_def)
  show ?thesis
  proof (cases q)
    case (Inl e)
    have "holds n (unlocked key L) (g_redis (free_slot E tenant (unlock E tenant key (count_metrics ms g0))))" for ms
      using unlock_holds [of "n + 1" L "count_metrics ms g0" key] h free_slot_holds by fastforce
    moreover have "holds n L (g_redis (free_slot E tenant g0))" using free_slot_holds [OF h] by simp
    ultimately show ?thesis
      using assms(3) by (auto simp: call_provider_def Let_def q g0_def [symmetric] prov_def [symmetric] Inl closes_def split: exn.splits)
  next
    case (Inr resp)
    define u where "u = fill_usage E body toks resp"
    define resp' where "resp' = resp\<lparr>usage := Some u\<rparr>"
    define g1 where "g1 = count_metrics [Provider_call_duration_seconds prov ''success''] (free_slot E tenant g0)"
    define g2 where "g2 = (case cache_key of None \<Rightarrow> g1
       | Some ck \<Rightarrow> g1\<lparr>g_redis := store_cached_completion (e_codec E) (e_redis E) ck resp' (e_cache_ttl E) (g_redis g1)\<rparr>)"
    have h1: "holds n L (g_redis g1)" using free_slot_holds [OF h] by (simp add: g1_def)
    then have h2: "holds n L (g_redis g2)" using assms(2) by (auto simp: g2_def cached_at)
    obtain w g3 where w: "record_usage_in tenant prov (model body) (u_prompt_tokens u) (u_completion_tokens u) False cid g2 = (w, g3)"
      by fastforce
    have g3: "holds n L (g_redis g3)" "\<And>f. w = Inl f \<Longrightarrow> \<exists>e. f = Db e"
      using w h2 by (auto dest: record_usage_in_frame record_usage_in_Db)
    have "(r, g') = (case w of Inl f \<Rightarrow> (Inl f, g3) | Inr _ \<Rightarrow> finish_json E tenant key resp' ''miss'' g3)"
      using assms(3) w unfolding g2_def g1_def g0_def u_def resp'_def prov_def
      by (simp add: call_provider_def Let_def q Inr split: sum.splits)
    then show ?thesis
      using g3 finish_json_books [OF g3(1), of key resp' "''miss''" r g'] by (auto simp: closes_def split: sum.splits)
  qed
qed

lemma answer_books:
  assumes "holds (n + 1) L (g_redis g)" and "answer E tenant provider cid body toks key g = (r, g')"
  shows "closes n L key r g'"
proof -
  define ck where "ck = (if cache_enabled tenant then Some (compute_cache_key (e_codec E) (tenant_id tenant) body) else None)"
  have ck: "ck \<in> {None, Some (compute_cache_key (e_codec E) (tenant_id tenant) body)}" by (simp add: ck_def)
  define g0 where "g0 = (if ck \<noteq> None then count_metrics [Cache_lookups_total ''miss''] g else g)"
  have h: "holds (n + 1) L (g_redis g0)" using assms(1) by (simp add: g0_def)
  define lookup where "lookup = (case ck of None \<Rightarrow> Inr None | Some k \<Rightarrow> get_cached_completion (e_codec E) (e_redis E) k (g_redis g))"
  have ans: "(r, g') = (case lookup of Inl e \<Rightarrow> (Inl (Uncaught (Other_exn e)), g)
      | Inr (Some resp) \<Rightarrow> cache_hit E tenant (p_name provider) cid body key resp g
      | Inr None \<Rightarrow>
          if stream body then
            (case stream_chat_completion_sse E provider body tenant toks key ck cid g0 of (r, g) \<Rightarrow> (Inr r, g))
          else call_provider E tenant provider cid body toks key ck g0)"
    using assms(2) unfolding answer_def Let_def ck_def [symmetric] lookup_def [symmetric] g0_def [symmetric] by simp
  have "closes n L key (Inl (Uncaught e)) g" for e using assms(1) by (auto simp: closes_def)
  then show ?thesis
    using ans cache_hit_books [OF assms(1)] call_provider_books [OF h ck] stream_sse_books [OF h ck]
    by (cases lookup) (fastforce split: option.splits prod.splits if_splits)+
qed

lemma chat_completions_books:
  assumes "holds n L (g_redis g)" and "chat_completions E tenant idem cid body g = (r, g')"
  shows "\<exists>m M. holds m M (g_redis g') \<and> (settled r \<longrightarrow> m = n \<and> M = L) \<and> (m = n \<or> m = n + 1)"
proof -
  define K where "K = (case truthy idem of None \<Rightarrow> L | Some k \<Rightarrow> L(k := True))"
  have K: "holds n K (g_redis g0)" "ok \<Longrightarrow> unlocked (truthy idem) K = L" "\<not> ok \<Longrightarrow> K = L"
    if "take_lock E tenant (truthy idem) g = (ok, g0)" for ok g0
    using that assms(1) lock_granted [OF assms(1)] lock_at [OF assms(1)]
    by (auto simp: K_def take_lock_def fun_eq_iff prod_eq_iff split: option.splits prod.splits)
  from assms(2) show ?thesis
  proof (cases rule: chat_completions_cases)
    case (replayed v)
    then show ?thesis using assms(1) by auto
  next
    case in_use
    then show ?thesis using K [OF in_use(2)] by auto
  next
    case (unknown g0)
    then show ?thesis using unlock_holds [OF K(1) [OF unknown(2)], of "truthy idem"] K(2) [OF unknown(2)] by auto
  next
    case (refused provider g0 f)
    then show ?thesis
      using admission_books [OF K(1) [OF refused(2)] refused(4)] K(2) [OF refused(2)] by auto
  next
    case (blocked provider g0 g1 f)
    have "holds (n + 1) K (g_redis g1)" using admission_books [OF K(1) [OF blocked(2)] blocked(4)] by simp
    from secured_books [OF this blocked(5)] show ?thesis
      using blocked(6) K(2) [OF blocked(2)] by (cases f) auto
  next
    case (answered provider g0 g1 g2 body')
    have "holds (n + 1) K (g_redis g1)" using admission_books [OF K(1) [OF answered(2)] answered(4)] by simp
    from secured_books [OF this answered(5)] have "holds (n + 1) K (g_redis g2)" by simp
    from answer_books [OF this answered(6)] show ?thesis
      using K(2) [OF answered(2)] by (auto simp: closes_def split: if_splits)
  qed
qed

end

section \<open>The services over a Redis server\<close>

lemma services_keys_distinct [simp]:
  "rpm_bucket_key t \<noteq> lock_key u k" "tpm_bucket_key t \<noteq> lock_key u k" "budget_key t m \<noteq> lock_key u k"
  "concurrency_key t \<noteq> lock_key u k"
  "rpm_bucket_key t \<noteq> response_key u k" "tpm_bucket_key t \<noteq> response_key u k" "budget_key t m \<noteq> response_key u k"
  "concurrency_key t \<noteq> response_key u k"
  "rpm_bucket_key t \<noteq> compute_cache_key C u b" "tpm_bucket_key t \<noteq> compute_cache_key C u b"
  "budget_key t m \<noteq> compute_cache_key C u b" "concurrency_key t \<noteq> compute_cache_key C u b"
  "lock_key t k \<noteq> compute_cache_key C u b"
  by (simp_all add: rpm_bucket_key_def tpm_bucket_key_def budget_key_def lock_key_def response_key_def
      concurrency_key_def compute_cache_key_def Let_def)

lemmas services_keys_distinct' [simp] = services_keys_distinct [THEN not_sym]

text \<open>What a keyspace that agrees on one key agrees on.\<close>

lemma reads_cong:
  "ks' j = ks j \<Longrightarrow> bucket_at ks' j = bucket_at ks j" "ks' j = ks j \<Longrightarrow> budget_at ks' j = budget_at ks j"
  "ks' j = ks j \<Longrightarrow> counter_at ks' j = counter_at ks j"
  by (simp_all add: bucket_at_def hash_at_def budget_at_def counter_at_def)

lemma reads_upd:
  "k \<noteq> j \<Longrightarrow> bucket_at (ks(j := v)) k = bucket_at ks k" "k \<noteq> j \<Longrightarrow> budget_at (ks(j := v)) k = budget_at ks k"
  "k \<noteq> j \<Longrightarrow> counter_at (ks(j := v)) k = counter_at ks k"
  by (auto intro: reads_cong)

text \<open>Replies and cached completions are none of the keys the books are kept in.\<close>

lemma services_at_upd:
  assumes "services_at tenant month ks0 n L ks"
    and "j = response_key (tenant_id tenant) k \<or> j = compute_cache_key C (tenant_id tenant) b"
  shows "services_at tenant month ks0 n L (ks(j := v))"
  using assms by (auto simp: services_at_def Let_def reads_upd)

lemma services_at_lock_upd:
  assumes "services_at tenant month ks0 n L ks"
  shows "services_at tenant month ks0 n (L(k := v \<noteq> None)) (ks(lock_key (tenant_id tenant) k := v))"
  using assms by (auto simp: services_at_def Let_def reads_upd lock_key_inj)

locale redis_gateway = redis_server "e_redis E" entry now
  for E :: "'s env" and entry :: "'s \<Rightarrow> keyspace" and now :: "'s \<Rightarrow> rat" +
  fixes tenant :: TenantContext and ks0 :: keyspace
  assumes ttl_pos: "0 < e_cache_ttl E"
begin

abbreviation at_redis :: "int \<Rightarrow> (string \<Rightarrow> bool) \<Rightarrow> 's \<Rightarrow> bool" where
  "at_redis n L s \<equiv> services_at tenant (e_month E) ks0 n L (entry s)"

lemma at_redis_limits:
  assumes "at_redis n L s"
  shows "fst (enforce_request_limits (e_redis E) tenant p m toks (e_month E) s) \<noteq> Inl ResponseError"
    and "at_redis n L (snd (enforce_request_limits (e_redis E) tenant p m toks (e_month E) s))"
proof -
  let ?t = "tenant_id tenant"
  obtain b1 b2 v where b: "bucket_at (entry s) (rpm_bucket_key ?t) = Some b1"
    "bucket_at (entry s) (tpm_bucket_key ?t) = Some b2" "budget_at (entry s) (budget_key ?t (e_month E)) = Some v"
    using assms by (auto simp: services_at_def Let_def)
  note ev = enforce_eval [OF b, where prov = p and mdl = m and toks = toks]
  show "fst (enforce_request_limits (e_redis E) tenant p m toks (e_month E) s) \<noteq> Inl ResponseError"
    using ev(1) by (auto simp: limit_outcome_def)
  have not_owned: "entry (snd (enforce_request_limits (e_redis E) tenant p m toks (e_month E) s)) j = entry s j"
    if "\<not> owned_by ?t j" for j
    using that by (intro ev(2)) auto
  show "at_redis n L (snd (enforce_request_limits (e_redis E) tenant p m toks (e_month E) s))"
    using assms ev(6-8) not_owned by (auto simp: services_at_def Let_def ev(2) counter_at_def)
qed

lemma at_redis_slot:
  assumes "at_redis n L s"
  shows "fst (acquire_concurrency_slot (e_redis E) (tenant_id tenant) limit s) \<longleftrightarrow> n < limit"
    and "at_redis (if n < limit then n + 1 else n) L (snd (acquire_concurrency_slot (e_redis E) (tenant_id tenant) limit s))"
    and "at_redis (n - 1) L (release_concurrency_slot (e_redis E) (tenant_id tenant) s)"
proof -
  let ?k = "concurrency_key (tenant_id tenant)"
  have c: "counter_at (entry s) ?k = Some n" using assms by (simp add: services_at_def Let_def)
  show "fst (acquire_concurrency_slot (e_redis E) (tenant_id tenant) limit s) \<longleftrightarrow> n < limit"
    by (rule acquire_slot_eval(1) [OF c])
  have move: "at_redis m L s'"
    if "counter_at (entry s') ?k = Some m" "\<And>j. j \<noteq> ?k \<Longrightarrow> entry s' j = entry s j" for m s'
  proof -
    have e: "entry s' = (entry s)(?k := entry s' ?k)" using that(2) by (auto simp: fun_eq_iff)
    show ?thesis using assms that(1) by (subst e) (auto simp: services_at_def Let_def reads_upd counter_at_def)
  qed
  show "at_redis (if n < limit then n + 1 else n) L (snd (acquire_concurrency_slot (e_redis E) (tenant_id tenant) limit s))"
    by (rule move [OF acquire_slot_eval(2,3) [OF c]])
  show "at_redis (n - 1) L (release_concurrency_slot (e_redis E) (tenant_id tenant) s)"
    by (rule move [OF release_slot_eval(1,2) [OF c]])
qed

lemma at_redis_lock:
  assumes "at_redis n L s"
  shows "fst (try_acquire_lock (e_redis E) (tenant_id tenant) k s) \<longleftrightarrow> \<not> L k"
    and "at_redis n (L(k := True)) (snd (try_acquire_lock (e_redis E) (tenant_id tenant) k s))"
    and "at_redis n (L(k := False)) (release_lock (e_redis E) (tenant_id tenant) k s)"
proof -
  have l: "(entry s (lock_key (tenant_id tenant) k) \<noteq> None) = L k" using assms by (simp add: services_at_def Let_def)
  show "fst (try_acquire_lock (e_redis E) (tenant_id tenant) k s) \<longleftrightarrow> \<not> L k" using l by (cases "entry s (lock_key (tenant_id tenant) k)") (simp_all add: try_acquire_lock_eval)
  show "at_redis n (L(k := False)) (release_lock (e_redis E) (tenant_id tenant) k s)"
    using services_at_lock_upd [OF assms, of k None] by (simp add: release_lock_eval)
  show "at_redis n (L(k := True)) (snd (try_acquire_lock (e_redis E) (tenant_id tenant) k s))"
    using assms l services_at_lock_upd [OF assms, of k "Some (Num 1, Some (now s + 60))"]
    by (cases "L k") (simp_all add: try_acquire_lock_eval fun_upd_idem)
qed

end

sublocale redis_gateway \<subseteq> endpoint_services E tenant at_redis
proof unfold_locales
  fix n L s C k j b r p m toks limit
  assume a: "at_redis n L s"
  show "fst (enforce_request_limits (e_redis E) tenant p m toks (e_month E) s) \<noteq> Inl ResponseError"
    "at_redis n L (snd (enforce_request_limits (e_redis E) tenant p m toks (e_month E) s))"
    by (rule at_redis_limits [OF a])+
  show "fst (acquire_concurrency_slot (e_redis E) (tenant_id tenant) limit s) \<longleftrightarrow> n < limit"
    "at_redis (if n < limit then n + 1 else n) L (snd (acquire_concurrency_slot (e_redis E) (tenant_id tenant) limit s))"
    "at_redis (n - 1) L (release_concurrency_slot (e_redis E) (tenant_id tenant) s)"
    by (rule at_redis_slot [OF a])+
  show "fst (try_acquire_lock (e_redis E) (tenant_id tenant) k s) \<longleftrightarrow> \<not> L k"
    "at_redis n (L(k := True)) (snd (try_acquire_lock (e_redis E) (tenant_id tenant) k s))"
    "at_redis n (L(k := False)) (release_lock (e_redis E) (tenant_id tenant) k s)"
    by (rule at_redis_lock [OF a])+
  show "at_redis n L (store_response (e_redis E) (tenant_id tenant) k j s)"
    unfolding store_response_eval by (rule services_at_upd [OF a]) blast
  show "at_redis n L (store_cached_completion C (e_redis E) (compute_cache_key C (tenant_id tenant) b) r (e_cache_ttl E) s)"
    unfolding store_cached_completion_eval(1) [OF ttl_pos] by (rule services_at_upd [OF a]) blast
qed

lemma collect_total: "collect (map (\<lambda>x. Some (f x)) xs) = Some (map f xs)"
  by (induction xs) auto

context redis_gateway
begin

lemmas redis_books = chat_completions_books

lemma admission_grants:
  assumes "at_redis n L (g_redis g)" "n < max_concurrent_requests tenant"
    and "fst (enforce_request_limits (e_redis E) tenant prov (model body)
           (count_prompt_tokens (e_tiktoken E) (messages body) (model body)) (e_month E) (g_redis g)) = Inr ()"
  obtains g' where "admission E tenant prov body key g = (Inr (), g')" "at_redis (n + 1) L (g_redis g')"
    "g_session g' = g_session g" "g_providers g' = g_providers g"
proof -
  obtain s where s: "enforce_request_limits (e_redis E) tenant prov (model body)
      (count_prompt_tokens (e_tiktoken E) (messages body) (model body)) (e_month E) (g_redis g) = (Inr (), s)"
    using assms(3) by (metis prod.collapse)
  have h: "at_redis n L s" using at_redis_limits(2) [OF assms(1), of prov "model body"] s by (metis snd_conv)
  obtain s2 where s2: "acquire_concurrency_slot (e_redis E) (tenant_id tenant) (max_concurrent_requests tenant) s = (True, s2)"
    using at_redis_slot(1) [OF h] assms(2) by (metis prod.collapse)
  show thesis
    using that [of "g\<lparr>g_redis := s2\<rparr>"] at_redis_slot(2) [OF h, of "max_concurrent_requests tenant"] assms(2)
    by (simp add: admission_def Let_def s s2)
qed

lemma long_correlation_id:
  assumes "at_redis n L (g_redis g)" "truthy idem = Some k" "\<not> L k" "n < max_concurrent_requests tenant"
    and "stored_reply E tenant (Some k) body g = None" "resolve (g_providers g) (model body) = Some provider"
    and "fst (enforce_request_limits (e_redis E) tenant (p_name provider) (model body)
           (count_prompt_tokens (e_tiktoken E) (messages body) (model body)) (e_month E)
           (g_redis (snd (take_lock E tenant (Some k) g)))) = Inr ()"
    and "pii_redaction_enabled tenant" "snd (redact_messages (e_pii E) (messages body)) \<noteq> []"
    and "pending (g_session g) = []" "\<not> fits_opt 64 cid"
  shows "\<exists>g'. chat_completions E tenant idem cid body g = (Inl (Db DataError), g')
       \<and> at_redis (n + 1) (L(k := True)) (g_redis g')"
proof -
  obtain s where s: "try_acquire_lock (e_redis E) (tenant_id tenant) k (g_redis g) = (True, s)" "at_redis n (L(k := True)) s"
    using at_redis_lock(1,2) [OF assms(1), of k] assms(3) by (metis prod.collapse)
  define g0 where "g0 = g\<lparr>g_redis := s\<rparr>"
  have lk: "take_lock E tenant (Some k) g = (True, g0)" by (simp add: take_lock_def s g0_def)
  obtain g1 where g1: "admission E tenant (p_name provider) body (Some k) g0 = (Inr (), g1)"
    "at_redis (n + 1) (L(k := True)) (g_redis g1)" "g_session g1 = g_session g"
    using admission_grants [of n "L(k := True)" g0 "p_name provider" body "Some k"] s(2) assms(4,7) by (auto simp: g0_def lk)
  obtain msgs types where r: "redact_messages (e_pii E) (messages body) = (msgs, types)" "types \<noteq> []"
    using assms(9) by (metis prod.collapse)
  have j: "json_of (PDict [(''entity_types'', PList (map PStr types))]) = Some (JObj [(''entity_types'', JList (map JStr types))])"
    by (simp add: comp_def collect_total)
  have "\<exists>g2. redaction_step E tenant cid (messages body) g1 = (Inl (Db DataError), g2) \<and> g_redis g2 = g_redis g1"
    using assms(8) r write_audit_event_too_long [OF _ j assms(11), of "g_session g1" "Some (tenant_id tenant)" "''pii.redacted''"]
      g1(3) assms(10) by (simp add: redaction_step_def audit_in_request_def count_metrics_def)
  then obtain g2 where g2: "redaction_step E tenant cid (messages body) g1 = (Inl (Db DataError), g2)" "g_redis g2 = g_redis g1"
    by auto
  have "chat_completions E tenant idem cid body g = (Inl (Db DataError), g2)"
    using assms(5,6) g1(1) g2(1) by (simp add: chat_completions_def Let_def assms(2) lk g0_def secured_def run_security_pipeline_def)
  then show ?thesis using g1(2) g2(2) by auto
qed

end

section \<open>Properties of the endpoint\<close>


text \<open>
  A sound gateway to evaluate the properties on: an empty Redis, one provider and
  the tenant of the demonstration database.
\<close>

definition demo_ctx :: TenantContext where
  "demo_ctx = (tenant_context demo_row demo_key)\<lparr>injection_detection_enabled := False, cache_enabled := False\<rparr>"

definition answering_upstream :: upstream where
  "answering_upstream = demo_upstream\<lparr>up_post := \<lambda>_ _ _ _. Http_response 200 ''{}'', up_validate := \<lambda>_. Some demo_response\<rparr>"

definition demo_env :: "mem env" where
  "demo_env = \<lparr>e_redis = mem_redis, e_codec = demo_codec,
     e_tiktoken = \<lparr>encoding_for_model = (\<lambda>_. None), get_encoding = (\<lambda>_ s. map (\<lambda>_. 0) s)\<rparr>,
     e_pii = demo_redactor, e_detector = new_detector [], e_embed = (\<lambda>_ _. Embed_raised (Other_exn ''ConnectError'')),
     e_upstream = answering_upstream, e_month = ''2026-09'', e_cache_ttl = 300, e_unix_time = 0, e_client_reads = None\<rparr>"

definition demo_gateway :: "mem gateway" where
  "demo_gateway = \<lparr>g_redis = mem_empty, g_session = demo_session, g_providers = [''openai'' \<mapsto> fresh_provider], g_metrics = []\<rparr>"

definition email_request :: ChatCompletionRequest where
  "email_request = demo_request\<lparr>messages := [user_message ''a@b.c'']\<rparr>"

lemma demo_env_simps [simp]:
  "e_redis demo_env = mem_redis" "e_month demo_env = ''2026-09''" "e_cache_ttl demo_env = 300"
  "e_pii demo_env = demo_redactor" "e_codec demo_env = demo_codec" "e_client_reads demo_env = None"
  by (simp_all add: demo_env_def)

lemma demo_gateway_simps [simp]:
  "g_redis demo_gateway = mem_empty" "g_session demo_gateway = demo_session"
  "g_providers demo_gateway = [''openai'' \<mapsto> fresh_provider]"
  by (simp_all add: demo_gateway_def)

lemma demo_services:
  "services_at t m (mem_entry mem_empty) 0 (\<lambda>_. False) (mem_entry mem_empty)"
  by (simp add: services_at_def bucket_at_def hash_at_def budget_at_def counter_at_def Let_def)

interpretation demo: redis_gateway demo_env mem_entry mem_now demo_ctx "mem_entry mem_empty"
  using mem_server.redis_server_axioms by (simp add: redis_gateway_def redis_gateway_axioms_def)

lemma demo_no_reply: "stored_reply demo_env t key body demo_gateway = None"
  using mem_server.get_cached_response_eval [of mem_empty _ _ None]
  by (auto simp: stored_reply_def string_at_def split: option.split)

lemma demo_lock:
  obtains g0 where "take_lock demo_env t (Some k) demo_gateway = (True, g0)"
    "mem_entry (g_redis g0) = [lock_key (tenant_id t) k \<mapsto> (Num 1, Some 60)]" "mem_now (g_redis g0) = 0"
    "g_providers g0 = g_providers demo_gateway" "g_session g0 = demo_session"
proof -
  note l = mem_server.try_acquire_lock_eval [of "tenant_id t" k mem_empty]
  obtain s where "try_acquire_lock mem_redis (tenant_id t) k mem_empty = (True, s)" using l(1) by (metis mem_empty_entry(1) prod.collapse)
  then show thesis
    using l(2,3) that [of "demo_gateway\<lparr>g_redis := s\<rparr>"] by (auto simp: take_lock_def fun_eq_iff)
qed


text \<open>
  C39. The exception handler of the security stage catches HTTP errors only. A request whose
  \<open>X-Correlation-ID\<close> is longer than the audit log's column and whose messages contain personal
  data fails when the redaction is audited: the client gets a server error, and the slot and the
  idempotency lock taken for the request are not given back.
\<close>

theorem long_correlation_id_leaks_slot:
  fixes E :: "'s env" and tenant :: TenantContext and g :: "'s gateway"
  assumes "redis_server (e_redis E) entry now" "0 < e_cache_ttl E"
    and "services_at tenant (e_month E) (entry (g_redis g)) n L (entry (g_redis g))"
    and "truthy idem = Some k" "\<not> L k" "n < max_concurrent_requests tenant"
    and "stored_reply E tenant (Some k) body g = None" "resolve (g_providers g) (model body) = Some provider"
    and "fst (enforce_request_limits (e_redis E) tenant (p_name provider) (model body)
           (count_prompt_tokens (e_tiktoken E) (messages body) (model body)) (e_month E)
           (g_redis (snd (take_lock E tenant (Some k) g)))) = Inr ()"
    and "pii_redaction_enabled tenant" "snd (redact_messages (e_pii E) (messages body)) \<noteq> []"
    and "pending (g_session g) = []" "\<not> fits_opt 64 cid"
  shows "\<exists>g'. chat_completions E tenant idem cid body g = (Inl (Db DataError), g')
       \<and> services_at tenant (e_month E) (entry (g_redis g)) (n + 1) (L(k := True)) (entry (g_redis g'))"
  using redis_gateway.long_correlation_id [OF redis_gateway.intro [OF assms(1) redis_gateway_axioms.intro [OF assms(2)]] assms(3-13)] .

lemma demo_cost: "estimate_prompt_cost_usd ''gpt-4o-mini'' 15 ''openai'' \<le> 100"
  by code_simp

lemma demo_limits:
  "fst (enforce_request_limits mem_redis demo_ctx ''openai'' ''gpt-4o-mini'' 15 ''2026-09''
     (g_redis (snd (take_lock demo_env demo_ctx (Some ''k'') demo_gateway)))) = Inr ()"
proof -
  let ?t = "tenant_id demo_ctx"
  obtain g0 where g0: "take_lock demo_env demo_ctx (Some ''k'') demo_gateway = (True, g0)"
    "mem_entry (g_redis g0) = [lock_key ?t ''k'' \<mapsto> (Num 1, Some 60)]" by (rule demo_lock)
  have b: "bucket_at (mem_entry (g_redis g0)) (rpm_bucket_key ?t) = Some None"
    "bucket_at (mem_entry (g_redis g0)) (tpm_bucket_key ?t) = Some None"
    "budget_at (mem_entry (g_redis g0)) (budget_key ?t ''2026-09'') = Some 0"
    by (simp_all add: g0 bucket_at_def hash_at_def budget_at_def)
  have "limit_verdict demo_ctx 60 100000 0 15 (estimate_prompt_cost_usd ''gpt-4o-mini'' 15 ''openai'') = None"
    using demo_cost by (simp add: limit_verdict_def demo_ctx_def tenant_context_def demo_row_def)
  moreover have "rate_limit_rpm demo_ctx = 60" "rate_limit_tpm demo_ctx = 100000" by code_simp+
  ultimately show ?thesis
    using mem_server.enforce_eval(1) [OF b, where prov = "''openai''" and mdl = "''gpt-4o-mini''" and toks = 15]
    by (auto simp: g0 refilled_def limit_outcome_def split: sum.splits limit_error.splits)
qed

theorem long_correlation_id_leaks_slot_witness:
  "\<exists>g'. chat_completions demo_env demo_ctx (Some ''k'') (Some (replicate 65 CHR ''a'')) email_request demo_gateway
        = (Inl (Db DataError), g')
     \<and> services_at demo_ctx ''2026-09'' (mem_entry mem_empty) 1 ((\<lambda>_. False)(''k'' := True)) (mem_entry (g_redis g'))"
proof -
  have h: "redis_server (e_redis demo_env) mem_entry mem_now" "0 < e_cache_ttl demo_env"
    "services_at demo_ctx (e_month demo_env) (mem_entry (g_redis demo_gateway)) 0 (\<lambda>_. False) (mem_entry (g_redis demo_gateway))"
    "truthy (Some ''k'') = Some ''k''" "\<not> (\<lambda>_ :: string. False) ''k''"
    using mem_server.redis_server_axioms by (simp_all add: demo_services truthy_def)
  have h2: "0 < max_concurrent_requests demo_ctx" by code_simp
  have h3: "resolve (g_providers demo_gateway) (model email_request) = Some fresh_provider" by simp code_simp
  have h4: "pii_redaction_enabled demo_ctx" "pending (g_session demo_gateway) = []" "\<not> fits_opt 64 (Some (replicate 65 CHR ''a''))"
    by code_simp+
  have h5: "snd (redact_messages (e_pii demo_env) (messages email_request)) \<noteq> []" by simp code_simp
  have toks: "count_prompt_tokens (e_tiktoken demo_env) (messages email_request) (model email_request) = 15" by code_simp
  have h6: "fst (enforce_request_limits (e_redis demo_env) demo_ctx (p_name fresh_provider) (model email_request)
       (count_prompt_tokens (e_tiktoken demo_env) (messages email_request) (model email_request)) (e_month demo_env)
       (g_redis (snd (take_lock demo_env demo_ctx (Some ''k'') demo_gateway)))) = Inr ()"
    using demo_limits toks by (simp add: email_request_def demo_request_def fresh_provider_def new_provider_def)
  show ?thesis
    using long_correlation_id_leaks_slot [OF h h2 demo_no_reply h3 h6 h4(1) h5 h4(2,3)]
    by (simp only: demo_env_simps demo_gateway_simps add_0)
qed

end
