(* ===== verification/Proxy_Accounting.thy ===== *)
theory Proxy_Accounting
  imports Proxy_Resources
begin

text \<open>
  What a chat-completions request leaves in the database, and what it answers: usage rows, replay
  of a stored answer, and the fact that personal data leaves the gateway only redacted.
\<close>

section \<open>Usage rows\<close>

text \<open>A session between transactions: nothing is pending and its view is the committed state.\<close>

definition quiet :: "session \<Rightarrow> bool" where
  "quiet s \<longleftrightarrow> pending s = [] \<and> working s = committed s"

text \<open>The tables a chat request never writes, apart from a key's last-used time.\<close>

definition identities :: "db \<Rightarrow> Tenant list \<times> ApiKey list \<times> AdminUser list \<times> UsageRollup list" where
  "identities d = (tenants d, api_keys d, admin_users d, usage_rollups d)"

lemma identities_simps [simp]:
  "identities (d\<lparr>audit_log := xs\<rparr>) = identities d" "identities (d\<lparr>usage_records := us\<rparr>) = identities d"
  by (simp_all add: identities_def)

lemma write_audit_event_quiet:
  assumes "quiet s" "write_audit_event tid ev cid det s = (r, s')"
  shows "quiet s' \<and> usage_records (committed s') = usage_records (committed s)
     \<and> identities (committed s') = identities (committed s)"
proof -
  define s1 where "s1 = session_add (Ins_audit tid ev cid (PDict det)) (set_rls_context None True s)"
  have s1: "pending s1 = [Ins_audit tid ev cid (PDict det)]" "working s1 = working s" "committed s1 = committed s"
    using assms(1) by (simp_all add: s1_def quiet_def)
  have "commit s1 = (r, s')" using assms(2) by (simp add: write_audit_event_def Let_def s1_def)
  from commit_single [OF s1(1) this] show ?thesis
    using assms(1) s1 by (auto simp: quiet_def rollback_def split: sum.splits option.splits if_splits)
qed

definition usage_of :: "TenantContext \<Rightarrow> int \<Rightarrow> int \<Rightarrow> bool \<Rightarrow> UsageRecord \<Rightarrow> bool" where
  "usage_of tenant p c hit row \<longleftrightarrow>
     ur_tenant_id row = tenant_id tenant \<and> ur_api_key_id row = api_key_id tenant \<and> ur_prompt_tokens row = p
     \<and> ur_completion_tokens row = c \<and> ur_total_tokens row = p + c \<and> ur_cache_hit row = hit"

lemma record_usage_quiet:
  assumes "quiet s" "record_usage tid key prov m p c hit cid s = (r, s', ms)"
  shows "quiet s' \<and> identities (committed s') = identities (committed s) \<and> (case r of
      Inl _ \<Rightarrow> usage_records (committed s') = usage_records (committed s)
    | Inr _ \<Rightarrow> (\<exists>row. usage_records (committed s') = usage_records (committed s) @ [row]
        \<and> ur_tenant_id row = tid \<and> ur_api_key_id row = key \<and> ur_prompt_tokens row = p
        \<and> ur_completion_tokens row = c \<and> ur_total_tokens row = p + c \<and> ur_cache_hit row = hit))"
proof -
  define row where "row = usage_row tid key prov m p c hit cid s"
  define s1 where "s1 = session_add (Ins_usage row) ((set_rls_context (Some tid) False s)\<lparr>drawn := drawn s + 1\<rparr>)"
  have s1: "pending s1 = [Ins_usage row]" "working s1 = working s" "committed s1 = committed s"
    using assms(1) by (simp_all add: s1_def quiet_def session_add_def set_rls_context_def)
  obtain q where q: "commit s1 = (q, s')" "r = Inl e \<Longrightarrow> q = Inl e" "r = Inr () \<Longrightarrow> q = Inr ()" for e
    using assms(2) by (auto simp: record_usage_def Let_def s1_def row_def usage_row_def session_add_def
        set_rls_context_def split: prod.splits sum.splits)
  from commit_single [OF s1(1) q(1)] show ?thesis
    using assms(1) s1 q(2,3)
    by (auto simp: quiet_def rollback_def stored_usage_def row_def usage_row_def split: sum.splits if_splits)
qed

text \<open>The rows a stretch of the request adds: none, or one of the given tokens.\<close>

definition billed :: "TenantContext \<Rightarrow> UsageRecord list \<Rightarrow> 's gateway \<Rightarrow> 's gateway \<Rightarrow> bool" where
  "billed tenant rows g g' \<longleftrightarrow>
     (quiet (g_session g) \<longrightarrow> quiet (g_session g') \<and> identities (committed (g_session g')) = identities (committed (g_session g))
        \<and> usage_records (committed (g_session g')) = usage_records (committed (g_session g)) @ rows)"

lemma billed_refl [simp]: "billed tenant [] g g"
  by (simp add: billed_def)

lemma billed_trans: "billed tenant xs g g1 \<Longrightarrow> billed tenant ys g1 g2 \<Longrightarrow> billed tenant (xs @ ys) g g2"
  by (simp add: billed_def)

lemma billed_simps [simp]:
  "billed t rows (count_metrics ms g) g' = billed t rows g g'" "billed t rows g (count_metrics ms g') = billed t rows g g'"
  "billed t rows (free_slot E tenant g) g' = billed t rows g g'" "billed t rows g (free_slot E tenant g') = billed t rows g g'"
  "billed t rows (unlock E tenant key g) g' = billed t rows g g'" "billed t rows g (unlock E tenant key g') = billed t rows g g'"
  "billed t rows (g\<lparr>g_redis := s\<rparr>) g' = billed t rows g g'" "billed t rows g (g'\<lparr>g_redis := s\<rparr>) = billed t rows g g'"
  "billed t rows (g\<lparr>g_providers := ps\<rparr>) g' = billed t rows g g'" "billed t rows g (g'\<lparr>g_providers := ps\<rparr>) = billed t rows g g'"
  by (simp_all add: billed_def)

lemma billed_none_then: "billed tenant [] g g1 \<Longrightarrow> billed tenant rows g1 g2 \<Longrightarrow> billed tenant rows g g2"
  using billed_trans by fastforce

lemma audit_in_request_billed: "audit_in_request tenant ev cid det g = (r, g') \<Longrightarrow> billed t [] g g'"
  by (auto simp: audit_in_request_def billed_def dest: write_audit_event_quiet split: prod.splits sum.splits)

lemma record_usage_in_billed:
  assumes "record_usage_in tenant prov m p c hit cid g = (r, g')" "quiet (g_session g)"
  shows "case r of Inl _ \<Rightarrow> billed tenant [] g g' | Inr _ \<Rightarrow> \<exists>row. usage_of tenant p c hit row \<and> billed tenant [row] g g'"
proof -
  obtain q s' ms where q: "record_usage (tenant_id tenant) (api_key_id tenant) prov m p c hit cid (g_session g) = (q, s', ms)"
    by (metis prod.exhaust)
  from record_usage_quiet [OF assms(2) q] show ?thesis
    using assms(1) by (cases q) (auto simp: record_usage_in_def q billed_def usage_of_def)
qed

lemma redaction_step_billed: "redaction_step E tenant cid msgs g = (r, g') \<Longrightarrow> billed t [] g g'"
  by (fastforce simp: redaction_step_def Let_def dest: audit_in_request_billed split: prod.splits sum.splits if_splits)

lemma injection_step_billed: "injection_step E tenant cid msgs g = (r, g') \<Longrightarrow> billed t [] g g'"
  by (fastforce simp: injection_step_def Let_def dest: audit_in_request_billed split: prod.splits sum.splits if_splits)

lemma pipeline_billed: "run_security_pipeline E tenant cid body g = (r, g') \<Longrightarrow> billed t [] g g'"
  by (fastforce simp: run_security_pipeline_def dest: redaction_step_billed injection_step_billed intro: billed_none_then
      split: prod.splits sum.splits)

lemma secured_billed: "secured E tenant prov cid body key g = (r, g') \<Longrightarrow> billed t [] g g'"
  by (auto simp: secured_def dest!: pipeline_billed split: prod.splits sum.splits failure.splits)

lemma admission_session: "admission E tenant prov body key g = (r, g') \<Longrightarrow> g_session g' = g_session g"
  by (auto simp: admission_def Let_def split: prod.splits sum.splits limit_error.splits bool.splits)

lemma take_lock_session: "take_lock E tenant key g = (ok, g') \<Longrightarrow> g_session g' = g_session g"
  by (auto simp: take_lock_def split: option.splits prod.splits)

text \<open>
  The bill of an outcome: a failure has none; an answer is billed with exactly the token counts it
  reports; a replay has none; a stream has at most one row.
\<close>

definition billed_for :: "'s env \<Rightarrow> TenantContext \<Rightarrow> bool \<Rightarrow> UsageRecord list \<Rightarrow> rval \<Rightarrow> bool" where
  "billed_for E tenant hit rows v \<longleftrightarrow>
     (\<exists>resp. v = Text (model_dump_json (e_codec E) resp) \<and>
        (case usage resp of
           None \<Rightarrow> hit \<and> rows = []
         | Some u \<Rightarrow> (\<exists>row. rows = [row] \<and> usage_of tenant (u_prompt_tokens u) (u_completion_tokens u) hit row)))"

fun bill_ok :: "'s env \<Rightarrow> TenantContext \<Rightarrow> (failure, response) result \<Rightarrow> UsageRecord list \<Rightarrow> bool" where
  "bill_ok E tenant (Inl f) rows \<longleftrightarrow> rows = []"
| "bill_ok E tenant (Inr (Json_response v hs)) rows \<longleftrightarrow>
     hs = [(''Idempotency-Replayed'', ''true'')] \<and> rows = []
     \<or> hs = [(''X-Cache'', ''hit'')] \<and> billed_for E tenant True rows v
     \<or> hs = [(''X-Cache'', ''miss'')] \<and> billed_for E tenant False rows v"
| "bill_ok E tenant (Inr (Sse_response evs (Some (Db e)))) rows \<longleftrightarrow> rows = []"
| "bill_ok E tenant (Inr (Sse_response evs x)) rows \<longleftrightarrow>
     rows = [] \<or> (\<exists>row p c hit. rows = [row] \<and> usage_of tenant p c hit row)"

lemma finish_json_out:
  assumes "finish_json E tenant key resp h g = (r, g')"
  shows "r = Inr (Json_response (Text (model_dump_json (e_codec E) resp)) [(''X-Cache'', h)])" "g_session g' = g_session g"
  using assms by (auto simp: finish_json_def Let_def split: option.splits)

lemma stream_cached_bill:
  assumes "quiet (g_session g)" "stream_cached_completion E resp tenant prov cid key g = (r, g')"
  shows "\<exists>rows. billed tenant rows g g' \<and> bill_ok E tenant (Inr r) rows"
proof -
  define evs where "evs = delivered (e_client_reads E)
     [sse_event (dumps (float_repr (e_codec E)) (cached_chunk resp)), DONE_EVENT]"
  obtain q g1 where q: "(case usage resp of None \<Rightarrow> (Inr (), g)
      | Some u \<Rightarrow> record_usage_in tenant prov (resp_model resp) (u_prompt_tokens u) (u_completion_tokens u) True cid g) = (q, g1)"
    by fastforce
  have "case q of Inl f \<Rightarrow> (\<exists>e. f = Db e) \<and> billed tenant [] g g1
     | Inr _ \<Rightarrow> \<exists>rows. billed tenant rows g g1 \<and> (rows = [] \<or> (\<exists>row p c hit. rows = [row] \<and> usage_of tenant p c hit row))"
    using q assms(1) by (cases "usage resp") (force dest: record_usage_in_billed record_usage_in_Db split: sum.splits)+
  moreover have "(r, g') = (case q of Inl f \<Rightarrow> (Sse_response evs (Some f), g1)
      | Inr _ \<Rightarrow> (Sse_response evs None, unlock E tenant key g1))"
    using assms(2) by (simp add: stream_cached_completion_def Let_def q evs_def split: sum.splits)
  ultimately show ?thesis by (fastforce split: sum.splits)
qed

lemma cache_hit_bill:
  assumes "quiet (g_session g)" "cache_hit E tenant prov cid body key resp g = (r, g')"
  shows "\<exists>rows. billed tenant rows g g' \<and> bill_ok E tenant r rows"
proof -
  define g0 where "g0 = free_slot E tenant (count_metrics [Cache_lookups_total ''hit''] g)"
  have g0: "quiet (g_session g0)" "billed tenant rows g0 x = billed tenant rows g x" for rows x
    using assms(1) by (simp_all add: g0_def)
  obtain q g1 where q: "(case usage resp of None \<Rightarrow> (Inr (), g0)
      | Some u \<Rightarrow> record_usage_in tenant prov (model body) (u_prompt_tokens u) (u_completion_tokens u) True cid g0) = (q, g1)"
    by fastforce
  have b: "case q of Inl f \<Rightarrow> billed tenant [] g g1
     | Inr _ \<Rightarrow> \<exists>rows. billed tenant rows g g1 \<and> billed_for E tenant True rows (Text (model_dump_json (e_codec E) resp))"
    using q g0 by (cases "usage resp") (force simp: billed_for_def dest: record_usage_in_billed split: sum.splits)+
  show ?thesis
  proof (cases "stream body")
    case True
    then show ?thesis
      using assms(2) stream_cached_bill [OF g0(1), of E resp tenant prov cid key, unfolded g0(2)]
      by (auto simp: cache_hit_def Let_def g0_def [symmetric] split: prod.splits)
  next
    case False
    then have "(r, g') = (case q of Inl f \<Rightarrow> (Inl f, g1) | Inr _ \<Rightarrow> finish_json E tenant key resp ''hit'' g1)"
      using assms(2) by (simp add: cache_hit_def Let_def g0_def [symmetric] q split: sum.splits)
    then show ?thesis
      using b finish_json_out [of E tenant key resp "''hit''" g1 r g'] by (force simp: billed_def split: sum.splits)
  qed
qed

lemma stream_finally_bill:
  assumes "quiet (g_session g)" "stream_finally E body tenant prov toks key ck cid ok txt g = (r, g')"
  shows "case r of Inl f \<Rightarrow> (\<exists>e. f = Db e) \<and> billed tenant [] g g'
     | Inr _ \<Rightarrow> \<exists>rows. billed tenant rows g g' \<and> (if ok then \<exists>row. rows = [row] \<and>
          usage_of tenant toks (count_text_tokens (e_tiktoken E) txt (model body)) False row else rows = [])"
proof -
  define c where "c = count_text_tokens (e_tiktoken E) txt (model body)"
  define g0 where "g0 = count_metrics (Provider_call_duration_seconds prov (if ok then ''success'' else ''error'')
      # (if ok then [] else [Chat_completions_total prov ''error''])) g"
  obtain q g1 where q: "(if ok then record_usage_in tenant prov (model body) toks c False cid g0 else (Inr (), g0)) = (q, g1)"
    by fastforce
  have b: "case q of Inl f \<Rightarrow> (\<exists>e. f = Db e) \<and> billed tenant [] g g1
     | Inr _ \<Rightarrow> \<exists>rows. billed tenant rows g g1 \<and>
         (if ok then \<exists>row. rows = [row] \<and> usage_of tenant toks c False row else rows = [])"
  proof (cases ok)
    case True
    then have r: "record_usage_in tenant prov (model body) toks c False cid g0 = (q, g1)" using q by simp
    have "quiet (g_session g0)" using assms(1) by (simp add: g0_def)
    from record_usage_in_billed [OF r this] show ?thesis
      using True r record_usage_in_Db [of tenant prov _ _ _ _ _ g0 _ g1] by (force simp: g0_def split: sum.splits)
  next
    case False
    then show ?thesis using q by (auto simp: g0_def)
  qed
  have "r = q \<and> (case q of Inl _ \<Rightarrow> g' = g1 | Inr _ \<Rightarrow> billed tenant rows g g1 \<longrightarrow> billed tenant rows g g')" for rows
    using assms(2)
    by (auto simp: stream_finally_def Let_def c_def [symmetric] g0_def [symmetric] q billed_def quiet_def
        split: sum.splits option.splits if_splits)
  then show ?thesis using b unfolding c_def by (cases q; cases ok) auto
qed

lemma stream_sse_bill:
  assumes "quiet (g_session g)" "stream_chat_completion_sse E provider body tenant toks key ck cid g = (r, g')"
  shows "\<exists>rows. billed tenant rows g g' \<and> bill_ok E tenant (Inr r) rows"
proof -
  obtain chunks err p' where st: "stream_chat_completion (e_upstream E) body provider = ((chunks, err), p')"
    by (metis prod.exhaust)
  define g0 where "g0 = g\<lparr>g_providers := (g_providers g)(p_name provider \<mapsto> p')\<rparr>"
  obtain parts evs fin where rl: "relay (dumps (float_repr (e_codec E))) (e_client_reads E) chunks = (parts, evs, fin)"
    by (metis prod.exhaust)
  obtain ok lst raised where v: "stream_verdict (dumps (float_repr (e_codec E))) fin err = (ok, lst, raised)"
    by (metis prod.exhaust)
  obtain q g1 where q: "stream_finally E body tenant (p_name provider) toks key ck cid ok (concat parts) g0 = (q, g1)"
    by fastforce
  have r: "r = Sse_response (delivered (e_client_reads E) (evs @ lst)) (case q of Inl f \<Rightarrow> Some f | Inr _ \<Rightarrow> map_option Uncaught raised)"
    "g' = g1"
    using assms(2) by (simp_all add: stream_chat_completion_sse_def Let_def st g0_def [symmetric] rl v q)
  have "quiet (g_session g0)" using assms(1) by (simp add: g0_def)
  from stream_finally_bill [OF this q] show ?thesis
    by (cases raised; cases q) (auto simp: r g0_def split: if_splits)
qed

lemma call_provider_bill:
  assumes "quiet (g_session g)" "call_provider E tenant provider cid body toks key ck g = (r, g')"
  shows "\<exists>rows. billed tenant rows g g' \<and> bill_ok E tenant r rows"
proof -
  obtain q p' where q: "chat_completion (e_upstream E) body provider = (q, p')" by fastforce
  show ?thesis
  proof (cases q)
    case (Inl e)
    then have "\<exists>f. r = Inl f" "billed tenant [] g g'"
      using assms(2) by (cases e; simp add: call_provider_def Let_def q; auto)+
    then show ?thesis by auto
  next
    case (Inr resp)
    define u where "u = fill_usage E body toks resp"
    define resp' where "resp' = resp\<lparr>usage := Some u\<rparr>"
    define g1 where "g1 = count_metrics [Provider_call_duration_seconds (p_name provider) ''success'']
      (free_slot E tenant (g\<lparr>g_providers := (g_providers g)(p_name provider \<mapsto> p')\<rparr>))"
    define g2 where "g2 = (case ck of None \<Rightarrow> g1
       | Some k \<Rightarrow> g1\<lparr>g_redis := store_cached_completion (e_codec E) (e_redis E) k resp' (e_cache_ttl E) (g_redis g1)\<rparr>)"
    have g2: "quiet (g_session g2)" "billed tenant rows g2 x = billed tenant rows g x" for rows x
      using assms(1) by (auto simp: g2_def g1_def split: option.splits)
    obtain w g3 where w: "record_usage_in tenant (p_name provider) (model body) (u_prompt_tokens u) (u_completion_tokens u) False cid g2 = (w, g3)"
      by fastforce
    have out: "(r, g') = (case w of Inl f \<Rightarrow> (Inl f, g3) | Inr _ \<Rightarrow> finish_json E tenant key resp' ''miss'' g3)"
      using assms(2) w unfolding g2_def g1_def u_def resp'_def
      by (simp add: call_provider_def Let_def q Inr split: sum.splits)
    show ?thesis
    proof (cases w)
      case (Inl f)
      then show ?thesis using out record_usage_in_billed [OF w g2(1)] g2(2) by auto
    next
      case wr: (Inr x)
      obtain row where row: "usage_of tenant (u_prompt_tokens u) (u_completion_tokens u) False row" "billed tenant [row] g g3"
        using record_usage_in_billed [OF w g2(1)] g2(2) wr by auto
      have f: "finish_json E tenant key resp' ''miss'' g3 = (r, g')" using out wr by simp
      have "billed_for E tenant False [row] (Text (model_dump_json (e_codec E) resp'))"
        unfolding billed_for_def using row(1) by (intro exI [of _ resp']) (simp add: resp'_def)
      then show ?thesis using finish_json_out [OF f] row(2) by (intro exI [of _ "[row]"]) (simp add: billed_def)
    qed
  qed
qed

lemma answer_bill:
  assumes "quiet (g_session g)" "answer E tenant provider cid body toks key g = (r, g')"
  shows "\<exists>rows. billed tenant rows g g' \<and> bill_ok E tenant r rows"
proof -
  define ck where "ck = (if cache_enabled tenant then Some (compute_cache_key (e_codec E) (tenant_id tenant) body) else None)"
  define g0 where "g0 = (if ck \<noteq> None then count_metrics [Cache_lookups_total ''miss''] g else g)"
  define lookup where "lookup = (case ck of None \<Rightarrow> Inr None | Some k \<Rightarrow> get_cached_completion (e_codec E) (e_redis E) k (g_redis g))"
  have g0: "quiet (g_session g0)" "billed tenant rows g0 x = billed tenant rows g x" for rows x
    using assms(1) by (simp_all add: g0_def)
  have out: "(r, g') = (case lookup of Inl e \<Rightarrow> (Inl (Uncaught (Other_exn e)), g)
      | Inr (Some resp) \<Rightarrow> cache_hit E tenant (p_name provider) cid body key resp g
      | Inr None \<Rightarrow>
          if stream body then
            (case stream_chat_completion_sse E provider body tenant toks key ck cid g0 of (r, g) \<Rightarrow> (Inr r, g))
          else call_provider E tenant provider cid body toks key ck g0)"
    using assms(2) unfolding answer_def Let_def ck_def [symmetric] lookup_def [symmetric] g0_def [symmetric] by simp
  show ?thesis
  proof (cases lookup)
    case (Inl e)
    then show ?thesis using out by (intro exI [of _ "[]"]) simp
  next
    case (Inr c)
    then show ?thesis
      using out cache_hit_bill [OF assms(1), of E tenant "p_name provider" cid body key _ r g']
        call_provider_bill [OF g0(1), of E tenant provider cid body toks key ck r g', unfolded g0(2)]
        stream_sse_bill [OF g0(1), of E provider body tenant toks key ck cid _ g', unfolded g0(2)]
      by (cases c; cases "stream body") (auto split: prod.splits)
  qed
qed

lemma chat_completions_bill:
  assumes "quiet (g_session g)" "chat_completions E tenant idem cid body g = (r, g')"
  shows "\<exists>rows. usage_records (committed (g_session g')) = usage_records (committed (g_session g)) @ rows
       \<and> bill_ok E tenant r rows \<and> quiet (g_session g') \<and> identities (committed (g_session g')) = identities (committed (g_session g))"
proof -
  from assms(2) have "\<exists>rows. billed tenant rows g g' \<and> bill_ok E tenant r rows"
  proof (cases rule: chat_completions_cases)
    case (answered provider g0 g1 g2 body')
    have s: "g_session g1 = g_session g" using take_lock_session [OF answered(2)] admission_session [OF answered(4)] by simp
    have b: "billed tenant [] g g2" using secured_billed [OF answered(5), of tenant] s by (simp add: billed_def)
    then have "quiet (g_session g2)" using assms(1) by (simp add: billed_def)
    from answer_bill [OF this answered(6)] show ?thesis using billed_none_then [OF b] by blast
  next
    case (blocked provider g0 g1 f)
    then show ?thesis
      using secured_billed [OF blocked(5), of tenant] take_lock_session [OF blocked(2)] admission_session [OF blocked(4)]
      by (auto simp: billed_def)
  qed (auto simp: billed_def dest!: take_lock_session admission_session)
  then show ?thesis using assms(1) by (auto simp: billed_def)
qed

text \<open>
  C5. Accounting of one request. The usage table only grows, by at most one row of this
  tenant: a request that fails or is replayed adds none, an answered request adds exactly one whose
  token counts are the ones the answer reports (none only for a cached answer without usage), with
  the cache flag of the \<open>X-Cache\<close> header, and a stream adds at most one.
\<close>

theorem request_billed_once:
  assumes "quiet (g_session g)" "chat_completions E tenant idem cid body g = (r, g')"
  shows "\<exists>rows. usage_records (committed (g_session g')) = usage_records (committed (g_session g)) @ rows
       \<and> bill_ok E tenant r rows"
  using chat_completions_bill [OF assms] by auto

section \<open>Replay\<close>

text \<open>Every JSON answer that is not a replay comes out of \<open>finish_json\<close>.\<close>

lemma call_provider_json:
  "call_provider E tenant provider cid body toks key ck g = (Inr r, g') \<Longrightarrow> \<exists>resp h g1. finish_json E tenant key resp h g1 = (Inr r, g')"
  by (force simp: call_provider_def Let_def split: prod.splits sum.splits exn.splits)

lemma cache_hit_json:
  "cache_hit E tenant prov cid body key resp g = (Inr (Json_response v hs), g') \<Longrightarrow>
   \<exists>resp h g1. finish_json E tenant key resp h g1 = (Inr (Json_response v hs), g')"
  by (force simp: cache_hit_def stream_cached_completion_def Let_def split: prod.splits sum.splits option.splits if_splits)

lemma answer_json:
  assumes "answer E tenant provider cid body toks key g = (Inr (Json_response v hs), g')"
  shows "\<exists>resp h g1. finish_json E tenant key resp h g1 = (Inr (Json_response v hs), g')"
  using assms unfolding answer_def Let_def
  by (auto simp: stream_chat_completion_sse_def Let_def dest!: call_provider_json cache_hit_json
      split: prod.splits sum.splits option.splits if_splits)

context redis_server
begin

lemma finish_json_stores:
  assumes "finish_json E tenant (Some k) resp h g = (Inr (Json_response v hs), g')" "e_redis E = R"
  shows "entry (g_redis g') (response_key (tenant_id tenant) k) = Some (v, Some (now (g_redis g') + 86400)) \<and> (\<exists>t. v = Text t)"
  using assms(1) by (auto simp: assms(2) finish_json_def Let_def unlock_def release_lock_eval store_response_eval)

end

text \<open>
  C9. Whatever else happened since: as long as the stored reply of an idempotency key is
  live, a non-streaming request with that key is answered with it, verbatim, and changes nothing:
  no limit is charged, no provider called, no row written. A non-streaming request that was
  answered has stored exactly its answer, for 24 hours, under its own tenant's key.
\<close>

theorem idempotent_replay:
  fixes E :: "'s env" and tenant :: TenantContext and g :: "'s gateway"
  assumes "redis_server (e_redis E) entry now"
    and "chat_completions E tenant (Some k) cid body g = (Inr (Json_response v [(''X-Cache'', h)]), g')" "k \<noteq> []"
    and "entry (g_redis g2) (response_key (tenant_id tenant) k) = entry (g_redis g') (response_key (tenant_id tenant) k)"
    and "\<not> stream body2"
  shows "chat_completions E tenant (Some k) cid2 body2 g2 = (Inr (Json_response v [(''Idempotency-Replayed'', ''true'')]), g2)
       \<and> entry (g_redis g') (response_key (tenant_id tenant) k) = Some (v, Some (now (g_redis g') + 86400))"
proof -
  have key: "truthy (Some k) = Some k" using assms(3) by (cases k) (simp_all add: truthy_def)
  have stored: "entry (g_redis g') (response_key (tenant_id tenant) k) = Some (v, Some (now (g_redis g') + 86400))
      \<and> (\<exists>t. v = Text t)"
    using assms(2)
  proof (cases rule: chat_completions_cases)
    case (answered provider g0 g1 g2 body')
    then show ?thesis using redis_server.finish_json_stores [OF assms(1)] answer_json [OF answered(6)] by (auto simp: key)
  qed auto
  have "stored_reply E tenant (truthy (Some k)) body2 g2 = Some v"
    using redis_server.get_cached_response_eval [OF assms(1), of "g_redis g2" "tenant_id tenant" k "Some v"] assms(4,5) stored
    by (auto simp: key stored_reply_def string_at_def)
  then show ?thesis using stored by (simp add: chat_completions_def Let_def)
qed

definition hello_request :: ChatCompletionRequest where
  "hello_request = demo_request\<lparr>messages := [user_message ''hello'']\<rparr>"

lemma demo_answer:
  "fst (chat_completions demo_env demo_ctx (Some ''k'') None hello_request demo_gateway)
     = Inr (Json_response (Text ''chatcmpl-1'') [(''X-Cache'', ''miss'')])"
proof -
  obtain g0 where g0: "take_lock demo_env demo_ctx (Some ''k'') demo_gateway = (True, g0)"
    "g_providers g0 = g_providers demo_gateway" "g_session g0 = demo_session" by (rule demo_lock)
  have at: "demo.at_redis 0 ((\<lambda>_. False)(''k'' := True)) (g_redis g0)"
    using demo.at_redis_lock(2) [of 0 "\<lambda>_. False" mem_empty "''k''"] demo_services g0(1)
    by (auto simp: take_lock_def split: prod.splits)
  have req: "model hello_request = ''gpt-4o-mini''" "messages hello_request = [user_message ''hello'']" "\<not> stream hello_request"
    by (simp_all add: hello_request_def demo_request_def)
  have toks: "count_prompt_tokens (e_tiktoken demo_env) [user_message ''hello''] ''gpt-4o-mini'' = 15" by code_simp
  have lim: "0 < max_concurrent_requests demo_ctx" by code_simp
  obtain g1 where g1: "admission demo_env demo_ctx ''openai'' hello_request (Some ''k'') g0 = (Inr (), g1)"
    "g_session g1 = demo_session" "g_providers g1 = g_providers demo_gateway"
    using demo.admission_grants [OF at lim, of "''openai''" hello_request "Some ''k''"] demo_limits g0 toks
    by (auto simp: req)
  have red: "redaction_step demo_env demo_ctx None [user_message ''hello''] g1 = (Inr [user_message ''hello''], g1)"
  proof -
    have "redact_messages demo_redactor [user_message ''hello''] = ([user_message ''hello''], [])" by code_simp
    then show ?thesis by (simp add: redaction_step_def)
  qed
  have sec: "secured demo_env demo_ctx ''openai'' None hello_request (Some ''k'') g1 = (Inr hello_request, g1)"
    using secured_without_detection [of demo_ctx demo_env None hello_request g1] red req
    by (simp add: demo_ctx_def hello_request_def)
  have res: "resolve (g_providers g0) (model hello_request) = Some fresh_provider" unfolding g0 req by simp code_simp
  have name: "p_name fresh_provider = ''openai''" by code_simp
  have "fst (chat_completion answering_upstream hello_request fresh_provider) = Inr demo_response" by code_simp
  then obtain p' where call: "chat_completion answering_upstream hello_request fresh_provider = (Inr demo_response, p')"
    by (metis prod.collapse)
  have "fst (record_usage 1 ''00ab'' ''openai'' ''gpt-4o-mini'' 15 0 False None demo_session) = Inr ()" by code_simp
  then obtain s' ms where rec: "record_usage 1 ''00ab'' ''openai'' ''gpt-4o-mini'' 15 0 False None demo_session = (Inr (), s', ms)"
    by (metis prod.collapse)
  have ctx: "tenant_id demo_ctx = 1" "api_key_id demo_ctx = ''00ab''" "\<not> cache_enabled demo_ctx" by code_simp+
  have out: "completion_text [] = []" "count_text_tokens (e_tiktoken demo_env) [] ''gpt-4o-mini'' = 0" by code_simp+
  have up: "e_upstream demo_env = answering_upstream" by (simp add: demo_env_def)
  have ans: "fst (answer demo_env demo_ctx fresh_provider None hello_request 15 (Some ''k'') g1)
      = Inr (Json_response (Text ''chatcmpl-1'') [(''X-Cache'', ''miss'')])"
    by (simp add: answer_def Let_def ctx req call_provider_def up name call fill_usage_def demo_response_def out
        record_usage_in_def g1(2) rec finish_json_def demo_codec_def)
  show ?thesis
    using chat_completions_reaches_answer [of demo_env demo_ctx "Some ''k''" hello_request demo_gateway g0 fresh_provider
        g1 None hello_request g1] g0(1) res g1(1) sec
    by (simp add: truthy_def name req toks ans demo_no_reply)
qed

theorem request_billed_once_witness:
  "\<exists>row. usage_records (committed (g_session (snd (chat_completions demo_env demo_ctx (Some ''k'') None hello_request demo_gateway))))
      = [row] \<and> ur_tenant_id row = tenant_id demo_ctx \<and> \<not> ur_cache_hit row"
proof -
  have q: "quiet (g_session demo_gateway)" "usage_records (committed (g_session demo_gateway)) = []"
    by (simp_all add: quiet_def demo_session_def open_session_def demo_db_def empty_db_def)
  obtain g' where g': "chat_completions demo_env demo_ctx (Some ''k'') None hello_request demo_gateway
      = (Inr (Json_response (Text ''chatcmpl-1'') [(''X-Cache'', ''miss'')]), g')"
    using demo_answer by (metis prod.collapse)
  show ?thesis
    using request_billed_once [OF q(1) g'] q(2) by (auto simp: g' billed_for_def usage_of_def split: option.splits)
qed

theorem idempotent_replay_witness:
  "\<exists>g'. chat_completions demo_env demo_ctx (Some ''k'') None email_request g'
     = (Inr (Json_response (Text ''chatcmpl-1'') [(''Idempotency-Replayed'', ''true'')]), g')"
proof -
  obtain g' where g': "chat_completions demo_env demo_ctx (Some ''k'') None hello_request demo_gateway
      = (Inr (Json_response (Text ''chatcmpl-1'') [(''X-Cache'', ''miss'')]), g')"
    using demo_answer by (metis prod.collapse)
  have h: "redis_server (e_redis demo_env) mem_entry mem_now" "''k'' \<noteq> []" "\<not> stream email_request"
    using mem_server.redis_server_axioms by (simp_all add: email_request_def demo_request_def)
  show ?thesis using idempotent_replay [OF h(1) g' h(2) refl h(3)] by auto
qed

section \<open>What leaves the gateway\<close>

text \<open>
  C8. For a tenant with redaction switched on, the original text of a message influences
  nothing but its redaction and the token count: two requests whose messages redact alike and count
  alike are indistinguishable in everything the endpoint does, in what it sends upstream, caches,
  stores, logs in the audit table, bills and answers.
\<close>

theorem only_redacted_text_leaves:
  assumes "pii_redaction_enabled tenant"
    and "redact_messages (e_pii E) ms = redact_messages (e_pii E) ms'"
    and "count_prompt_tokens (e_tiktoken E) ms (model body) = count_prompt_tokens (e_tiktoken E) ms' (model body)"
  shows "chat_completions E tenant idem cid (body\<lparr>messages := ms\<rparr>) g = chat_completions E tenant idem cid (body\<lparr>messages := ms'\<rparr>) g"
proof -
  let ?b = "body\<lparr>messages := ms\<rparr>" and ?b' = "body\<lparr>messages := ms'\<rparr>"
  have st: "stored_reply E tenant key ?b g = stored_reply E tenant key ?b' g" for key
    by (simp add: stored_reply_def split: option.split)
  have ad: "admission E tenant prov ?b key x = admission E tenant prov ?b' key x" for prov key x
    using assms(3) by (simp add: admission_def)
  have "redaction_step E tenant cid ms x = redaction_step E tenant cid ms' x" for x
    using assms(1,2) by (simp add: redaction_step_def)
  then have "run_security_pipeline E tenant cid ?b x = run_security_pipeline E tenant cid ?b' x" for x
    by (simp add: run_security_pipeline_def split: prod.split sum.split)
  then have se: "secured E tenant prov cid ?b key x = secured E tenant prov cid ?b' key x" for prov key x
    by (simp add: secured_def)
  have mo: "model ?b = model body" "model ?b' = model body" by simp_all
  have tk: "count_prompt_tokens (e_tiktoken E) (messages ?b) (model body) = count_prompt_tokens (e_tiktoken E) (messages ?b') (model body)"
    using assms(3) by simp
  show ?thesis unfolding chat_completions_def Let_def st ad se mo tk by (rule refl)
qed

theorem only_redacted_text_leaves_witness:
  "let E = demo_env\<lparr>e_pii := \<lparr>analyze = (\<lambda>t. if t \<in> {''a@b.c'', ''x@y.z''} then [\<lparr>entity_type = ''EMAIL_ADDRESS'', f_start = 0, f_end = 5\<rparr>] else []),
                           anonymize = (\<lambda>_ _. ''<EMAIL_ADDRESS>'')\<rparr>\<rparr> in
   chat_completions E demo_ctx None None (demo_request\<lparr>messages := [user_message ''a@b.c'']\<rparr>) demo_gateway
   = chat_completions E demo_ctx None None (demo_request\<lparr>messages := [user_message ''x@y.z'']\<rparr>) demo_gateway"
  unfolding Let_def by (rule only_redacted_text_leaves) code_simp+

end
