(* ===== verification/Proxy_Streaming.thy ===== *)
theory Proxy_Streaming
  imports Proxy_Accounting
begin

text \<open>
  The streaming side of the endpoint: the event framing is read back by the parser the gateway
  itself uses on upstream streams, and what a stream that stops early leaves in the cache.
\<close>

section \<open>Framing\<close>

text \<open>The lines of a body, as a client reads them.\<close>

fun text_lines :: "string \<Rightarrow> string list" where
  "text_lines [] = []"
| "text_lines (c # cs) =
     (if c = CHR 0x0A then [] # text_lines cs
      else case text_lines cs of [] \<Rightarrow> [[c]] | l # ls \<Rightarrow> (c # l) # ls)"

lemma text_lines_line: "CHR 0x0A \<notin> set l \<Longrightarrow> text_lines (l @ CHR 0x0A # rest) = l # text_lines rest"
  by (induction l) auto

lemma text_lines_event:
  assumes "CHR 0x0A \<notin> set d"
  shows "text_lines (sse_event d @ rest) = (''data: '' @ d) # [] # text_lines rest"
  using assms text_lines_line [of "''data: '' @ d" "CHR 0x0A # rest"] text_lines_line [of "[]" rest]
  by (simp add: sse_event_def)

lemma strip_braced: "str_strip (CHR '' '' # CHR ''{'' # m @ [CHR ''}'']) = CHR ''{'' # m @ [CHR ''}'']"
  by (simp add: str_strip_def is_space_def)

lemma dumps_no_newline:
  "\<forall>x. list_all printable (fr x) \<Longrightarrow> CHR 0x0A \<notin> set (dumps fr j)"
  using dumps_printable [of fr j] printable_not_newline by (fastforce simp: list_all_iff)

lemma framed_chunks_read_back:
  assumes "\<forall>x. list_all printable (fr x)" "\<forall>c \<in> set cs. (\<exists>kvs. c = JObj kvs) \<and> loads (dumps fr c) = Some c"
  shows "sse_chunks loads n (map Inr (text_lines (concat (map (\<lambda>c. sse_event (dumps fr c)) cs @ [DONE_EVENT])))) = (cs, None)"
  using assms(2)
proof (induction cs)
  case Nil
  have "text_lines DONE_EVENT = [''data: [DONE]'', []]"
    using text_lines_event [of "''[DONE]''" "[]"] by (simp add: DONE_EVENT_def)
  then show ?case by (simp add: starts_with_def str_strip_def is_space_def)
next
  case (Cons c cs)
  obtain m where m: "dumps fr c = CHR ''{'' # m @ [CHR ''}'']" using Cons.prems dumps_object_braces by fastforce
  have l: "text_lines (sse_event (dumps fr c) @ rest) = (''data: '' @ dumps fr c) # [] # text_lines rest" for rest
    by (rule text_lines_event [OF dumps_no_newline [OF assms(1)]])
  have "loads (CHR ''{'' # m @ [CHR ''}'']) = Some c" using Cons.prems m by simp
  then show ?case using Cons l by (simp add: m starts_with_def strip_braced)
qed

section \<open>Relaying\<close>

definition chunk_text :: "json \<Rightarrow> string" where
  "chunk_text c = (case chunk_parts c of Inr ps \<Rightarrow> concat ps | Inl _ \<Rightarrow> [])"

definition well_formed_chunk :: "json \<Rightarrow> bool" where
  "well_formed_chunk c \<longleftrightarrow> (case chunk_parts c of Inr _ \<Rightarrow> True | Inl _ \<Rightarrow> False)"

lemma well_formed_object: "well_formed_chunk c \<Longrightarrow> \<exists>kvs. c = JObj kvs"
  by (auto simp: well_formed_chunk_def chunk_parts_def split: json.splits)

lemma relay_to_the_end:
  "\<forall>c \<in> set cs. well_formed_chunk c \<Longrightarrow>
   \<exists>parts. relay dump None cs = (parts, map (\<lambda>c. sse_event (dump c)) cs, Exhausted) \<and> concat parts = concat (map chunk_text cs)"
proof (induction cs)
  case (Cons c cs)
  then show ?case by (auto simp: well_formed_chunk_def chunk_text_def split: sum.splits)
qed simp

lemma relay_until_gone:
  "\<forall>c \<in> set cs. well_formed_chunk c \<Longrightarrow> n < length cs \<Longrightarrow>
   \<exists>parts. relay dump (Some n) cs = (parts, map (\<lambda>c. sse_event (dump c)) (take n cs), Client_gone)
      \<and> concat parts = concat (map chunk_text (take (Suc n) cs))"
proof (induction cs arbitrary: n)
  case (Cons c cs)
  obtain ps where ps: "chunk_parts c = Inr ps" using Cons.prems(1) by (auto simp: well_formed_chunk_def split: sum.splits)
  show ?case
  proof (cases n)
    case 0
    then show ?thesis by (simp add: ps chunk_text_def)
  next
    case (Suc m)
    have "\<forall>c \<in> set cs. well_formed_chunk c" "m < length cs" using Cons.prems Suc by auto
    from Cons.IH [OF this] show ?thesis by (auto simp: ps Suc chunk_text_def)
  qed
qed simp

section \<open>Properties\<close>


text \<open>
  C37. A client that goes away does not count as an error: the generator ends with its
  success flag still set, so the text of the chunks read until then, cut off where the client left,
  is stored as the cached completion of the request: it is what the lookup of the next request with
  that content returns.
\<close>

theorem abandoned_stream_is_cached:
  fixes E :: "'s env" and g :: "'s gateway"
  assumes "redis_server (e_redis E) entry now" "0 < e_cache_ttl E" "e_client_reads E = Some n"
    and "stream_chat_completion (e_upstream E) body provider = ((cs, err), p')" "n < length cs"
    and "\<forall>c \<in> set cs. well_formed_chunk c" "concat (map chunk_text (take (Suc n) cs)) \<noteq> []"
    and "\<forall>r. \<exists>r'. model_validate_json (e_codec E) (model_dump_json (e_codec E) r) = Some r'
           \<and> completion_text (choices r') = completion_text (choices r)"
    and "stream_chat_completion_sse E provider body tenant toks key (Some (compute_cache_key (e_codec E) (tenant_id tenant) body)) cid g
           = (Sse_response evs None, g')"
    and "counter_at (entry (g_redis g)) (concurrency_key (tenant_id tenant)) = Some m"
  shows "\<exists>resp. get_cached_completion (e_codec E) (e_redis E) (compute_cache_key (e_codec E) (tenant_id tenant) body) (g_redis g') = Inr (Some resp)
       \<and> completion_text (choices resp) = concat (map chunk_text (take (Suc n) cs))"
proof -
  let ?t = "tenant_id tenant" and ?full = "concat (map chunk_text (take (Suc n) cs))"
  let ?ck = "compute_cache_key (e_codec E) ?t body" and ?c = "count_text_tokens (e_tiktoken E) ?full (model body)"
  define g0 where "g0 = g\<lparr>g_providers := (g_providers g)(p_name provider \<mapsto> p')\<rparr>"
  obtain parts evs0 where rl: "relay (dumps (float_repr (e_codec E))) (Some n) cs = (parts, evs0, Client_gone)" "concat parts = ?full"
    using relay_until_gone [OF assms(6,5)] by blast
  obtain q where q: "stream_finally E body tenant (p_name provider) toks key (Some ?ck) cid True ?full g0 = (q, g')" "q = Inr ()"
    using assms(9)
    by (auto simp: stream_chat_completion_sse_def Let_def assms(3,4) rl stream_verdict_def g0_def split: prod.splits sum.splits)
  define g1 where "g1 = count_metrics [Provider_call_duration_seconds (p_name provider) ''success''] g0"
  obtain g2 where g2: "record_usage_in tenant (p_name provider) (model body) toks ?c False cid g1 = (Inr (), g2)"
    using q by (auto simp: stream_finally_def Let_def g1_def split: prod.splits sum.splits)
  define resp where "resp = cacheable E (uuid4 (g_session g2) (drawn (g_session g2))) (model body) ?full toks ?c"
  define s where "s = store_cached_completion (e_codec E) (e_redis E) ?ck resp (e_cache_ttl E) (g_redis g)"
  have r2: "g_redis g2 = g_redis g" using record_usage_in_frame [OF g2] by (simp add: g1_def g0_def)
  have g': "g_redis g' = (case key of None \<Rightarrow> release_concurrency_slot (e_redis E) ?t s
      | Some k \<Rightarrow> release_lock (e_redis E) ?t k (release_concurrency_slot (e_redis E) ?t s))"
    using q assms(7) g2 unfolding g1_def
    by (auto simp: stream_finally_def Let_def free_slot_def unlock_def s_def resp_def r2 split: option.splits)
  have e: "entry s = (entry (g_redis g))(?ck \<mapsto> (Text (model_dump_json (e_codec E) resp), Some (now (g_redis g) + of_int (e_cache_ttl E))))"
    unfolding s_def by (rule redis_server.store_cached_completion_eval(1) [OF assms(1,2)])
  have "counter_at (entry s) (concurrency_key ?t) = Some m" using assms(10) by (simp add: e reads_upd)
  from redis_server.release_slot_eval(2) [OF assms(1) this, of ?ck]
  have "entry (g_redis g') ?ck = Some (Text (model_dump_json (e_codec E) resp), Some (now (g_redis g) + of_int (e_cache_ttl E)))"
    by (auto simp: g' e redis_server.release_lock_eval [OF assms(1)] split: option.splits)
  moreover obtain r' where "model_validate_json (e_codec E) (model_dump_json (e_codec E) resp) = Some r'"
    "completion_text (choices r') = completion_text (choices resp)" using assms(8) by blast
  moreover have "completion_text (choices resp) = ?full"
    by (simp add: resp_def cacheable_def completion_text_def choice_text_def jget_def)
  ultimately show ?thesis using redis_server.get_cached_completion_hit [OF assms(1)] by auto
qed

definition streaming_upstream :: "(string \<Rightarrow> json option) \<Rightarrow> upstream" where
  "streaming_upstream loads = demo_upstream\<lparr>up_loads := loads,
     up_send_stream := \<lambda>_ _ _ _. Http_response 200 ([], [Inr ''data: {}'', Inr [], Inr ''data: [DONE]''])\<rparr>"

lemma stream_sse_shape: "\<exists>evs f g'. stream_chat_completion_sse E provider body tenant toks key ck cid g = (Sse_response evs f, g')"
  unfolding stream_chat_completion_sse_def Let_def by (simp split: prod.split)


definition hi_chunk :: json where
  "hi_chunk = JObj [(''choices'', JList [JObj [(''delta'', JObj [(''content'', JStr ''hi'')])]])]"

definition text_codec :: codec where
  "text_codec = demo_codec\<lparr>model_dump_json := \<lambda>r. completion_text (choices r),
     model_validate_json := \<lambda>s. Some (demo_response\<lparr>choices := [JObj [(''message'', JObj [(''content'', JStr s)])]]\<rparr>)\<rparr>"

definition leaving_env :: "mem env" where
  "leaving_env = demo_env\<lparr>e_upstream := streaming_upstream (\<lambda>_. Some hi_chunk), e_client_reads := Some 0, e_codec := text_codec\<rparr>"

theorem abandoned_stream_is_cached_witness:
  "let ck = compute_cache_key text_codec (tenant_id demo_ctx) demo_request in
   \<exists>resp. get_cached_completion text_codec mem_redis ck
      (g_redis (snd (stream_chat_completion_sse leaving_env fresh_provider demo_request demo_ctx 15 None (Some ck) None demo_gateway)))
        = Inr (Some resp) \<and> completion_text (choices resp) = ''hi''"
proof -
  let ?ck = "compute_cache_key (e_codec leaving_env) (tenant_id demo_ctx) demo_request"
  have e: "e_redis leaving_env = mem_redis" "e_codec leaving_env = text_codec" "e_client_reads leaving_env = Some 0"
    "e_cache_ttl leaving_env = 300" "e_upstream leaving_env = streaming_upstream (\<lambda>_. Some hi_chunk)"
    by (simp_all add: leaving_env_def)
  have "fst (stream_chat_completion (streaming_upstream (\<lambda>_. Some hi_chunk)) demo_request fresh_provider) = ([hi_chunk], None)"
    by code_simp
  then obtain p' where p': "stream_chat_completion (streaming_upstream (\<lambda>_. Some hi_chunk)) demo_request fresh_provider
      = (([hi_chunk], None), p')" by (metis prod.collapse)
  then have st: "stream_chat_completion (e_upstream leaving_env) demo_request fresh_provider = (([hi_chunk], None), p')"
    by (simp add: e)
  have tx: "chunk_text hi_chunk = ''hi''" "well_formed_chunk hi_chunk" by code_simp+
  have codec: "\<forall>r. \<exists>r'. model_validate_json (e_codec leaving_env) (model_dump_json (e_codec leaving_env) r) = Some r'
      \<and> completion_text (choices r') = completion_text (choices r)"
    by (simp add: e text_codec_def completion_text_def choice_text_def jget_def)
  obtain g' evs where o: "stream_chat_completion_sse leaving_env fresh_provider demo_request demo_ctx 15 None (Some ?ck) None demo_gateway
      = (Sse_response evs None, g')"
  proof -
    have "fst (record_usage 1 ''00ab'' ''openai'' ''gpt-4o-mini'' 15 2 False None demo_session) = Inr ()" by code_simp
    then obtain s' ms where rec: "record_usage 1 ''00ab'' ''openai'' ''gpt-4o-mini'' 15 2 False None demo_session = (Inr (), s', ms)"
      by (metis prod.collapse)
    have c: "count_text_tokens (e_tiktoken leaving_env) ''hi'' ''gpt-4o-mini'' = 2" "chunk_parts hi_chunk = Inr [''hi'']"
      "tenant_id demo_ctx = 1" "api_key_id demo_ctx = ''00ab''" "p_name fresh_provider = ''openai''" "model demo_request = ''gpt-4o-mini''"
      by code_simp+
    show thesis
      using that
      by (simp add: stream_chat_completion_sse_def Let_def p' e c stream_verdict_def stream_finally_def record_usage_in_def rec
          count_metrics_def)
  qed
  have "counter_at (mem_entry (g_redis demo_gateway)) (concurrency_key (tenant_id demo_ctx)) = Some 0"
    by (simp add: counter_at_def)
  moreover have h: "redis_server (e_redis leaving_env) mem_entry mem_now" "0 < e_cache_ttl leaving_env" "0 < length [hi_chunk]"
    "\<forall>c \<in> set [hi_chunk]. well_formed_chunk c" "concat (map chunk_text (take (Suc 0) [hi_chunk])) \<noteq> []"
    using mem_server.redis_server_axioms by (simp_all add: e tx)
  ultimately show ?thesis
    using abandoned_stream_is_cached [OF h(1,2) e(3) st h(3-5) codec o] by (simp add: e tx o [unfolded e])
qed

end
