(* ===== verification/Observability.thy ===== *)
theory Observability
  imports Config Provider_Errors
begin

text \<open>
  \<^verbatim>\<open>core/logging.py\<close> and \<^verbatim>\<open>core/tracing.py\<close>. Objects of structlog and OpenTelemetry are recorded as the
  calls that construct them; nothing is assumed about what they do. Python's own \<^verbatim>\<open>logging\<close> module is
  modelled as far as the configuration uses it: the root logger's handlers and level,
  \<open>basicConfig\<close>, which does nothing once the root logger has a handler, and the level names.
\<close>

section \<open>Tracing\<close>

definition SERVICE_NAME :: string where
  "SERVICE_NAME = ''aegis-gateway''"

datatype SpanExporter = ConsoleSpanExporter | OTLPSpanExporter string

text \<open>
  The exporters are those of the provider's batch processors; \<open>tp_shut_down\<close> says whether \<open>shutdown\<close>
  has been called on it.
\<close>

record TracerProvider =
  tp_resource :: "(string \<times> string) list"
  tp_exporters :: "SpanExporter list"
  tp_shut_down :: bool

text \<open>
  A process has at most one provider of the SDK: the one installed globally, \<open>None\<close> before. The
  function returns the provider it leaves installed, so a reference to it is the installed one.
\<close>

datatype provider_ref = Installed

definition span_exporter :: "Settings \<Rightarrow> SpanExporter" where
  "span_exporter S =
     (if otel_exporter_otlp_endpoint S \<noteq> [] then OTLPSpanExporter (otel_exporter_otlp_endpoint S)
      else ConsoleSpanExporter)"

definition configure_tracing :: "Settings \<Rightarrow> TracerProvider option \<Rightarrow> provider_ref \<times> TracerProvider option" where
  "configure_tracing S existing =
     (case existing of
        Some provider \<Rightarrow> (Installed, Some provider)
      | None \<Rightarrow>
          let provider = \<lparr>tp_resource = [(''service.name'', SERVICE_NAME)], tp_exporters = [], tp_shut_down = False\<rparr>;
              provider = provider\<lparr>tp_exporters := tp_exporters provider @ [span_exporter S]\<rparr>
          in (Installed, Some provider))"

section \<open>Logging\<close>

datatype processor =
    Merge_contextvars | Add_log_level | Add_logger_name | TimeStamper string | StackInfoRenderer
  | JSONRenderer | ConsoleRenderer | Wrap_for_formatter

datatype formatter =
    Percent_format string
  | ProcessorFormatter (formatter_processor: processor) (foreign_pre_chain: "processor list")

text \<open>A handler that writes to the standard output, by its formatter.\<close>

datatype stream_handler = StreamHandler formatter

record structlog_config =
  sl_processors :: "processor list"
  sl_logger_factory :: string
  sl_wrapper_class :: string
  sl_cache_logger_on_first_use :: bool

record logging_state =
  root_handlers :: "stream_handler list"
  root_level :: int
  structlog :: "structlog_config option"

definition LEVEL_NAMES :: "(string \<times> int) list" where
  "LEVEL_NAMES = [(''CRITICAL'', 50), (''FATAL'', 50), (''ERROR'', 40), (''WARN'', 30), (''WARNING'', 30),
     (''INFO'', 20), (''DEBUG'', 10), (''NOTSET'', 0)]"

text \<open>\<open>Logger.setLevel\<close> of a name: an unknown one is a \<open>ValueError\<close>.\<close>

definition set_level :: "string \<Rightarrow> logging_state \<Rightarrow> (exn, unit) result \<times> logging_state" where
  "set_level n l =
     (case map_of LEVEL_NAMES n of
        None \<Rightarrow> (Inl (Other_exn ''ValueError''), l)
      | Some v \<Rightarrow> (Inr (), l\<lparr>root_level := v\<rparr>))"

definition basicConfig :: "string \<Rightarrow> string \<Rightarrow> logging_state \<Rightarrow> (exn, unit) result \<times> logging_state" where
  "basicConfig fmt n l =
     (if root_handlers l \<noteq> [] then (Inr (), l)
      else set_level n (l\<lparr>root_handlers := [StreamHandler (Percent_format fmt)]\<rparr>))"

definition shared_processors :: "processor list" where
  "shared_processors = [Merge_contextvars, Add_log_level, Add_logger_name, TimeStamper ''iso'', StackInfoRenderer]"

definition renderer :: "Settings \<Rightarrow> processor" where
  "renderer S = (if is_production S then JSONRenderer else ConsoleRenderer)"

definition configure_logging :: "Settings \<Rightarrow> logging_state \<Rightarrow> (exn, unit) result \<times> logging_state" where
  "configure_logging S l =
     (case basicConfig ''%(message)s'' (log_level S) l of
        (Inl e, l) \<Rightarrow> (Inl e, l)
      | (Inr _, l) \<Rightarrow>
          let l = l\<lparr>structlog := Some \<lparr>sl_processors = shared_processors @ [Wrap_for_formatter],
                sl_logger_factory = ''structlog.stdlib.LoggerFactory'', sl_wrapper_class = ''structlog.stdlib.BoundLogger'',
                sl_cache_logger_on_first_use = True\<rparr>\<rparr>;
              l = l\<lparr>root_handlers := [StreamHandler (ProcessorFormatter (renderer S) shared_processors)]\<rparr>
          in set_level (log_level S) l)"

section \<open>What is configured\<close>

lemma configure_tracing_idempotent:
  "snd (configure_tracing S' (snd (configure_tracing S existing))) = snd (configure_tracing S existing)"
  by (simp add: configure_tracing_def split: option.splits)

lemma configure_tracing_installs: "snd (configure_tracing S existing) \<noteq> None"
  by (simp add: configure_tracing_def split: option.splits)

text \<open>
  Logging can be configured exactly when the level is one of Python's names, in capitals; then the
  root logger has one handler, which renders JSON in production only, and a line from structlog
  and one from any other logger pass through the same processors, the one that merges the
  correlation id first. Configuring twice is configuring once.
\<close>

definition logging_ready :: "Settings \<Rightarrow> logging_state \<Rightarrow> bool" where
  "logging_ready S l \<longleftrightarrow>
     (\<exists>chain. map_option sl_processors (structlog l) = Some (chain @ [Wrap_for_formatter])
        \<and> root_handlers l = [StreamHandler (ProcessorFormatter (if is_production S then JSONRenderer else ConsoleRenderer) chain)]
        \<and> hd chain = Merge_contextvars)
     \<and> map_of LEVEL_NAMES (log_level S) = Some (root_level l)"

lemma configure_logging_cases:
  "configure_logging S l = (r, l') \<Longrightarrow>
     (case r of Inl e \<Rightarrow> map_of LEVEL_NAMES (log_level S) = None \<and> e = Other_exn ''ValueError''
      | Inr _ \<Rightarrow> logging_ready S l')"
  by (auto simp: configure_logging_def basicConfig_def set_level_def Let_def logging_ready_def renderer_def
      shared_processors_def split: option.splits if_splits prod.splits sum.splits)

lemma configure_logging_succeeds_iff:
  "fst (configure_logging S l) = Inr () \<longleftrightarrow> log_level S \<in> set (map fst LEVEL_NAMES)"
  by (auto simp: configure_logging_def basicConfig_def set_level_def Let_def map_of_eq_None_iff
      split: option.splits if_splits prod.splits sum.splits dest: map_of_SomeD) (force dest: map_of_SomeD)+

lemma configure_logging_idempotent:
  "configure_logging S l = (Inr (), l') \<Longrightarrow> configure_logging S l' = (Inr (), l')"
  by (auto simp: configure_logging_def basicConfig_def set_level_def Let_def split: option.splits if_splits)

end
