(* ===== verification/Http_App.thy ===== *)
theory Http_App
  imports Proxy_Accounting
begin

text \<open>
  The application around the endpoints: \<^verbatim>\<open>middleware/request_id.py\<close>, \<^verbatim>\<open>middleware/metrics.py\<close>, the exception
  handler and the layering of \<^verbatim>\<open>main.py\<close>, \<^verbatim>\<open>api/health.py\<close>, and the chat-completions route with its
  authentication. The framework turns an HTTP exception into a response inside both middlewares;
  every other exception passes through them and becomes a bare server error outside.
\<close>

section \<open>Requests and responses\<close>

record http_request =
  rq_method :: string
  rq_route :: "string option"
  rq_headers :: "(string \<times> string) list"

datatype body = Json_body json | Text_body string | No_body | Endpoint_body response

record http_response =
  rs_status :: int
  rs_headers :: "(string \<times> string) list"
  rs_body :: body

datatype http_metric =
    Http_requests_total string string int
  | Http_request_duration_seconds string string rat

text \<open>Header names are compared without regard to case.\<close>

definition header :: "string \<Rightarrow> (string \<times> string) list \<Rightarrow> string option" where
  "header n hs = map_option snd (List.find (\<lambda>(k, _). str_lower k = str_lower n) hs)"

definition set_header :: "string \<Rightarrow> string \<Rightarrow> (string \<times> string) list \<Rightarrow> (string \<times> string) list" where
  "set_header n v hs = filter (\<lambda>(k, _). str_lower k \<noteq> str_lower n) hs @ [(n, v)]"

lemma header_set_header: "header n (set_header n v hs) = Some v"
proof -
  have "List.find (\<lambda>(k, _). str_lower k = str_lower n) (filter (\<lambda>(k, _). str_lower k \<noteq> str_lower n) hs) = None"
    by (auto simp: find_None_iff)
  then have "List.find (\<lambda>(k, _). str_lower k = str_lower n) (filter (\<lambda>(k, _). str_lower k \<noteq> str_lower n) hs @ [(n, v)]) = Some (n, v)"
    by (induction hs) (auto split: if_splits)
  then show ?thesis by (simp add: header_def set_header_def)
qed

section \<open>Exceptions\<close>

text \<open>The framework's own handler leaves the body out where the status does not allow one.\<close>

definition default_http_exception_handler :: "HTTPException \<Rightarrow> http_response" where
  "default_http_exception_handler exc =
     \<lparr>rs_status = status_code exc, rs_headers = headers exc,
      rs_body = (if status_code exc < 200 \<or> status_code exc \<in> {204, 205, 304} then No_body
                 else Json_body (JObj [(''detail'', detail exc)]))\<rparr>"

definition openai_style_http_exception_handler :: "HTTPException \<Rightarrow> http_response" where
  "openai_style_http_exception_handler exc =
     (if jget ''error'' (detail exc) \<noteq> None
      then \<lparr>rs_status = status_code exc, rs_headers = headers exc, rs_body = Json_body (detail exc)\<rparr>
      else default_http_exception_handler exc)"

definition handle_http_exceptions :: "('s \<Rightarrow> (failure, http_response) result \<times> 's) \<Rightarrow> 's \<Rightarrow> (failure, http_response) result \<times> 's" where
  "handle_http_exceptions endpoint s =
     (case endpoint s of
        (Inl (Http exc), s) \<Rightarrow> (Inr (openai_style_http_exception_handler exc), s)
      | out \<Rightarrow> out)"

section \<open>Middleware\<close>

definition CORRELATION_ID_HEADER :: string where
  "CORRELATION_ID_HEADER = ''X-Correlation-ID''"

definition correlation_id_of :: "uuid \<Rightarrow> http_request \<Rightarrow> string" where
  "correlation_id_of fresh request =
     (case header CORRELATION_ID_HEADER (rq_headers request) of Some v \<Rightarrow> v | None \<Rightarrow> uuid_str fresh)"

definition correlation_dispatch ::
  "uuid \<Rightarrow> (string \<Rightarrow> 's \<Rightarrow> (failure, http_response) result \<times> 's) \<Rightarrow> http_request \<Rightarrow> 's \<Rightarrow> (failure, http_response) result \<times> 's" where
  "correlation_dispatch fresh call_next request s =
     (let correlation_id = correlation_id_of fresh request in
      case call_next correlation_id s of
        (Inl f, s) \<Rightarrow> (Inl f, s)
      | (Inr response, s) \<Rightarrow>
          (Inr (response\<lparr>rs_headers := set_header CORRELATION_ID_HEADER correlation_id (rs_headers response)\<rparr>), s))"

definition prometheus_dispatch ::
  "rat \<Rightarrow> rat \<Rightarrow> (http_request \<Rightarrow> 's \<Rightarrow> (failure, http_response) result \<times> 's) \<Rightarrow> http_request \<Rightarrow> 's
     \<Rightarrow> (failure, http_response) result \<times> 's \<times> http_metric list" where
  "prometheus_dispatch started ended call_next request s =
     (case call_next request s of
        (Inl f, s) \<Rightarrow> (Inl f, s, [])
      | (Inr response, s) \<Rightarrow>
          let route_path = (case rq_route request of Some p \<Rightarrow> p | None \<Rightarrow> ''unmatched'')
          in (Inr response, s,
              [Http_requests_total (rq_method request) route_path (rs_status response),
               Http_request_duration_seconds (rq_method request) route_path (ended - started)]))"

definition server_error :: http_response where
  "server_error = \<lparr>rs_status = 500, rs_headers = [], rs_body = Text_body ''Internal Server Error''\<rparr>"

text \<open>
  \<open>create_app\<close>: Prometheus outside the correlation ids, both outside the exception handler. An
  endpoint gets the correlation id of its request.
\<close>

definition app ::
  "uuid \<Rightarrow> rat \<Rightarrow> rat \<Rightarrow> (string \<Rightarrow> 's \<Rightarrow> (failure, http_response) result \<times> 's) \<Rightarrow> http_request \<Rightarrow> 's
     \<Rightarrow> http_response \<times> 's \<times> http_metric list" where
  "app fresh started ended endpoint request s =
     (case prometheus_dispatch started ended (correlation_dispatch fresh (\<lambda>cid. handle_http_exceptions (endpoint cid))) request s of
        (Inl _, s, ms) \<Rightarrow> (server_error, s, ms)
      | (Inr response, s, ms) \<Rightarrow> (response, s, ms))"

section \<open>Health\<close>

definition check_text :: "(string, unit) result \<Rightarrow> string" where
  "check_text r = (case r of Inr _ \<Rightarrow> ''ok'' | Inl exc \<Rightarrow> ''error: '' @ exc)"

definition healthz :: "(string, unit) result \<Rightarrow> (string, unit) result \<Rightarrow> http_response" where
  "healthz database redis =
     (let checks = [(''database'', check_text database), (''redis'', check_text redis)];
          healthy = list_all (\<lambda>(_, v). v = ''ok'') checks
      in \<lparr>rs_status = (if healthy then 200 else 503), rs_headers = [],
          rs_body = Json_body (JObj [(''status'', JStr (if healthy then ''ok'' else ''degraded'')),
            (''checks'', JObj (map (\<lambda>(k, v). (k, JStr v)) checks))])\<rparr>)"

text \<open>
  \<^verbatim>\<open>api/metrics.py\<close>: what the client library renders of the counters, under its content type, to whoever
  asks.
\<close>

definition metrics_endpoint :: "('m \<Rightarrow> string) \<Rightarrow> string \<Rightarrow> 'm \<Rightarrow> http_response" where
  "metrics_endpoint generate_latest content_type_latest registry =
     \<lparr>rs_status = 200, rs_headers = [(''content-type'', content_type_latest)], rs_body = Text_body (generate_latest registry)\<rparr>"

lemma healthz_status: "rs_status (healthz d r) = (if (\<exists>x. d = Inr x) \<and> (\<exists>x. r = Inr x) then 200 else 503)"
  by (auto simp: healthz_def check_text_def split: sum.splits)

section \<open>What every response carries\<close>

text \<open>
  C38. Every request is stamped and counted, unless it ends in an exception nobody handles. When the
  endpoint answers or raises an HTTP error, the response carries the correlation id the endpoint
  saw, which is the client's own if it sent one, an error with an OpenAI-shaped detail is passed on
  verbatim, and exactly one count with the route's template and the response's status and one
  duration are recorded. Any other exception gives the client a bare 500 without a correlation id,
  and the request is not counted at all.
\<close>

theorem app_stamps_and_counts:
  fixes fresh :: uuid and request :: http_request
  assumes "endpoint (correlation_id_of fresh request) s = (r, s')"
  defines "cid \<equiv> correlation_id_of fresh request"
    and "path \<equiv> (case rq_route request of Some p \<Rightarrow> p | None \<Rightarrow> ''unmatched'')"
  shows "\<exists>resp ms. app fresh started ended endpoint request s = (resp, s', ms)
     \<and> (case r of
          Inr out \<Rightarrow> rs_status resp = rs_status out \<and> rs_body resp = rs_body out
            \<and> header CORRELATION_ID_HEADER (rs_headers resp) = Some cid
            \<and> ms = [Http_requests_total (rq_method request) path (rs_status resp), Http_request_duration_seconds (rq_method request) path (ended - started)]
        | Inl (Http exc) \<Rightarrow> rs_status resp = status_code exc \<and> header CORRELATION_ID_HEADER (rs_headers resp) = Some cid
            \<and> (jget ''error'' (detail exc) \<noteq> None \<longrightarrow> rs_body resp = Json_body (detail exc))
            \<and> ms = [Http_requests_total (rq_method request) path (rs_status resp), Http_request_duration_seconds (rq_method request) path (ended - started)]
        | Inl _ \<Rightarrow> resp = server_error \<and> header CORRELATION_ID_HEADER (rs_headers resp) = None \<and> ms = [])"
proof -
  have status: "rs_status (openai_style_http_exception_handler exc) = status_code exc" for exc
    by (simp add: openai_style_http_exception_handler_def default_http_exception_handler_def)
  show ?thesis
  proof (cases r)
    case (Inr out)
    with assms(1) show ?thesis
      by (simp add: app_def prometheus_dispatch_def correlation_dispatch_def handle_http_exceptions_def Let_def
          header_set_header cid_def path_def)
  next
    case (Inl f)
    with assms(1) status show ?thesis
      by (cases f) (simp_all add: app_def prometheus_dispatch_def correlation_dispatch_def handle_http_exceptions_def Let_def
          header_set_header cid_def path_def server_error_def header_def [of _ "[]"] openai_style_http_exception_handler_def)
  qed
qed

theorem app_stamps_and_counts_witness:
  "\<exists>resp. app 7 0 1 (\<lambda>_ s. (Inl (Db DataError), s)) \<lparr>rq_method = ''POST'', rq_route = Some ''/v1/chat/completions'',
       rq_headers = [(''x-correlation-id'', ''abc'')]\<rparr> () = (resp, (), []) \<and> resp = server_error"
  using app_stamps_and_counts [of "\<lambda>_ s. (Inl (Db DataError), s)" 7 "\<lparr>rq_method = ''POST'', rq_route = Some ''/v1/chat/completions'',
       rq_headers = [(''x-correlation-id'', ''abc'')]\<rparr>" "()" "Inl (Db DataError)" "()" 0 1] by simp

section \<open>The chat-completions route\<close>

text \<open>
  The dependencies of a route run before it, on the same database session. The content type and
  length headers the framework adds are left out.
\<close>

definition chat_endpoint ::
  "crypto \<Rightarrow> string \<Rightarrow> 's env \<Rightarrow> http_request \<Rightarrow> ChatCompletionRequest \<Rightarrow> string \<Rightarrow> 's gateway
     \<Rightarrow> (failure, http_response) result \<times> 's gateway" where
  "chat_endpoint K pepper E request body cid g =
     (case get_current_tenant K pepper (header ''authorization'' (rq_headers request)) (Some cid) (g_session g) of
        (Inl f, s) \<Rightarrow> (Inl f, g\<lparr>g_session := s\<rparr>)
      | (Inr tenant, s) \<Rightarrow>
          (case chat_completions E tenant (header ''Idempotency-Key'' (rq_headers request)) (Some cid) body (g\<lparr>g_session := s\<rparr>) of
             (Inl f, g) \<Rightarrow> (Inl f, g)
           | (Inr resp, g) \<Rightarrow>
               (Inr \<lparr>rs_status = 200, rs_headers = (case resp of Json_response _ hs \<Rightarrow> hs | Sse_response _ _ \<Rightarrow> []),
                     rs_body = Endpoint_body resp\<rparr>, g)))"

lemma app_state: "endpoint (correlation_id_of fresh request) s = (r, s') \<Longrightarrow> fst (snd (app fresh a b endpoint request s)) = s'"
  by (auto simp: app_def prometheus_dispatch_def correlation_dispatch_def handle_http_exceptions_def Let_def
      split: sum.splits failure.splits)

lemma app_failure_status:
  "endpoint (correlation_id_of fresh request) s = (Inl f, s') \<Longrightarrow>
   rs_status (fst (app fresh a b endpoint request s)) = (case f of Http exc \<Rightarrow> status_code exc | _ \<Rightarrow> 500)"
  by (cases f) (simp_all add: app_def prometheus_dispatch_def correlation_dispatch_def handle_http_exceptions_def Let_def
      server_error_def openai_style_http_exception_handler_def default_http_exception_handler_def)

lemma bill_ok_rows:
  assumes "bill_ok E tenant r rows"
  shows "length rows \<le> 1 \<and> (\<forall>row \<in> set rows. ur_tenant_id row = tenant_id tenant \<and> ur_api_key_id row = api_key_id tenant)"
  using assms by (cases "(E, tenant, r, rows)" rule: bill_ok.cases) (auto simp: billed_for_def usage_of_def split: option.splits)

lemma touched_quiet: "quiet (touched k s)" "usage_records (committed (touched k s)) = usage_records (working s)"
  by (simp_all add: touched_def Let_def quiet_def)

text \<open>
  One request on a quiet session and well-formed tables: rejected at the door, or run for the tenant
  and key that the tables say its credentials belong to.
\<close>

lemma chat_endpoint_run:
  fixes g :: "'s gateway"
  assumes "quiet (g_session g)" "db_ok (committed (g_session g))" "chat_endpoint K pepper E request body cid g = (r, g')"
  shows "case auth_decision K pepper (header ''authorization'' (rq_headers request)) (committed (g_session g)) of
      Inl _ \<Rightarrow> (\<exists>f. r = Inl f \<and> (case f of Http exc \<Rightarrow> status_code exc = 401 | Db _ \<Rightarrow> True | Uncaught _ \<Rightarrow> False))
         \<and> g_redis g' = g_redis g \<and> g_providers g' = g_providers g \<and> g_metrics g' = g_metrics g \<and> quiet (g_session g')
         \<and> usage_records (committed (g_session g')) = usage_records (committed (g_session g))
         \<and> identities (committed (g_session g')) = identities (committed (g_session g))
    | Inr (t, k) \<Rightarrow> \<exists>r2 rows. chat_completions E (tenant_context t k) (header ''Idempotency-Key'' (rq_headers request)) (Some cid) body
             (g\<lparr>g_session := touched k (g_session g)\<rparr>) = (r2, g')
         \<and> (case r2 of Inl f \<Rightarrow> r = Inl f
            | Inr resp \<Rightarrow> \<exists>out. r = Inr out \<and> rs_status out = 200 \<and> rs_body out = Endpoint_body resp)
         \<and> usage_records (committed (g_session g')) = usage_records (committed (g_session g)) @ rows
         \<and> bill_ok E (tenant_context t k) r2 rows
         \<and> identities (committed (g_session g')) = identities (committed (touched k (g_session g)))"
proof -
  let ?s = "g_session g" and ?auth = "header ''authorization'' (rq_headers request)"
  have q: "pending ?s = []" "working ?s = committed ?s" "db_ok (working ?s)" using assms(1,2) by (simp_all add: quiet_def)
  note eval = get_current_tenant_eval [OF q(1,3), of K pepper ?auth "Some cid"]
  show ?thesis
  proof (cases "auth_decision K pepper ?auth (committed ?s)")
    case (Inl x)
    obtain tid det err where x: "x = (tid, det, err)" by (cases x)
    obtain w s1 where w: "write_audit_event tid ''auth.failure'' (Some cid) det ?s = (w, s1)" by fastforce
    have out: "r = Inl (case w of Inl e \<Rightarrow> Db e | Inr _ \<Rightarrow> Http err)" "g' = g\<lparr>g_session := s1\<rparr>"
      using assms(3) by (auto simp: chat_endpoint_def eval q(2) Inl x audit_and_raise_def w split: sum.splits)
    have "status_code err = 401" using auth_decision_rejects [OF q(3)] Inl x q(2) by auto
    then show ?thesis using write_audit_event_quiet [OF assms(1) w] out by (auto simp: Inl split: sum.splits)
  next
    case (Inr tk)
    obtain t k where tk: "tk = (t, k)" by (cases tk)
    obtain r2 g2 where c: "chat_completions E (tenant_context t k) (header ''Idempotency-Key'' (rq_headers request)) (Some cid) body
        (g\<lparr>g_session := touched k ?s\<rparr>) = (r2, g2)" by fastforce
    have r: "g' = g2" "case r2 of Inl f \<Rightarrow> r = Inl f
        | Inr resp \<Rightarrow> \<exists>out. r = Inr out \<and> rs_status out = 200 \<and> rs_body out = Endpoint_body resp"
      using assms(3) by (auto simp: chat_endpoint_def eval q(2) Inr tk c split: sum.splits)
    have "quiet (g_session (g\<lparr>g_session := touched k ?s\<rparr>))" by (simp add: touched_quiet)
    from chat_completions_bill [OF this c] show ?thesis
      using c r by (auto simp: Inr tk touched_quiet q(2))
  qed
qed



end
