(* ===== verification/Admin_Api.thy ===== *)
theory Admin_Api
  imports Auth Config
begin

text \<open>
  \<^verbatim>\<open>api/admin.py\<close> and \<^verbatim>\<open>schemas/admin.py\<close>: the administration endpoints, each as a function of its
  request and of the database session. An endpoint runs after \<open>get_current_admin\<close> on the same
  session. Rows that SQL may return in any order (equal timestamps) keep the order of the table.
\<close>

section \<open>Requests and responses\<close>

record AdminLoginRequest =
  lr_email :: string
  lr_password :: string

record TokenResponse =
  access_token :: string
  token_type :: string
  expires_in_minutes :: int

record TenantCreateRequest =
  tc_name :: string
  tc_monthly_budget_usd :: rat
  tc_rate_limit_rpm :: int
  tc_rate_limit_tpm :: int
  tc_max_concurrent_requests :: int
  tc_pii_redaction_enabled :: bool
  tc_injection_detection_enabled :: bool
  tc_injection_detection_threshold :: rat
  tc_injection_detection_mode :: injection_mode
  tc_cache_enabled :: bool

definition tenant_create_defaults :: "string \<Rightarrow> TenantCreateRequest" where
  "tenant_create_defaults n =
     \<lparr>tc_name = n, tc_monthly_budget_usd = 100, tc_rate_limit_rpm = 60, tc_rate_limit_tpm = 100000,
      tc_max_concurrent_requests = 5, tc_pii_redaction_enabled = True, tc_injection_detection_enabled = True,
      tc_injection_detection_threshold = 3 / 4, tc_injection_detection_mode = Block, tc_cache_enabled = True\<rparr>"

text \<open>
  A field of a PATCH body: absent, an explicit \<open>null\<close>, or a value. A \<open>Decimal\<close> comes with the
  number of its fraction digits.
\<close>

datatype 'a field = Unset | Null | Given 'a

record TenantUpdateRequest =
  tu_name :: "string field"
  tu_monthly_budget_usd :: "(nat \<times> rat) field"
  tu_rate_limit_rpm :: "int field"
  tu_rate_limit_tpm :: "int field"
  tu_max_concurrent_requests :: "int field"
  tu_pii_redaction_enabled :: "bool field"
  tu_injection_detection_enabled :: "bool field"
  tu_injection_detection_threshold :: "rat field"
  tu_injection_detection_mode :: "injection_mode field"
  tu_cache_enabled :: "bool field"
  tu_is_active :: "bool field"

text \<open>
  Responses are filtered by their models: the hash of a key's secret is not among the fields of a
  key's response, nor the tenant and the key among those of a usage record. The endpoints on tenants
  and audit events return rows; \<open>Admin_Routes\<close> puts them into their response models.
\<close>

record ApiKeyResponse =
  kr_key_id :: string
  kr_name :: string
  kr_created_at :: datetime
  kr_revoked_at :: "datetime option"
  kr_last_used_at :: "datetime option"

record ApiKeyCreatedResponse = ApiKeyResponse +
  kr_api_key :: string

definition api_key_response :: "ApiKey \<Rightarrow> ApiKeyResponse" where
  "api_key_response k = \<lparr>kr_key_id = ak_key_id k, kr_name = ak_name k, kr_created_at = ak_created_at k,
     kr_revoked_at = ak_revoked_at k, kr_last_used_at = ak_last_used_at k\<rparr>"

record UsageRecordResponse =
  rr_id :: uuid
  rr_provider :: string
  rr_model :: string
  rr_prompt_tokens :: int
  rr_completion_tokens :: int
  rr_total_tokens :: int
  rr_cost_usd :: rat
  rr_cache_hit :: bool
  rr_correlation_id :: "string option"
  rr_created_at :: datetime

definition usage_record_response :: "UsageRecord \<Rightarrow> UsageRecordResponse" where
  "usage_record_response u = \<lparr>rr_id = ur_id u, rr_provider = ur_provider u, rr_model = ur_model u,
     rr_prompt_tokens = ur_prompt_tokens u, rr_completion_tokens = ur_completion_tokens u, rr_total_tokens = ur_total_tokens u,
     rr_cost_usd = ur_cost_usd u, rr_cache_hit = ur_cache_hit u, rr_correlation_id = ur_correlation_id u,
     rr_created_at = ur_created_at u\<rparr>"

record UsageRollupResponse =
  lr_period_type :: string
  lr_period_start :: datetime
  lr_request_count :: int
  lr_cache_hit_count :: int
  lr_prompt_tokens :: int
  lr_completion_tokens :: int
  lr_total_tokens :: int
  lr_cost_usd :: rat

definition usage_rollup_response :: "UsageRollup \<Rightarrow> UsageRollupResponse" where
  "usage_rollup_response r = \<lparr>lr_period_type = ro_period_type r, lr_period_start = ro_period_start r,
     lr_request_count = ro_request_count r, lr_cache_hit_count = ro_cache_hit_count r, lr_prompt_tokens = ro_prompt_tokens r,
     lr_completion_tokens = ro_completion_tokens r, lr_total_tokens = ro_total_tokens r, lr_cost_usd = ro_cost_usd r\<rparr>"

section \<open>Helpers\<close>

fun stringify_decimal :: "pyval \<Rightarrow> pyval" where
  "stringify_decimal (PDec k x) = PStr (decimal_str k x)"
| "stringify_decimal v = v"

text \<open>Only the top level of the dictionary is converted.\<close>

definition json_safe :: "(string \<times> pyval) list \<Rightarrow> (string \<times> pyval) list" where
  "json_safe value = map (\<lambda>(k, v). (k, stringify_decimal v)) value"

definition audited_result :: "(db_error, unit) result \<times> session \<Rightarrow> 'a \<Rightarrow> (failure, 'a) result \<times> session" where
  "audited_result r x = (case r of (Inl e, s) \<Rightarrow> (Inl (Db e), s) | (Inr _, s) \<Rightarrow> (Inr x, s))"

definition newest_first :: "('a \<Rightarrow> datetime) \<Rightarrow> 'a list \<Rightarrow> 'a list" where
  "newest_first created xs = sort_key (\<lambda>x. - created x) xs"

definition page :: "nat \<Rightarrow> nat \<Rightarrow> 'a list \<Rightarrow> 'a list" where
  "page limit offset xs = take limit (drop offset xs)"

definition tenant_not_found :: HTTPException where
  "tenant_not_found = plain_error 404 ''Tenant not found.''"

section \<open>Login\<close>

definition login ::
  "crypto \<Rightarrow> Settings \<Rightarrow> rat \<Rightarrow> string option \<Rightarrow> AdminLoginRequest \<Rightarrow> session \<Rightarrow> (failure, TokenResponse) result \<times> session" where
  "login K S now cid payload s =
     (let s = set_rls_context None True s;
          failed = audit_and_raise None ''admin.login_failure'' cid [(''email'', PStr (lr_email payload))]
                     (UnauthorizedError ''Invalid email or password.'') in
      case scalar_one_or_none (filter (\<lambda>a. au_email a = lr_email payload) (admin_users (working s))) of
        Inl e \<Rightarrow> (Inl (Db e), s)
      | Inr None \<Rightarrow> failed s
      | Inr (Some admin) \<Rightarrow>
          (case verify_password K (lr_password payload) (au_hashed_password admin) of
             Inl e \<Rightarrow> (Inl (Uncaught (Other_exn e)), s)
           | Inr False \<Rightarrow> failed s
           | Inr True \<Rightarrow>
               (Inr \<lparr>access_token = create_admin_jwt K now (uuid_str (au_id admin)) (jwt_secret S) (jwt_algorithm S)
                       (jwt_expire_minutes S),
                     token_type = ''bearer'', expires_in_minutes = jwt_expire_minutes S\<rparr>, s)))"

section \<open>Tenants\<close>

definition new_tenant :: "uuid \<Rightarrow> datetime \<Rightarrow> TenantCreateRequest \<Rightarrow> Tenant" where
  "new_tenant i now p =
     \<lparr>t_id = i, t_name = tc_name p, t_monthly_budget_usd = tc_monthly_budget_usd p, t_rate_limit_rpm = tc_rate_limit_rpm p,
      t_rate_limit_tpm = tc_rate_limit_tpm p, t_max_concurrent_requests = tc_max_concurrent_requests p,
      t_pii_redaction_enabled = tc_pii_redaction_enabled p,
      t_injection_detection_enabled = tc_injection_detection_enabled p,
      t_injection_detection_threshold = tc_injection_detection_threshold p,
      t_injection_detection_mode = tc_injection_detection_mode p, t_cache_enabled = tc_cache_enabled p,
      t_is_active = True, t_created_at = now\<rparr>"

definition create_tenant ::
  "AdminContext \<Rightarrow> string option \<Rightarrow> TenantCreateRequest \<Rightarrow> session \<Rightarrow> (failure, Tenant) result \<times> session" where
  "create_tenant admin cid payload s =
     (let s = set_rls_context None True s;
          tenant = new_tenant (uuid4 s (drawn s)) (clock s) payload;
          s = session_add (Ins_tenant tenant) (s\<lparr>drawn := drawn s + 1\<rparr>) in
      case flush s of
        (Inl e, s) \<Rightarrow> (Inl (Db e), s)
      | (Inr _, s) \<Rightarrow>
          audited_result (write_audit_event (Some (t_id tenant)) ''admin.tenant_created'' cid
            (json_safe [(''admin_id'', PStr (uuid_str (ac_admin_id admin))), (''name'', PStr (t_name tenant))]) s) tenant)"

definition list_tenants :: "nat \<Rightarrow> nat \<Rightarrow> session \<Rightarrow> Tenant list \<times> session" where
  "list_tenants limit offset s =
     (let s = set_rls_context None True s in (page limit offset (newest_first t_created_at (tenants (working s))), s))"

definition get_tenant :: "uuid \<Rightarrow> session \<Rightarrow> (failure, Tenant) result \<times> session" where
  "get_tenant tid s =
     (let s = set_rls_context None True s in
      case get_tenant_row tid s of
        None \<Rightarrow> (Inl (Http tenant_not_found), s)
      | Some tenant \<Rightarrow> (Inr tenant, s))"

text \<open>\<open>payload.model_dump(exclude_unset=True)\<close>, in the order of the fields.\<close>

definition dump_field :: "string \<Rightarrow> ('a \<Rightarrow> pyval) \<Rightarrow> 'a field \<Rightarrow> (string \<times> pyval) list" where
  "dump_field n py f = (case f of Unset \<Rightarrow> [] | Null \<Rightarrow> [(n, PNone)] | Given x \<Rightarrow> [(n, py x)])"

definition changes_of :: "TenantUpdateRequest \<Rightarrow> (string \<times> pyval) list" where
  "changes_of p =
     dump_field ''name'' PStr (tu_name p) @
     dump_field ''monthly_budget_usd'' (\<lambda>(k, x). PDec k x) (tu_monthly_budget_usd p) @
     dump_field ''rate_limit_rpm'' PInt (tu_rate_limit_rpm p) @
     dump_field ''rate_limit_tpm'' PInt (tu_rate_limit_tpm p) @
     dump_field ''max_concurrent_requests'' PInt (tu_max_concurrent_requests p) @
     dump_field ''pii_redaction_enabled'' PBool (tu_pii_redaction_enabled p) @
     dump_field ''injection_detection_enabled'' PBool (tu_injection_detection_enabled p) @
     dump_field ''injection_detection_threshold'' PFloat (tu_injection_detection_threshold p) @
     dump_field ''injection_detection_mode'' (\<lambda>m. PStr (case m of Block \<Rightarrow> ''block'' | Log \<Rightarrow> ''log'')) (tu_injection_detection_mode p) @
     dump_field ''cache_enabled'' PBool (tu_cache_enabled p) @
     dump_field ''is_active'' PBool (tu_is_active p)"

text \<open>\<open>setattr(tenant, field, value)\<close>: \<open>None\<close> once a column that must not be null is set to it.\<close>

definition set_field :: "('a \<Rightarrow> Tenant \<Rightarrow> Tenant) \<Rightarrow> 'a field \<Rightarrow> Tenant option \<Rightarrow> Tenant option" where
  "set_field upd f t = (case f of Unset \<Rightarrow> t | Null \<Rightarrow> None | Given x \<Rightarrow> map_option (upd x) t)"

definition apply_changes :: "TenantUpdateRequest \<Rightarrow> Tenant \<Rightarrow> Tenant option" where
  "apply_changes p t =
     (let t = set_field (\<lambda>x r. r\<lparr>t_name := x\<rparr>) (tu_name p) (Some t);
          t = set_field (\<lambda>x r. r\<lparr>t_monthly_budget_usd := snd x\<rparr>) (tu_monthly_budget_usd p) t;
          t = set_field (\<lambda>x r. r\<lparr>t_rate_limit_rpm := x\<rparr>) (tu_rate_limit_rpm p) t;
          t = set_field (\<lambda>x r. r\<lparr>t_rate_limit_tpm := x\<rparr>) (tu_rate_limit_tpm p) t;
          t = set_field (\<lambda>x r. r\<lparr>t_max_concurrent_requests := x\<rparr>) (tu_max_concurrent_requests p) t;
          t = set_field (\<lambda>x r. r\<lparr>t_pii_redaction_enabled := x\<rparr>) (tu_pii_redaction_enabled p) t;
          t = set_field (\<lambda>x r. r\<lparr>t_injection_detection_enabled := x\<rparr>) (tu_injection_detection_enabled p) t;
          t = set_field (\<lambda>x r. r\<lparr>t_injection_detection_threshold := x\<rparr>) (tu_injection_detection_threshold p) t;
          t = set_field (\<lambda>x r. r\<lparr>t_injection_detection_mode := x\<rparr>) (tu_injection_detection_mode p) t;
          t = set_field (\<lambda>x r. r\<lparr>t_cache_enabled := x\<rparr>) (tu_cache_enabled p) t
      in set_field (\<lambda>x r. r\<lparr>t_is_active := x\<rparr>) (tu_is_active p) t)"

text \<open>
  The unit of work flushes the changed row before the audit row. A response needs every field, so
  the row handed back is the changed one; with a null field the commit has failed before.
\<close>

definition update_tenant ::
  "AdminContext \<Rightarrow> string option \<Rightarrow> uuid \<Rightarrow> TenantUpdateRequest \<Rightarrow> session \<Rightarrow> (failure, Tenant) result \<times> session" where
  "update_tenant admin cid tid payload s =
     (let s = set_rls_context None True s in
      case get_tenant_row tid s of
        None \<Rightarrow> (Inl (Http tenant_not_found), s)
      | Some tenant \<Rightarrow>
          let changes = changes_of payload;
              tenant' = apply_changes payload tenant;
              s = (if changes = [] then s else session_add (Upd_tenant tid tenant') s)
          in audited_result (write_audit_event (Some (t_id tenant)) ''admin.tenant_updated'' cid
               (json_safe [(''admin_id'', PStr (uuid_str (ac_admin_id admin))), (''changes'', PDict changes)]) s)
               (case tenant' of Some t \<Rightarrow> t | None \<Rightarrow> tenant))"

section \<open>API keys\<close>

definition create_api_key ::
  "crypto \<Rightarrow> Settings \<Rightarrow> AdminContext \<Rightarrow> string option \<Rightarrow> nat \<Rightarrow> nat \<Rightarrow> uuid \<Rightarrow> string \<Rightarrow> session
     \<Rightarrow> (failure, ApiKeyCreatedResponse) result \<times> session" where
  "create_api_key K S admin cid r1 r2 tid name s =
     (let s = set_rls_context None True s in
      case get_tenant_row tid s of
        None \<Rightarrow> (Inl (Http tenant_not_found), s)
      | Some tenant \<Rightarrow>
          let (full_key, key_id, secret_part) = generate_api_key r1 r2;
              api_key = \<lparr>ak_id = uuid4 s (drawn s), ak_tenant_id = t_id tenant, ak_key_id = key_id,
                         ak_hashed_secret = hash_api_key_secret K secret_part (api_key_pepper S), ak_name = name,
                         ak_scopes = [], ak_created_at = clock s, ak_revoked_at = None, ak_last_used_at = None\<rparr>;
              s = session_add (Ins_api_key api_key) (s\<lparr>drawn := drawn s + 1\<rparr>) in
          (case flush s of
             (Inl e, s) \<Rightarrow> (Inl (Db e), s)
           | (Inr _, s) \<Rightarrow>
               audited_result (write_audit_event (Some (t_id tenant)) ''admin.api_key_issued'' cid
                 [(''admin_id'', PStr (uuid_str (ac_admin_id admin))), (''key_id'', PStr key_id), (''name'', PStr name)] s)
                 \<lparr>kr_key_id = ak_key_id api_key, kr_name = ak_name api_key, kr_created_at = ak_created_at api_key,
                  kr_revoked_at = ak_revoked_at api_key, kr_last_used_at = ak_last_used_at api_key, kr_api_key = full_key\<rparr>))"

definition list_api_keys :: "uuid \<Rightarrow> session \<Rightarrow> ApiKeyResponse list \<times> session" where
  "list_api_keys tid s =
     (let s = set_rls_context None True s in
      (map api_key_response (newest_first ak_created_at (select_api_keys (\<lambda>k. ak_tenant_id k = tid) s)), s))"

definition revoke_api_key ::
  "AdminContext \<Rightarrow> string option \<Rightarrow> uuid \<Rightarrow> string \<Rightarrow> session \<Rightarrow> (failure, unit) result \<times> session" where
  "revoke_api_key admin cid tid key_id s =
     (let s = set_rls_context None True s in
      case scalar_one_or_none (select_api_keys (\<lambda>k. ak_tenant_id k = tid \<and> ak_key_id k = key_id) s) of
        Inl e \<Rightarrow> (Inl (Db e), s)
      | Inr None \<Rightarrow> (Inl (Http (plain_error 404 ''API key not found.'')), s)
      | Inr (Some api_key) \<Rightarrow>
          if ak_revoked_at api_key = None then
            audited_result (write_audit_event (Some tid) ''admin.api_key_revoked'' cid
              [(''admin_id'', PStr (uuid_str (ac_admin_id admin))), (''key_id'', PStr key_id)]
              (session_add (Upd_api_key (api_key\<lparr>ak_revoked_at := Some (clock s)\<rparr>)) s)) ()
          else (Inr (), s))"

section \<open>Usage and audit views\<close>

definition list_usage_records :: "uuid \<Rightarrow> nat \<Rightarrow> nat \<Rightarrow> session \<Rightarrow> UsageRecordResponse list \<times> session" where
  "list_usage_records tid limit offset s =
     (let s = set_rls_context None True s in
      (map usage_record_response
         (page limit offset (newest_first ur_created_at (select_usage_records (\<lambda>r. ur_tenant_id r = tid) s))), s))"

definition list_usage_rollups :: "uuid \<Rightarrow> string \<Rightarrow> nat \<Rightarrow> session \<Rightarrow> UsageRollupResponse list \<times> session" where
  "list_usage_rollups tid period_type limit s =
     (let s = set_rls_context None True s in
      (map usage_rollup_response (page limit 0 (newest_first ro_period_start
         (select_usage_rollups (\<lambda>r. ro_tenant_id r = tid \<and> ro_period_type r = period_type) s))), s))"

definition event_matches :: "string option \<Rightarrow> AuditLog \<Rightarrow> bool" where
  "event_matches event_type r = (case event_type of Some (c # cs) \<Rightarrow> al_event_type r = c # cs | _ \<Rightarrow> True)"

definition list_tenant_audit_log :: "uuid \<Rightarrow> string option \<Rightarrow> nat \<Rightarrow> session \<Rightarrow> AuditLog list \<times> session" where
  "list_tenant_audit_log tid event_type limit s =
     (let s = set_rls_context None True s in
      (page limit 0 (newest_first al_created_at
         (select_audit_log (\<lambda>r. al_tenant_id r = Some tid \<and> event_matches event_type r) s)), s))"

definition list_audit_log :: "uuid option \<Rightarrow> string option \<Rightarrow> nat \<Rightarrow> session \<Rightarrow> AuditLog list \<times> session" where
  "list_audit_log tid event_type limit s =
     (let s = set_rls_context None True s in
      (page limit 0 (newest_first al_created_at
         (select_audit_log (\<lambda>r. (case tid of None \<Rightarrow> True | Some t \<Rightarrow> al_tenant_id r = Some t) \<and> event_matches event_type r) s)), s))"

end
