(* ===== verification/Admin_Invariants.thy ===== *)
theory Admin_Invariants
  imports Admin_Api
begin

text \<open>
  The database under every sequence of requests. A request opens a session on the committed
  tables, runs one endpoint and closes the session, which discards what it did not commit. The
  transitions are the administration endpoints, the authentication of tenant requests and the
  audit and usage writes of the proxy; whatever their arguments, they keep the tables well-formed
  and never bring a revoked key back.
\<close>

section \<open>Evolution of the tables\<close>

definition schema_ok :: "db \<Rightarrow> bool" where
  "schema_ok d \<longleftrightarrow> db_ok d \<and> distinct (map t_name (tenants d))
     \<and> distinct (map au_id (admin_users d)) \<and> distinct (map au_email (admin_users d))"

text \<open>
  Statements the program issues: an update writes back a row it read, with the key columns as they
  were and without taking a revocation away.
\<close>

definition keeps_row :: "ApiKey \<Rightarrow> ApiKey \<Rightarrow> bool" where
  "keeps_row r k \<longleftrightarrow> ak_id k = ak_id r \<and> ak_key_id k = ak_key_id r \<and> ak_tenant_id k = ak_tenant_id r
     \<and> (ak_revoked_at r \<noteq> None \<longrightarrow> ak_revoked_at k \<noteq> None)"

fun issued :: "db \<Rightarrow> stmt \<Rightarrow> bool" where
  "issued d (Upd_tenant i (Some t)) \<longleftrightarrow> t_id t = i"
| "issued d (Upd_api_key k) \<longleftrightarrow> list_ex (\<lambda>r. keeps_row r k) (api_keys d)"
| "issued d _ \<longleftrightarrow> True"

inductive evolves :: "db \<Rightarrow> db \<Rightarrow> bool" where
  stop: "evolves d d"
| stmt: "evolves d (working s) \<Longrightarrow> issued (working s) x \<Longrightarrow> exec_stmt s x = Inr s' \<Longrightarrow> evolves d (working s')"

definition revoked :: "string \<Rightarrow> db \<Rightarrow> bool" where
  "revoked key_id d \<longleftrightarrow> list_ex (\<lambda>k. ak_key_id k = key_id \<and> ak_revoked_at k \<noteq> None) (api_keys d)"

lemma map_replace_same:
  "(\<And>y. y \<in> set xs \<Longrightarrow> key y = key x \<Longrightarrow> f y = f x) \<Longrightarrow> map f (replace_by key x xs) = map f xs"
  by (auto simp: replace_by_def)

lemma distinct_key_unique: "distinct (map f xs) \<Longrightarrow> x \<in> set xs \<Longrightarrow> y \<in> set xs \<Longrightarrow> f x = f y \<Longrightarrow> x = y"
  by (meson distinct_map inj_onD)

lemma tenant_exists_iff: "tenant_exists d i \<longleftrightarrow> i \<in> set (map t_id (tenants d))"
  by (auto simp: tenant_exists_def list_ex_iff)

lemma tenant_exists_replace [simp]:
  "tenant_exists (d\<lparr>tenants := replace_by t_id t (tenants d)\<rparr>) i \<longleftrightarrow> tenant_exists d i"
  using map_replace_same [of "tenants d" t_id t t_id] by (simp add: tenant_exists_iff del: set_map)

lemma tenant_exists_keys [simp]:
  "tenant_exists (d\<lparr>api_keys := ks\<rparr>) i = tenant_exists d i" "tenant_exists (d\<lparr>audit_log := ls\<rparr>) i = tenant_exists d i"
  "tenant_exists (d\<lparr>usage_records := us\<rparr>) i = tenant_exists d i" "tenant_exists (d\<lparr>admin_users := as\<rparr>) i = tenant_exists d i"
  by (simp_all add: tenant_exists_def)

lemma stored_tenant_simps [simp]: "t_id (stored_tenant t) = t_id t" "t_name (stored_tenant t) = t_name t"
  by (simp_all add: stored_tenant_def)

lemma issued_tenant_update:
  assumes "schema_ok (working s)" "t_id t = i" "exec_stmt s (Upd_tenant i (Some t)) = Inr s'"
  shows "schema_ok (working s')"
proof -
  let ?xs = "tenants (working s)"
  have e: "working s' = (working s)\<lparr>tenants := replace_by t_id (stored_tenant t) ?xs\<rparr>"
    and n: "\<forall>r \<in> set ?xs. t_name r = t_name t \<longrightarrow> t_id r = i"
    using assms(3) by (auto simp: list_ex_iff split: if_splits)
  have ids: "map t_id (replace_by t_id (stored_tenant t) ?xs) = map t_id ?xs" by (rule map_replace_same) simp
  have names: "distinct (map t_name (replace_by t_id (stored_tenant t) ?xs))"
  proof -
    have d: "distinct (map t_name ?xs)" "distinct (map t_id ?xs)" using assms(1) by (simp_all add: schema_ok_def db_ok_def)
    have "inj_on (\<lambda>r. t_name (if t_id r = i then stored_tenant t else r)) (set ?xs)"
      using n distinct_key_unique [OF d(1)] distinct_key_unique [OF d(2)] by (auto intro!: inj_onI split: if_splits)
    then show ?thesis
      using d(2) assms(2) by (simp add: replace_by_def distinct_map comp_def)
  qed
  show ?thesis
    using assms(1) ids names by (simp add: e schema_ok_def db_ok_def)
qed

lemma issued_key_update:
  assumes "schema_ok (working s)" "list_ex (\<lambda>r. keeps_row r k) (api_keys (working s))" "exec_stmt s (Upd_api_key k) = Inr s'"
  shows "schema_ok (working s')"
proof -
  let ?xs = "api_keys (working s)"
  obtain r where r: "r \<in> set ?xs" "keeps_row r k" using assms(2) by (auto simp: list_ex_iff)
  have e: "working s' = (working s)\<lparr>api_keys := replace_by ak_id k ?xs\<rparr>" using assms(3) by (auto split: if_splits)
  have d: "distinct (map ak_id ?xs)" using assms(1) by (simp add: schema_ok_def db_ok_def)
  have u: "y = r" if "y \<in> set ?xs" "ak_id y = ak_id k" for y
    using distinct_key_unique [OF d that(1) r(1)] that(2) r(2) by (simp add: keeps_row_def)
  have m: "map f (replace_by ak_id k ?xs) = map f ?xs" if "f r = f k" for f :: "ApiKey \<Rightarrow> 'a"
    using that u by (intro map_replace_same) auto
  have "list_all (\<lambda>k. tenant_exists (working s) (ak_tenant_id k)) (replace_by ak_id k ?xs)"
    using assms(1) r by (auto simp: replace_by_def list_all_iff schema_ok_def db_ok_def keeps_row_def)
  then show ?thesis
    using assms(1) r(2) m [of ak_id] m [of ak_key_id] by (simp add: e schema_ok_def db_ok_def keeps_row_def)
qed

lemma issued_keeps_schema:
  assumes "schema_ok (working s)" "issued (working s) x" "exec_stmt s x = Inr s'"
  shows "schema_ok (working s')"
proof (cases "(s, x)" rule: exec_stmt.cases)
  case (3 s1 i t)
  then show ?thesis using assms issued_tenant_update by auto
next
  case (5 s1 k)
  then show ?thesis using assms issued_key_update by auto
qed (use assms in \<open>(auto simp: schema_ok_def db_ok_def list_ex_iff list_all_iff tenant_exists_iff image_iff
      split: if_splits option.splits; blast)\<close>)+

lemma issued_keeps_revoked:
  assumes "schema_ok (working s)" "issued (working s) x" "exec_stmt s x = Inr s'" "revoked i (working s)"
  shows "revoked i (working s')"
proof (cases "(s, x)" rule: exec_stmt.cases)
  case (5 s1 k)
  obtain r where r: "r \<in> set (api_keys (working s))" "keeps_row r k" using assms(2) 5 by (auto simp: list_ex_iff)
  obtain q where q: "q \<in> set (api_keys (working s))" "ak_key_id q = i" "ak_revoked_at q \<noteq> None"
    using assms(4) by (auto simp: revoked_def list_ex_iff)
  have d: "distinct (map ak_id (api_keys (working s)))" using assms(1) by (simp add: schema_ok_def db_ok_def)
  have e: "working s' = (working s)\<lparr>api_keys := replace_by ak_id k (api_keys (working s))\<rparr>"
    using assms(3) 5 by (auto split: if_splits)
  let ?q = "if ak_id q = ak_id k then k else q"
  have "ak_id q = ak_id k \<Longrightarrow> q = r" using distinct_key_unique [OF d q(1) r(1)] r(2) by (simp add: keeps_row_def)
  then have "ak_key_id ?q = i \<and> ak_revoked_at ?q \<noteq> None" using q r(2) by (auto simp: keeps_row_def)
  moreover have "?q \<in> set (replace_by ak_id k (api_keys (working s)))" using q(1) by (force simp: replace_by_def)
  ultimately show ?thesis unfolding e revoked_def list_ex_iff by auto
qed (use assms in \<open>auto simp: revoked_def list_ex_iff split: if_splits option.splits\<close>)

lemma evolves_schema: "evolves d d' \<Longrightarrow> schema_ok d \<Longrightarrow> schema_ok d'"
  by (induction rule: evolves.induct) (auto dest: issued_keeps_schema)

lemma evolves_revoked: "evolves d d' \<Longrightarrow> schema_ok d \<Longrightarrow> revoked i d \<Longrightarrow> revoked i d'"
  by (induction rule: evolves.induct) (auto dest: issued_keeps_revoked evolves_schema)

section \<open>Requests\<close>

datatype request =
    Login rat "string option" AdminLoginRequest
  | Create_tenant AdminContext "string option" TenantCreateRequest
  | Update_tenant AdminContext "string option" uuid TenantUpdateRequest
  | Create_api_key AdminContext "string option" nat nat uuid string
  | Revoke_api_key AdminContext "string option" uuid string
  | Authenticate "string option" "string option"
  | Audit "uuid option" string "string option" "(string \<times> pyval) list"
  | Usage_of uuid string string string int int bool "string option"

definition begin_session :: "datetime \<Rightarrow> (nat \<Rightarrow> uuid) \<Rightarrow> db \<Rightarrow> session" where
  "begin_session now rnd d = \<lparr>committed = d, working = d, pending = [], guc_tenant = [], guc_bypass = [], db_user = App,
     clock = now, uuid4 = rnd, drawn = 0\<rparr>"

fun serve :: "crypto \<Rightarrow> Settings \<Rightarrow> request \<Rightarrow> session \<Rightarrow> session" where
  "serve K S (Login now cid p) s = snd (login K S now cid p s)"
| "serve K S (Create_tenant a cid p) s = snd (create_tenant a cid p s)"
| "serve K S (Update_tenant a cid tid p) s = snd (update_tenant a cid tid p s)"
| "serve K S (Create_api_key a cid r1 r2 tid n) s = snd (create_api_key K S a cid r1 r2 tid n s)"
| "serve K S (Revoke_api_key a cid tid i) s = snd (revoke_api_key a cid tid i s)"
| "serve K S (Authenticate h cid) s = snd (get_current_tenant K (api_key_pepper S) h cid s)"
| "serve K S (Audit tid ev cid det) s = snd (write_audit_event tid ev cid det s)"
| "serve K S (Usage_of tid key prov m p c hit cid) s = fst (snd (record_usage tid key prov m p c hit cid s))"

inductive db_step :: "crypto \<Rightarrow> Settings \<Rightarrow> db \<Rightarrow> db \<Rightarrow> bool" for K S where
  request: "db_step K S d (committed (serve K S r (begin_session now rnd d)))"

inductive_cases db_step_cases: "db_step K S d d'"

text \<open>A session whose committed and visible tables have evolved from \<open>d\<close>.\<close>

definition tracks :: "db \<Rightarrow> session \<Rightarrow> bool" where
  "tracks d s \<longleftrightarrow> evolves d (committed s) \<and> evolves d (working s)"

lemma tracks_begin: "tracks d (begin_session now rnd d)" "pending (begin_session now rnd d) = []"
  by (simp_all add: tracks_def begin_session_def evolves.stop)

lemma tracks_simps [simp]:
  "tracks d (set_rls_context t b s) = tracks d s" "tracks d (session_add x s) = tracks d s"
  "tracks d (s\<lparr>drawn := n\<rparr>) = tracks d s" "tracks d (s\<lparr>pending := xs\<rparr>) = tracks d s"
  by (simp_all add: tracks_def)

lemma tracks_rollback: "tracks d s \<Longrightarrow> tracks d (rollback s)"
  by (simp add: tracks_def rollback_def)

lemma exec_stmt_tracks: "tracks d s \<Longrightarrow> issued (working s) x \<Longrightarrow> exec_stmt s x = Inr s' \<Longrightarrow> tracks d s'"
  using exec_stmt_frame [of s x s'] by (auto simp: tracks_def intro: evolves.stmt)

text \<open>At most one other statement is pending before the audit rows.\<close>

definition audits :: "stmt list \<Rightarrow> bool" where
  "audits xs \<longleftrightarrow> (\<forall>x \<in> set xs. \<exists>tid ev cid det. x = Ins_audit tid ev cid det)"

definition ready :: "session \<Rightarrow> bool" where
  "ready s \<longleftrightarrow> (case pending s of [] \<Rightarrow> True | x # xs \<Rightarrow> issued (working s) x \<and> audits xs)"

lemma ready_simps [simp]:
  "ready (set_rls_context t b s) = ready s" "ready (s\<lparr>drawn := n\<rparr>) = ready s" "pending s = [] \<Longrightarrow> ready s"
  "pending s = [] \<Longrightarrow> ready (session_add x s) = issued (working s) x"
  by (simp_all add: ready_def audits_def split: list.split)

lemma ready_audit: "ready s \<Longrightarrow> ready (session_add (Ins_audit tid ev cid det) s)"
  by (auto simp: ready_def audits_def split: list.splits)

lemma audits_track: "audits xs \<Longrightarrow> tracks d s \<Longrightarrow> exec_stmts s xs = Inr s' \<Longrightarrow> tracks d s'"
proof (induction xs arbitrary: s)
  case (Cons x xs)
  then obtain s1 where s1: "exec_stmt s x = Inr s1" "exec_stmts s1 xs = Inr s'" by (auto split: sum.splits)
  have "issued (working s) x" using Cons.prems(1) by (auto simp: audits_def)
  then show ?case using Cons s1 exec_stmt_tracks [OF Cons.prems(2)] by (auto simp: audits_def)
qed simp

lemma flush_tracks:
  assumes "tracks d s" "ready s" "flush s = (r, s')"
  shows "tracks d s' \<and> pending s' = []"
proof (cases "exec_stmts s (pending s)")
  case (Inl e)
  then show ?thesis using assms(1,3) tracks_rollback [OF assms(1)] by (auto simp: flush_def rollback_def)
next
  case (Inr s1)
  have "tracks d s1"
  proof (cases "pending s")
    case (Cons x xs)
    then obtain s2 where "exec_stmt s x = Inr s2" "exec_stmts s2 xs = Inr s1" using Inr by (auto split: sum.splits)
    moreover have "issued (working s) x" "audits xs" using assms(2) Cons by (simp_all add: ready_def)
    ultimately show ?thesis using exec_stmt_tracks [OF assms(1)] audits_track by blast
  qed (use Inr assms(1) in auto)
  then show ?thesis using Inr assms(3) by (auto simp: flush_def)
qed

lemma commit_tracks:
  assumes "tracks d s" "ready s" "commit s = (r, s')"
  shows "tracks d s' \<and> pending s' = []"
proof -
  obtain q s1 where q: "flush s = (q, s1)" by fastforce
  show ?thesis using flush_tracks [OF assms(1,2) q] assms(3) q by (cases q) (auto simp: commit_def tracks_def)
qed

lemma write_audit_event_tracks:
  assumes "tracks d s" "ready s" "write_audit_event tid ev cid det s = (r, s')"
  shows "tracks d s' \<and> pending s' = []"
  using assms by (intro commit_tracks [of d "session_add (Ins_audit tid ev cid (PDict det)) (set_rls_context None True s)" r])
    (simp_all add: ready_audit write_audit_event_def Let_def)

lemma audit_tracks:
  assumes "tracks d s" "pending s = []" shows "tracks d (snd (write_audit_event tid ev cid det s))"
proof -
  have "ready s" using assms(2) by simp
  from write_audit_event_tracks [OF assms(1) this surjective_pairing] show ?thesis by (rule conjunct1)
qed

lemma audit_and_raise_tracks:
  assumes "tracks d s" "ready s" shows "tracks d (snd (audit_and_raise tid ev cid det err s))"
  using write_audit_event_tracks [OF assms] by (auto simp: audit_and_raise_def split: prod.splits sum.splits)

lemma audited_result_tracks:
  assumes "tracks d s" "ready s" shows "tracks d (snd (audited_result (write_audit_event tid ev cid det s) x))"
  using write_audit_event_tracks [OF assms] by (auto simp: audited_result_def split: prod.splits sum.splits)

lemma login_tracks: "tracks d s \<Longrightarrow> pending s = [] \<Longrightarrow> tracks d (snd (login K S now cid p s))"
  by (auto simp: login_def Let_def audit_and_raise_tracks split: sum.splits option.splits bool.splits)

lemma create_tenant_tracks:
  assumes "tracks d s" "pending s = []" shows "tracks d (snd (create_tenant a cid p s))"
proof -
  have "tracks d s1 \<and> pending s1 = []"
    if "flush (session_add (Ins_tenant t) ((set_rls_context None True s)\<lparr>drawn := drawn s + 1\<rparr>)) = (r, s1)" for t r s1
    using assms by (intro flush_tracks [OF _ _ that]) simp_all
  then show ?thesis by (auto simp: create_tenant_def Let_def audited_result_tracks split: prod.splits sum.splits)
qed

definition keeps_id :: "uuid \<Rightarrow> Tenant option \<Rightarrow> bool" where
  "keeps_id i t \<longleftrightarrow> (case t of None \<Rightarrow> True | Some r \<Rightarrow> t_id r = i)"

lemma set_field_keeps_id: "(\<And>x r. t_id (upd x r) = t_id r) \<Longrightarrow> keeps_id i t \<Longrightarrow> keeps_id i (set_field upd f t)"
  by (auto simp: set_field_def keeps_id_def split: field.splits option.splits)

lemma apply_changes_id: "apply_changes p t = Some t' \<Longrightarrow> t_id t' = t_id t"
proof -
  have "keeps_id (t_id t) (apply_changes p t)"
    unfolding apply_changes_def Let_def by (intro set_field_keeps_id) (simp_all add: keeps_id_def)
  then show "apply_changes p t = Some t' \<Longrightarrow> t_id t' = t_id t" by (simp add: keeps_id_def)
qed

lemma update_tenant_tracks:
  assumes "tracks d s" "pending s = []" shows "tracks d (snd (update_tenant a cid tid p s))"
proof (cases "get_tenant_row tid s")
  case (Some t)
  have "t_id t = tid" using find_in_set Some unfolding get_tenant_row_def by fastforce
  then have "issued (working s) (Upd_tenant tid (apply_changes p t))"
    by (cases "apply_changes p t") (auto dest: apply_changes_id)
  then show ?thesis
    using assms Some by (simp add: update_tenant_def Let_def get_tenant_row_def audited_result_tracks)
qed (use assms in \<open>simp add: update_tenant_def Let_def get_tenant_row_def\<close>)

lemma create_api_key_tracks:
  assumes "tracks d s" "pending s = []" shows "tracks d (snd (create_api_key K S a cid r1 r2 tid n s))"
proof (cases "get_tenant_row tid s")
  case (Some t)
  obtain full i sec where g: "generate_api_key r1 r2 = (full, i, sec)" by (metis prod.exhaust)
  have "tracks d s1 \<and> pending s1 = []"
    if "flush (session_add (Ins_api_key k) ((set_rls_context None True s)\<lparr>drawn := drawn s + 1\<rparr>)) = (r, s1)" for k r s1
    using assms by (intro flush_tracks [OF _ _ that]) simp_all
  then show ?thesis
    using Some by (auto simp: create_api_key_def Let_def get_tenant_row_def g audited_result_tracks split: prod.splits sum.splits)
qed (use assms in \<open>simp add: create_api_key_def Let_def get_tenant_row_def\<close>)

lemma revoke_api_key_tracks:
  assumes "tracks d s" "pending s = []" shows "tracks d (snd (revoke_api_key a cid tid i s))"
proof -
  let ?q = "scalar_one_or_none (select_api_keys (\<lambda>k. ak_tenant_id k = tid \<and> ak_key_id k = i) (set_rls_context None True s))"
  have "issued (working s) (Upd_api_key (k\<lparr>ak_revoked_at := Some t\<rparr>))" if "?q = Inr (Some k)" for k t
  proof -
    have "k \<in> set (select_api_keys (\<lambda>k. ak_tenant_id k = tid \<and> ak_key_id k = i) (set_rls_context None True s))"
      using that by (cases "select_api_keys (\<lambda>k. ak_tenant_id k = tid \<and> ak_key_id k = i) (set_rls_context None True s)"
          rule: scalar_one_or_none.cases) auto
    then have "k \<in> set (api_keys (working s))" by (simp add: select_api_keys_def)
    then show ?thesis by (auto simp: list_ex_iff keeps_row_def)
  qed
  then show ?thesis
    using assms by (auto simp: revoke_api_key_def Let_def audited_result_tracks split: sum.splits option.splits)
qed

lemma authenticate_tracks:
  assumes "tracks d s" "pending s = []" "db_ok (working s)" shows "tracks d (snd (get_current_tenant K pepper h cid s))"
proof (cases "auth_decision K pepper h (working s)")
  case (Inl x)
  then show ?thesis using assms by (simp add: get_current_tenant_eval audit_and_raise_tracks split: prod.splits)
next
  case (Inr tk)
  obtain t k where tk: "tk = (t, k)" by fastforce
  have k: "k \<in> set (api_keys (working s))" using Inr tk auth_decision_accepts_iff [OF assms(3)] by auto
  let ?s = "session_add (Upd_api_key (k\<lparr>ak_last_used_at := Some (clock s)\<rparr>)) (set_rls_context (Some (ak_tenant_id k)) False s)"
  have "tracks d (touched k s)"
    using commit_tracks [OF _ _ commit_touch [OF assms(2) k]] assms k by (auto simp: list_ex_iff keeps_row_def)
  then show ?thesis using assms Inr tk by (simp add: get_current_tenant_eval)
qed

lemma record_usage_tracks:
  assumes "tracks d s" "pending s = []" shows "tracks d (fst (snd (record_usage tid key prov m p c hit cid s)))"
proof -
  define row where "row = usage_row tid key prov m p c hit cid s"
  let ?s = "session_add (Ins_usage row) ((set_rls_context (Some tid) False s)\<lparr>drawn := drawn s + 1\<rparr>)"
  obtain r s' where c: "commit ?s = (r, s')" by fastforce
  have "fst (snd (record_usage tid key prov m p c hit cid s)) = s'"
    using c by (simp add: record_usage_def Let_def row_def usage_row_def session_add_def set_rls_context_def split: sum.splits)
  then show ?thesis using commit_tracks [OF _ _ c, of d] assms by simp
qed

lemma db_step_evolves: "db_step K S d d' \<Longrightarrow> schema_ok d \<Longrightarrow> evolves d d'"
proof (elim db_step_cases)
  fix r now rnd
  assume ok: "schema_ok d" and d': "d' = committed (serve K S r (begin_session now rnd d))"
  let ?s = "begin_session now rnd d"
  have "db_ok (working ?s)" using ok by (simp add: schema_ok_def begin_session_def)
  then have "tracks d (serve K S r ?s)"
    by (cases r) (simp_all add: tracks_begin audit_tracks login_tracks create_tenant_tracks update_tenant_tracks
        create_api_key_tracks revoke_api_key_tracks authenticate_tracks record_usage_tracks)
  then show "evolves d d'" by (simp add: d' tracks_def)
qed

section \<open>Reachable databases\<close>

lemma reachable_evolves:
  assumes "(db_step K S)\<^sup>*\<^sup>* d d'" "schema_ok d"
  shows "schema_ok d' \<and> (\<forall>i. revoked i d \<longrightarrow> revoked i d')"
  using assms
proof (induction rule: rtranclp_induct)
  case (step d1 d2)
  then have "evolves d1 d2" using db_step_evolves by blast
  then show ?case using step evolves_schema evolves_revoked by blast
qed auto

lemma one_request: "(db_step K S)\<^sup>*\<^sup>* d (committed (serve K S r (begin_session now rnd d)))"
  by (rule r_into_rtranclp [where r = "db_step K S"]) (rule db_step.request)



text \<open>
  C17. Revocation is permanent: once a key is revoked, no sequence of requests, not even of
  administrators, makes a request with that key authenticate again.
\<close>

theorem revocation_permanent:
  assumes "(db_step K S)\<^sup>*\<^sup>* d d'" "schema_ok d" "revoked i d"
    and "bearer_token header = Some tok" "parse_api_key tok = Some (i, sec)"
  shows "\<not> (\<exists>ctx s'. get_current_tenant K (api_key_pepper S) header cid (begin_session now rnd d') = (Inr ctx, s'))"
proof -
  let ?s = "begin_session now rnd d'"
  have ok: "db_ok (working ?s)" "pending ?s = []" "working ?s = d'" and rv: "revoked i d'"
    using reachable_evolves [OF assms(1,2)] assms(3) by (auto simp: schema_ok_def begin_session_def)
  have "ak_revoked_at k \<noteq> None" if "k \<in> set (api_keys d')" "ak_key_id k = i" for k
    using rv that ok(1,3) distinct_key_unique [of ak_key_id "api_keys d'" k]
    by (fastforce simp: revoked_def list_ex_iff db_ok_def)
  then have "\<nexists>t k. auth_decision K (api_key_pepper S) header d' = Inr (t, k)"
    using auth_decision_accepts_iff [of d'] ok(1,3) assms(4,5) by fastforce
  then show ?thesis
    using get_current_tenant_eval [OF ok(2,1), of K "api_key_pepper S" header cid] ok(3)
    by (cases "auth_decision K (api_key_pepper S) header d'") (auto simp: audit_and_raise_def split: prod.splits sum.splits)
qed

definition demo_settings :: Settings where
  "demo_settings = default_settings\<lparr>api_key_pepper := ''p'', jwt_secret := ''s''\<rparr>"

definition demo_admin :: AdminContext where
  "demo_admin = \<lparr>ac_admin_id = 1, ac_email = ''root@example.com'', ac_is_superuser = True\<rparr>"

definition demo_ids :: "nat \<Rightarrow> uuid" where
  "demo_ids n = of_nat (n + 40)"

theorem revocation_permanent_witness:
  "\<not> (\<exists>ctx s'. get_current_tenant demo_crypto ''p'' (Some ''Bearer agk_live_00ab.s'') None (begin_session 2 demo_ids
       (committed (serve demo_crypto demo_settings (Update_tenant demo_admin None 1
          \<lparr>tu_name = Unset, tu_monthly_budget_usd = Unset, tu_rate_limit_rpm = Given 7, tu_rate_limit_tpm = Unset,
           tu_max_concurrent_requests = Unset, tu_pii_redaction_enabled = Unset, tu_injection_detection_enabled = Unset,
           tu_injection_detection_threshold = Unset, tu_injection_detection_mode = Unset, tu_cache_enabled = Unset,
           tu_is_active = Given True\<rparr>) (begin_session 1 demo_ids (demo_db\<lparr>api_keys := [demo_key\<lparr>ak_revoked_at := Some 0\<rparr>]\<rparr>))))) = (Inr ctx, s'))"
proof -
  let ?d = "demo_db\<lparr>api_keys := [demo_key\<lparr>ak_revoked_at := Some 0\<rparr>]\<rparr>"
  have h: "schema_ok ?d" "revoked ''00ab'' ?d" "bearer_token (Some ''Bearer agk_live_00ab.s'') = Some ''agk_live_00ab.s''"
    "parse_api_key ''agk_live_00ab.s'' = Some (''00ab'', ''s'')" "api_key_pepper demo_settings = ''p''" by code_simp+
  show ?thesis
    by (rule revocation_permanent [OF one_request h(1-4), where S = demo_settings and K = demo_crypto, unfolded h(5)])
qed

end
