(* ===== verification/Lifecycle.thy ===== *)
theory Lifecycle
  imports Observability Http_App Admin_Invariants
begin

text \<open>
  The life of a process: \<open>create_app\<close> and \<open>lifespan\<close> of \<^verbatim>\<open>main.py\<close>, the constructors of \<^verbatim>\<open>db/session.py\<close> and
  \<^verbatim>\<open>db/redis.py\<close>, \<open>get_settings\<close>, the accessors of \<^verbatim>\<open>api/deps.py\<close>, and \<open>startup\<close> and \<open>shutdown\<close> of the
  worker. A process keeps which engines, pools and clients it has built and not closed again
  (\<open>pr_live\<close>). Every call of a library that builds or closes one may raise: \<open>raises\<close> says which do.
\<close>

section \<open>Resources\<close>

datatype kind = Engine | Redis_pool | Redis_client | Http_client

type_synonym handle = "kind \<times> nat"

record AsyncEngine =
  eng_handle :: handle
  eng_url :: string
  eng_pool_size :: int
  eng_max_overflow :: int
  eng_pool_pre_ping :: bool
  eng_echo :: bool

record async_sessionmaker =
  sm_bind :: AsyncEngine
  sm_expire_on_commit :: bool
  sm_autoflush :: bool

record ConnectionPool =
  cp_handle :: handle
  cp_url :: string
  cp_decode_responses :: bool

text \<open>A client made from a URL owns its pool and closes it; a client given a pool does not.\<close>

record Redis =
  rc_handle :: handle
  rc_pool :: ConnectionPool
  rc_owns_pool :: bool

record AsyncClient =
  hc_handle :: handle
  hc_max_connections :: int
  hc_max_keepalive_connections :: int

datatype lua_script = TOKEN_BUCKET_LUA | BUDGET_LUA

record AsyncScript =
  script_client :: Redis
  script_source :: lua_script

text \<open>The attributes of \<open>app.state\<close>: \<open>None\<close> while an attribute is not set.\<close>

record app_state =
  st_settings :: "Settings option"
  st_engine :: "AsyncEngine option"
  st_sessionmaker :: "async_sessionmaker option"
  st_redis :: "Redis option"
  st_providers :: "(string \<rightharpoonup> OpenAICompatibleProvider) option"
  st_token_bucket_script :: "AsyncScript option"
  st_budget_script :: "AsyncScript option"
  st_pii_redactor :: "PiiRedactor option"
  st_injection_detector :: "PromptInjectionDetector option"
  st_tracer_provider :: "provider_ref option"

definition empty_state :: app_state where
  "empty_state = \<lparr>st_settings = None, st_engine = None, st_sessionmaker = None, st_redis = None, st_providers = None,
     st_token_bucket_script = None, st_budget_script = None, st_pii_redactor = None, st_injection_detector = None,
     st_tracer_provider = None\<rparr>"

text \<open>
  A process: what its environment variables validate to, the cached settings, the installed tracer
  provider, the logging configuration, the open resources, the state of its application, and the
  outside world that serving requests changes.
\<close>

record 'w process =
  pr_environ :: "(exn, Settings) result"
  pr_settings :: "Settings option"
  pr_tracing :: "TracerProvider option"
  pr_logging :: logging_state
  pr_live :: "handle list"
  pr_serial :: nat
  pr_state :: app_state
  pr_world :: 'w

datatype call =
    Create_engine | Connect_engine | Create_redis_pool | Create_http_client
  | Shutdown_tracer | Close_http_client | Close_redis_client | Disconnect_redis_pool | Dispose_engine

record outside =
  raises :: "call \<Rightarrow> exn option"
  load_redactor :: "(exn, PiiRedactor) result"
  embeddings :: embed_client

section \<open>Actions that may raise\<close>

type_synonym ('w, 'a) action = "'w process \<Rightarrow> (exn, 'a) result \<times> 'w process"

definition give :: "'a \<Rightarrow> ('w, 'a) action" where
  "give x p = (Inr x, p)"

definition and_then :: "('w, 'a) action \<Rightarrow> ('a \<Rightarrow> ('w, 'b) action) \<Rightarrow> ('w, 'b) action" where
  "and_then m k p = (case m p of (Inl e, p) \<Rightarrow> (Inl e, p) | (Inr x, p) \<Rightarrow> k x p)"

definition call_out :: "outside \<Rightarrow> call \<Rightarrow> ('w, unit) action" where
  "call_out X c p = (case raises X c of Some e \<Rightarrow> (Inl e, p) | None \<Rightarrow> (Inr (), p))"

definition open_handle :: "kind \<Rightarrow> ('w, handle) action" where
  "open_handle k p = (Inr (k, pr_serial p), p\<lparr>pr_live := pr_live p @ [(k, pr_serial p)], pr_serial := pr_serial p + 1\<rparr>)"

definition close_handle :: "handle \<Rightarrow> ('w, unit) action" where
  "close_handle h p = (Inr (), p\<lparr>pr_live := removeAll h (pr_live p)\<rparr>)"

text \<open>Reading an attribute of the state, or a key of a dictionary.\<close>

definition found :: "string \<Rightarrow> 'a option \<Rightarrow> (exn, 'a) result" where
  "found err a = (case a of None \<Rightarrow> Inl (Other_exn err) | Some x \<Rightarrow> Inr x)"

section \<open>Constructors\<close>

text \<open>\<open>lru_cache\<close> keeps the first settings that validate, and no exception.\<close>

definition get_settings :: "('w, Settings) action" where
  "get_settings p =
     (case pr_settings p of
        Some S \<Rightarrow> (Inr S, p)
      | None \<Rightarrow> (case pr_environ p of Inl e \<Rightarrow> (Inl e, p) | Inr S \<Rightarrow> (Inr S, p\<lparr>pr_settings := Some S\<rparr>)))"

definition build_engine :: "outside \<Rightarrow> Settings \<Rightarrow> ('w, AsyncEngine) action" where
  "build_engine X S =
     and_then (call_out X Create_engine) (\<lambda>_. and_then (open_handle Engine) (\<lambda>h.
       give \<lparr>eng_handle = h, eng_url = database_url S, eng_pool_size = 10, eng_max_overflow = 5,
             eng_pool_pre_ping = True, eng_echo = False\<rparr>))"

definition build_sessionmaker :: "AsyncEngine \<Rightarrow> async_sessionmaker" where
  "build_sessionmaker engine = \<lparr>sm_bind = engine, sm_expire_on_commit = False, sm_autoflush = False\<rparr>"

definition build_redis_pool :: "outside \<Rightarrow> Settings \<Rightarrow> ('w, ConnectionPool) action" where
  "build_redis_pool X S =
     and_then (call_out X Create_redis_pool) (\<lambda>_. and_then (open_handle Redis_pool) (\<lambda>h.
       give \<lparr>cp_handle = h, cp_url = redis_url S, cp_decode_responses = True\<rparr>))"

definition build_redis_client :: "ConnectionPool \<Rightarrow> ('w, Redis) action" where
  "build_redis_client pool =
     and_then (open_handle Redis_client) (\<lambda>h. give \<lparr>rc_handle = h, rc_pool = pool, rc_owns_pool = False\<rparr>)"

definition register_rate_limit_scripts :: "Redis \<Rightarrow> AsyncScript \<times> AsyncScript" where
  "register_rate_limit_scripts redis =
     (\<lparr>script_client = redis, script_source = TOKEN_BUCKET_LUA\<rparr>, \<lparr>script_client = redis, script_source = BUDGET_LUA\<rparr>)"

definition build_http_client :: "outside \<Rightarrow> Settings \<Rightarrow> ('w, AsyncClient) action" where
  "build_http_client X S =
     and_then (call_out X Create_http_client) (\<lambda>_. and_then (open_handle Http_client) (\<lambda>h.
       give \<lparr>hc_handle = h, hc_max_connections = provider_max_connections S,
             hc_max_keepalive_connections = provider_max_keepalive_connections S\<rparr>))"

definition registry_of :: "Settings \<Rightarrow> (string \<rightharpoonup> OpenAICompatibleProvider)" where
  "registry_of S = build_provider_registry (openai_api_key S) (ollama_base_url S) (provider_max_attempts S)
     (circuit_breaker_failure_threshold S) (circuit_breaker_recovery_seconds S)"

section \<open>The application\<close>

datatype middleware = CorrelationIdMiddleware | PrometheusMiddleware

datatype router = Health_router | Metrics_router | Admin_router | Proxy_router

text \<open>\<open>user_middleware\<close> lists the middlewares from the outermost in; \<open>add_middleware\<close> puts one outside.\<close>

record FastAPI =
  app_title :: string
  app_version :: string
  user_middleware :: "middleware list"
  app_routers :: "router list"
  http_exception_handler :: bool
  instrumented :: bool

definition add_middleware :: "middleware \<Rightarrow> FastAPI \<Rightarrow> FastAPI" where
  "add_middleware m a = a\<lparr>user_middleware := m # user_middleware a\<rparr>"

definition include_router :: "router \<Rightarrow> FastAPI \<Rightarrow> FastAPI" where
  "include_router r a = a\<lparr>app_routers := app_routers a @ [r]\<rparr>"

definition new_tracer :: "Settings \<Rightarrow> ('w, provider_ref) action" where
  "new_tracer S p = (case configure_tracing S (pr_tracing p) of (ref, t) \<Rightarrow> (Inr ref, p\<lparr>pr_tracing := t\<rparr>))"

text \<open>A new application starts with a state of its own, in which only the tracer provider is set.\<close>

definition create_app :: "('w, FastAPI) action" where
  "create_app =
     and_then get_settings (\<lambda>settings.
     and_then (new_tracer settings) (\<lambda>tracer_provider p.
       let a = \<lparr>app_title = ''Aegis Gateway'', app_version = ''0.1.0'', user_middleware = [], app_routers = [],
                http_exception_handler = False, instrumented = False\<rparr>;
           p = p\<lparr>pr_state := empty_state\<lparr>st_tracer_provider := Some tracer_provider\<rparr>\<rparr>;
           a = add_middleware PrometheusMiddleware (add_middleware CorrelationIdMiddleware a);
           a = include_router Proxy_router (include_router Admin_router (include_router Metrics_router
                 (include_router Health_router a)));
           a = a\<lparr>http_exception_handler := True\<rparr>;
           a = a\<lparr>instrumented := True\<rparr>
       in (Inr a, p)))"

section \<open>Lifespan\<close>

record lifespan_locals =
  l_engine :: AsyncEngine
  l_redis_pool :: ConnectionPool
  l_redis_client :: Redis
  l_http_client :: AsyncClient

definition set_logging :: "Settings \<Rightarrow> ('w, unit) action" where
  "set_logging S p = (case configure_logging S (pr_logging p) of (r, l) \<Rightarrow> (r, p\<lparr>pr_logging := l\<rparr>))"

definition load_pii :: "outside \<Rightarrow> ('w, PiiRedactor) action" where
  "load_pii X p = (load_redactor X, p)"

definition warmed_detector :: "outside \<Rightarrow> Settings \<Rightarrow> ('w, PromptInjectionDetector) action" where
  "warmed_detector X S p =
     (case warm_up (embeddings X) (new_detector (openai_api_key S)) of
        (Inl e, _) \<Rightarrow> (Inl e, p)
      | (Inr _, d) \<Rightarrow> (Inr d, p))"

definition lifespan_startup :: "outside \<Rightarrow> ('w, lifespan_locals) action" where
  "lifespan_startup X =
     and_then get_settings (\<lambda>settings.
     and_then (set_logging settings) (\<lambda>_.
     and_then (build_engine X settings) (\<lambda>engine.
     and_then (give (build_sessionmaker engine)) (\<lambda>sessionmaker.
     and_then (build_redis_pool X settings) (\<lambda>redis_pool.
     and_then (build_redis_client redis_pool) (\<lambda>redis_client.
     and_then (build_http_client X settings) (\<lambda>provider_http_client.
     and_then (give (registry_of settings)) (\<lambda>providers.
     and_then (give (register_rate_limit_scripts redis_client)) (\<lambda>(token_bucket_script, budget_script).
     and_then (load_pii X) (\<lambda>pii_redactor.
     and_then (warmed_detector X settings) (\<lambda>injection_detector p.
       (Inr \<lparr>l_engine = engine, l_redis_pool = redis_pool, l_redis_client = redis_client,
             l_http_client = provider_http_client\<rparr>,
        p\<lparr>pr_state := (pr_state p)\<lparr>st_settings := Some settings, st_engine := Some engine,
            st_sessionmaker := Some sessionmaker, st_redis := Some redis_client, st_providers := Some providers,
            st_token_bucket_script := Some token_bucket_script, st_budget_script := Some budget_script,
            st_pii_redactor := Some pii_redactor, st_injection_detector := Some injection_detector\<rparr>\<rparr>))))))))))))"

definition shutdown_tracer :: "outside \<Rightarrow> ('w, unit) action" where
  "shutdown_tracer X =
     and_then (\<lambda>p. (found ''AttributeError'' (st_tracer_provider (pr_state p)), p)) (\<lambda>_.
     and_then (call_out X Shutdown_tracer) (\<lambda>_ p.
       (Inr (), p\<lparr>pr_tracing := map_option (\<lambda>t. t\<lparr>tp_shut_down := True\<rparr>) (pr_tracing p)\<rparr>)))"

definition close_http :: "outside \<Rightarrow> AsyncClient \<Rightarrow> ('w, unit) action" where
  "close_http X client = and_then (call_out X Close_http_client) (\<lambda>_. close_handle (hc_handle client))"

definition close_redis :: "outside \<Rightarrow> Redis \<Rightarrow> ('w, unit) action" where
  "close_redis X client =
     and_then (call_out X Close_redis_client) (\<lambda>_.
     and_then (close_handle (rc_handle client)) (\<lambda>_.
       if rc_owns_pool client then close_handle (cp_handle (rc_pool client)) else give ()))"

definition disconnect_pool :: "outside \<Rightarrow> ConnectionPool \<Rightarrow> ('w, unit) action" where
  "disconnect_pool X pool = and_then (call_out X Disconnect_redis_pool) (\<lambda>_. close_handle (cp_handle pool))"

definition dispose_engine :: "outside \<Rightarrow> AsyncEngine \<Rightarrow> ('w, unit) action" where
  "dispose_engine X engine = and_then (call_out X Dispose_engine) (\<lambda>_. close_handle (eng_handle engine))"

definition lifespan_shutdown :: "outside \<Rightarrow> lifespan_locals \<Rightarrow> ('w, unit) action" where
  "lifespan_shutdown X l =
     and_then (shutdown_tracer X) (\<lambda>_.
     and_then (close_http X (l_http_client l)) (\<lambda>_.
     and_then (close_redis X (l_redis_client l)) (\<lambda>_.
     and_then (disconnect_pool X (l_redis_pool l)) (\<lambda>_.
       dispose_engine X (l_engine l)))))"

text \<open>
  The context manager around the serving of requests: start-up outside, shutdown in the \<open>finally\<close>
  clause of the \<open>try\<close>. An exception of the clause replaces the one it was entered with.
\<close>

definition lifespan :: "outside \<Rightarrow> (app_state \<Rightarrow> 'w \<Rightarrow> (exn, unit) result \<times> 'w) \<Rightarrow> ('w, unit) action" where
  "lifespan X serving =
     and_then (lifespan_startup X) (\<lambda>l p.
       case serving (pr_state p) (pr_world p) of (r, w) \<Rightarrow>
         (case lifespan_shutdown X l (p\<lparr>pr_world := w\<rparr>) of
            (Inl e, p) \<Rightarrow> (Inl e, p)
          | (Inr _, p) \<Rightarrow> (r, p)))"

text \<open>Importing the module creates the application; the server then runs its lifespan.\<close>

definition run_app :: "outside \<Rightarrow> (app_state \<Rightarrow> 'w \<Rightarrow> (exn, unit) result \<times> 'w) \<Rightarrow> ('w, unit) action" where
  "run_app X serving = and_then create_app (\<lambda>_. lifespan X serving)"

section \<open>Dependencies of the endpoints\<close>

definition get_settings_dep :: "app_state \<Rightarrow> (exn, Settings) result" where
  "get_settings_dep st = found ''AttributeError'' (st_settings st)"

definition get_redis :: "app_state \<Rightarrow> (exn, Redis) result" where
  "get_redis st = found ''AttributeError'' (st_redis st)"

definition get_provider_registry :: "app_state \<Rightarrow> (exn, string \<rightharpoonup> OpenAICompatibleProvider) result" where
  "get_provider_registry st = found ''AttributeError'' (st_providers st)"

definition get_token_bucket_script :: "app_state \<Rightarrow> (exn, AsyncScript) result" where
  "get_token_bucket_script st = found ''AttributeError'' (st_token_bucket_script st)"

definition get_budget_script :: "app_state \<Rightarrow> (exn, AsyncScript) result" where
  "get_budget_script st = found ''AttributeError'' (st_budget_script st)"

definition get_pii_redactor :: "app_state \<Rightarrow> (exn, PiiRedactor) result" where
  "get_pii_redactor st = found ''AttributeError'' (st_pii_redactor st)"

definition get_injection_detector :: "app_state \<Rightarrow> (exn, PromptInjectionDetector) result" where
  "get_injection_detector st = found ''AttributeError'' (st_injection_detector st)"

text \<open>
  \<open>get_db_session\<close> around the rest of a request: a session on the committed tables, and closed
  after, which discards what the request did not commit.
\<close>

definition get_db_session ::
  "app_state \<Rightarrow> datetime \<Rightarrow> (nat \<Rightarrow> uuid) \<Rightarrow> (session \<Rightarrow> 'r \<times> session) \<Rightarrow> db \<Rightarrow> (exn, 'r) result \<times> db" where
  "get_db_session st now rnd body d =
     (case found ''AttributeError'' (st_sessionmaker st) of
        Inl e \<Rightarrow> (Inl e, d)
      | Inr _ \<Rightarrow> (case body (begin_session now rnd d) of (r, s) \<Rightarrow> (Inr r, committed s)))"

section \<open>The worker\<close>

text \<open>The dictionary \<open>ctx\<close> that the worker hands to every job; it is the world of a worker process.\<close>

record worker_ctx =
  ctx_engine :: "AsyncEngine option"
  ctx_sessionmaker :: "async_sessionmaker option"
  ctx_redis :: "Redis option"

definition set_ctx :: "(worker_ctx \<Rightarrow> worker_ctx) \<Rightarrow> (worker_ctx, unit) action" where
  "set_ctx f p = (Inr (), p\<lparr>pr_world := f (pr_world p)\<rparr>)"

definition redis_from_url :: "outside \<Rightarrow> Settings \<Rightarrow> ('w, Redis) action" where
  "redis_from_url X S =
     and_then (build_redis_pool X S) (\<lambda>pool.
     and_then (open_handle Redis_client) (\<lambda>h. give \<lparr>rc_handle = h, rc_pool = pool, rc_owns_pool = True\<rparr>))"

definition startup :: "outside \<Rightarrow> (worker_ctx, unit) action" where
  "startup X =
     and_then get_settings (\<lambda>settings.
     and_then (build_engine X settings) (\<lambda>engine.
     and_then (set_ctx (\<lambda>c. c\<lparr>ctx_engine := Some engine\<rparr>)) (\<lambda>_.
     and_then (set_ctx (\<lambda>c. c\<lparr>ctx_sessionmaker := Some (build_sessionmaker engine)\<rparr>)) (\<lambda>_.
     and_then (redis_from_url X settings) (\<lambda>redis.
       set_ctx (\<lambda>c. c\<lparr>ctx_redis := Some redis\<rparr>))))))"

definition shutdown :: "outside \<Rightarrow> (worker_ctx, unit) action" where
  "shutdown X =
     and_then (\<lambda>p. (found ''KeyError'' (ctx_redis (pr_world p)), p)) (\<lambda>redis.
     and_then (close_redis X redis) (\<lambda>_.
     and_then (\<lambda>p. (found ''KeyError'' (ctx_engine (pr_world p)), p)) (\<lambda>engine.
       dispose_engine X engine)))"

end
