(* ===== verification/Lifecycle_Properties.thy ===== *)
theory Lifecycle_Properties
  imports Lifecycle
begin

text \<open>
  What a process opens and closes. Both sequences are evaluated once, as functions of the first
  call that raises; the properties follow.
\<close>

lemmas action_defs = and_then_def give_def call_out_def open_handle_def close_handle_def found_def

section \<open>Start-up\<close>

fun numbered :: "nat \<Rightarrow> kind list \<Rightarrow> handle list" where
  "numbered n [] = []"
| "numbered n (k # ks) = (k, n) # numbered (n + 1) ks"

definition opened :: "kind list \<Rightarrow> 'w process \<Rightarrow> 'w process" where
  "opened ks p = p\<lparr>pr_live := pr_live p @ numbered (pr_serial p) ks, pr_serial := pr_serial p + length ks\<rparr>"

text \<open>The first step after the configuration that raises, with what has been opened by then.\<close>

definition startup_raises :: "outside \<Rightarrow> Settings \<Rightarrow> (exn \<times> kind list) option" where
  "startup_raises X S =
     (case raises X Create_engine of Some e \<Rightarrow> Some (e, [])
      | None \<Rightarrow> (case raises X Create_redis_pool of Some e \<Rightarrow> Some (e, [Engine])
      | None \<Rightarrow> (case raises X Create_http_client of Some e \<Rightarrow> Some (e, [Engine, Redis_pool, Redis_client])
      | None \<Rightarrow> (case load_redactor X of Inl e \<Rightarrow> Some (e, [Engine, Redis_pool, Redis_client, Http_client])
      | Inr _ \<Rightarrow> (case fst (warm_up (embeddings X) (new_detector (openai_api_key S))) of
                     Inl e \<Rightarrow> Some (e, [Engine, Redis_pool, Redis_client, Http_client])
                   | Inr _ \<Rightarrow> None)))))"

definition locals_at :: "Settings \<Rightarrow> nat \<Rightarrow> lifespan_locals" where
  "locals_at S n =
     (let pool = \<lparr>cp_handle = (Redis_pool, n + 1), cp_url = redis_url S, cp_decode_responses = True\<rparr> in
      \<lparr>l_engine = \<lparr>eng_handle = (Engine, n), eng_url = database_url S, eng_pool_size = 10, eng_max_overflow = 5,
                   eng_pool_pre_ping = True, eng_echo = False\<rparr>,
       l_redis_pool = pool,
       l_redis_client = \<lparr>rc_handle = (Redis_client, n + 2), rc_pool = pool, rc_owns_pool = False\<rparr>,
       l_http_client = \<lparr>hc_handle = (Http_client, n + 3), hc_max_connections = provider_max_connections S,
                        hc_max_keepalive_connections = provider_max_keepalive_connections S\<rparr>\<rparr>)"

definition started_state :: "outside \<Rightarrow> Settings \<Rightarrow> lifespan_locals \<Rightarrow> PiiRedactor \<Rightarrow> app_state \<Rightarrow> app_state" where
  "started_state X S l P st =
     st\<lparr>st_settings := Some S, st_engine := Some (l_engine l), st_sessionmaker := Some (build_sessionmaker (l_engine l)),
        st_redis := Some (l_redis_client l), st_providers := Some (registry_of S),
        st_token_bucket_script := Some (fst (register_rate_limit_scripts (l_redis_client l))),
        st_budget_script := Some (snd (register_rate_limit_scripts (l_redis_client l))),
        st_pii_redactor := Some P,
        st_injection_detector := Some (snd (warm_up (embeddings X) (new_detector (openai_api_key S))))\<rparr>"

text \<open>A process whose settings and logging are in order.\<close>

definition configured :: "Settings \<Rightarrow> 'w process \<Rightarrow> 'w process \<Rightarrow> bool" where
  "configured S p p0 \<longleftrightarrow> and_then get_settings (\<lambda>S. and_then (set_logging S) (\<lambda>_. give S)) p = (Inr S, p0)"

lemma configured_frame:
  "configured S p p0 \<Longrightarrow> pr_live p0 = pr_live p \<and> pr_serial p0 = pr_serial p \<and> pr_state p0 = pr_state p
     \<and> pr_world p0 = pr_world p \<and> pr_tracing p0 = pr_tracing p \<and> logging_ready S (pr_logging p0) \<and> pr_settings p0 = Some S"
  using configure_logging_cases
  by (fastforce simp: configured_def action_defs get_settings_def set_logging_def split: prod.splits sum.splits option.splits)

lemma lifespan_startup_configured:
  assumes "configured S p p0"
  shows "lifespan_startup X p =
     (case startup_raises X S of
        Some (e, ks) \<Rightarrow> (Inl e, opened ks p0)
      | None \<Rightarrow>
          let l = locals_at S (pr_serial p);
              p1 = opened [Engine, Redis_pool, Redis_client, Http_client] p0
          in case load_redactor X of Inr P \<Rightarrow> (Inr l, p1\<lparr>pr_state := started_state X S l P (pr_state p)\<rparr>))"
proof -
  obtain q where q: "get_settings p = (Inr S, q)" "set_logging S q = (Inr (), p0)"
    using assms by (auto simp: configured_def action_defs split: prod.splits sum.splits)
  have "pr_live p0 = pr_live p" "pr_serial p0 = pr_serial p" "pr_state p0 = pr_state p"
    using configured_frame [OF assms] by simp_all
  then show ?thesis
    by (simp add: lifespan_startup_def and_then_def [of get_settings] q and_then_def [of "set_logging S"] case_prod_unfold
      action_defs build_engine_def build_redis_pool_def build_redis_client_def build_http_client_def load_pii_def
      warmed_detector_def startup_raises_def opened_def locals_at_def started_state_def Let_def
      split: option.splits sum.splits prod.splits)
qed

section \<open>Shutdown\<close>

text \<open>The first closing call that raises, with what is still open then.\<close>

definition closing_raises :: "outside \<Rightarrow> (exn \<times> kind list) option" where
  "closing_raises X =
     (case raises X Shutdown_tracer of Some e \<Rightarrow> Some (e, [Engine, Redis_pool, Redis_client, Http_client])
      | None \<Rightarrow> (case raises X Close_http_client of Some e \<Rightarrow> Some (e, [Engine, Redis_pool, Redis_client, Http_client])
      | None \<Rightarrow> (case raises X Close_redis_client of Some e \<Rightarrow> Some (e, [Engine, Redis_pool, Redis_client])
      | None \<Rightarrow> (case raises X Disconnect_redis_pool of Some e \<Rightarrow> Some (e, [Engine, Redis_pool])
      | None \<Rightarrow> map_option (\<lambda>e. (e, [Engine])) (raises X Dispose_engine)))))"

definition still_open :: "outside \<Rightarrow> kind list" where
  "still_open X = (case closing_raises X of None \<Rightarrow> [] | Some (e, ks) \<Rightarrow> ks)"

definition shut :: "outside \<Rightarrow> TracerProvider option \<Rightarrow> TracerProvider option" where
  "shut X t = (if raises X Shutdown_tracer = None then map_option (\<lambda>t. t\<lparr>tp_shut_down := True\<rparr>) t else t)"

text \<open>Handles are numbered in the order they were opened.\<close>

definition process_ok :: "'w process \<Rightarrow> bool" where
  "process_ok p \<longleftrightarrow> (\<forall>(k, n) \<in> set (pr_live p). n < pr_serial p)"

lemma live_keep: "process_ok p \<Longrightarrow> pr_serial p \<le> n \<Longrightarrow> removeAll (k, n) (pr_live p) = pr_live p"
  by (rule removeAll_id) (auto simp: process_ok_def)

lemma lifespan_shutdown_eval:
  assumes "process_ok p" "st_tracer_provider (pr_state q) \<noteq> None"
    and "pr_live q = pr_live p @ numbered (pr_serial p) [Engine, Redis_pool, Redis_client, Http_client]"
  shows "lifespan_shutdown X (locals_at S (pr_serial p)) q =
     (case closing_raises X of None \<Rightarrow> Inr () | Some (e, _) \<Rightarrow> Inl e,
      q\<lparr>pr_live := pr_live p @ numbered (pr_serial p) (still_open X), pr_tracing := shut X (pr_tracing q)\<rparr>)"
proof -
  note keep = live_keep [OF assms(1)]
  show ?thesis
    using assms(2)
    by (auto simp: lifespan_shutdown_def shutdown_tracer_def close_http_def close_redis_def disconnect_pool_def
        dispose_engine_def action_defs closing_raises_def still_open_def shut_def locals_at_def Let_def assms(3) keep
        split: option.splits)
qed

section \<open>Runs of the application\<close>

lemma create_app_eval:
  assumes "get_settings p = (Inr S, q)"
  shows "\<exists>a. create_app p = (Inr a, q\<lparr>pr_tracing := snd (configure_tracing S (pr_tracing q)),
       pr_state := empty_state\<lparr>st_tracer_provider := Some Installed\<rparr>\<rparr>)
     \<and> user_middleware a = [PrometheusMiddleware, CorrelationIdMiddleware]
     \<and> app_routers a = [Health_router, Metrics_router, Admin_router, Proxy_router]"
proof -
  have "x = Installed" for x by (cases x)
  then have "new_tracer S q = (Inr Installed, q\<lparr>pr_tracing := snd (configure_tracing S (pr_tracing q))\<rparr>)"
    by (simp add: new_tracer_def case_prod_unfold)
  then show ?thesis
    using assms by (simp add: create_app_def and_then_def Let_def add_middleware_def include_router_def)
qed

lemma get_settings_frame:
  "get_settings p = (r, q) \<Longrightarrow> pr_live q = pr_live p \<and> pr_serial q = pr_serial p \<and> pr_world q = pr_world p
     \<and> pr_tracing q = pr_tracing p \<and> pr_logging q = pr_logging p \<and> pr_state q = pr_state p"
  by (auto simp: get_settings_def split: option.splits sum.splits)

lemma get_settings_again:
  "get_settings p = (Inr S, q) \<Longrightarrow> pr_settings q' = pr_settings q \<Longrightarrow> get_settings q' = (Inr S, q')"
  by (auto simp: get_settings_def split: option.splits sum.splits)

lemma created_configured:
  assumes "get_settings p = (Inr S, q)" "log_level S \<in> set (map fst LEVEL_NAMES)" "create_app p = (r, p1)"
  shows "\<exists>p0. configured S p1 p0 \<and> (\<exists>a. r = Inr a) \<and> st_tracer_provider (pr_state p1) \<noteq> None \<and> pr_live p1 = pr_live p
     \<and> pr_serial p1 = pr_serial p \<and> pr_world p1 = pr_world p \<and> pr_tracing p1 = snd (configure_tracing S (pr_tracing p))
     \<and> pr_settings p1 = Some S"
proof -
  obtain a where a: "r = Inr a" "p1 = q\<lparr>pr_tracing := snd (configure_tracing S (pr_tracing q)),
       pr_state := empty_state\<lparr>st_tracer_provider := Some Installed\<rparr>\<rparr>"
    using create_app_eval [OF assms(1)] assms(3) by auto
  have "get_settings p1 = (Inr S, p1)" using get_settings_again [OF assms(1), of p1] a by simp
  moreover have "fst (configure_logging S (pr_logging p1)) = Inr ()"
    using configure_logging_succeeds_iff assms(2) by blast
  ultimately have "\<exists>p0. configured S p1 p0"
    by (cases "configure_logging S (pr_logging p1)") (auto simp: configured_def action_defs set_logging_def)
  moreover have "pr_settings p1 = Some S" using assms(1) a by (auto simp: get_settings_def split: option.splits sum.splits)
  ultimately show ?thesis using a get_settings_frame [OF assms(1)] by auto
qed

text \<open>
  What an endpoint's dependencies hand out: the settings, a client of Redis that is open together
  with its pool, both scripts on that client, sessions on an open engine, and the providers,
  redactor and detector that were built.
\<close>

definition dependencies_ready :: "outside \<Rightarrow> Settings \<Rightarrow> handle list \<Rightarrow> app_state \<Rightarrow> bool" where
  "dependencies_ready X S live st \<longleftrightarrow>
     get_settings_dep st = Inr S \<and> get_provider_registry st = Inr (registry_of S)
     \<and> (\<exists>P. load_redactor X = Inr P \<and> get_pii_redactor st = Inr P)
     \<and> get_injection_detector st = Inr (snd (warm_up (embeddings X) (new_detector (openai_api_key S))))
     \<and> (\<exists>redis. get_redis st = Inr redis \<and> rc_handle redis \<in> set live \<and> cp_handle (rc_pool redis) \<in> set live
          \<and> get_token_bucket_script st = Inr \<lparr>script_client = redis, script_source = TOKEN_BUCKET_LUA\<rparr>
          \<and> get_budget_script st = Inr \<lparr>script_client = redis, script_source = BUDGET_LUA\<rparr>)
     \<and> (\<exists>sm. st_sessionmaker st = Some sm \<and> eng_handle (sm_bind sm) \<in> set live \<and> eng_url (sm_bind sm) = database_url S)"

lemma startup_raises_None:
  "startup_raises X S = None \<Longrightarrow> \<exists>P. load_redactor X = Inr P"
  by (auto simp: startup_raises_def split: option.splits sum.splits)

lemma lifespan_startup_ready:
  assumes "configured S p p0" "startup_raises X S = None"
  shows "\<exists>p1. lifespan_startup X p = (Inr (locals_at S (pr_serial p)), p1)
     \<and> pr_live p1 = pr_live p @ numbered (pr_serial p) [Engine, Redis_pool, Redis_client, Http_client]
     \<and> pr_world p1 = pr_world p \<and> pr_tracing p1 = pr_tracing p \<and> pr_settings p1 = Some S
     \<and> st_tracer_provider (pr_state p1) = st_tracer_provider (pr_state p)
     \<and> dependencies_ready X S (pr_live p1) (pr_state p1)"
proof -
  obtain P where P: "load_redactor X = Inr P" using startup_raises_None [OF assms(2)] by auto
  show ?thesis
    using configured_frame [OF assms(1)]
    by (simp add: lifespan_startup_configured [OF assms(1)] assms(2) P Let_def opened_def started_state_def
        dependencies_ready_def found_def get_settings_dep_def get_provider_registry_def get_pii_redactor_def
        get_injection_detector_def get_redis_def get_token_bucket_script_def get_budget_script_def
        register_rate_limit_scripts_def build_sessionmaker_def locals_at_def)
qed

text \<open>The whole run from a process whose settings load and whose log level is known.\<close>

lemma run_app_served:
  assumes "process_ok p" "get_settings p = (Inr S, q)" "log_level S \<in> set (map fst LEVEL_NAMES)" "startup_raises X S = None"
  shows "\<exists>st p' live. dependencies_ready X S live st
     \<and> run_app X serving p =
         ((case closing_raises X of None \<Rightarrow> fst (serving st (pr_world p)) | Some (e, _) \<Rightarrow> Inl e), p')
     \<and> pr_world p' = snd (serving st (pr_world p))
     \<and> pr_live p' = pr_live p @ numbered (pr_serial p) (still_open X)
     \<and> live = pr_live p @ numbered (pr_serial p) [Engine, Redis_pool, Redis_client, Http_client]
     \<and> pr_tracing p' = shut X (snd (configure_tracing S (pr_tracing p))) \<and> pr_settings p' = Some S"
proof -
  obtain r p1 where c: "create_app p = (r, p1)" by fastforce
  obtain p0 a where p1: "configured S p1 p0" "r = Inr a" "st_tracer_provider (pr_state p1) \<noteq> None" "pr_live p1 = pr_live p"
    "pr_serial p1 = pr_serial p" "pr_world p1 = pr_world p" "pr_tracing p1 = snd (configure_tracing S (pr_tracing p))"
    using created_configured [OF assms(2,3) c] by auto
  obtain p2 where p2: "lifespan_startup X p1 = (Inr (locals_at S (pr_serial p)), p2)"
    "pr_live p2 = pr_live p @ numbered (pr_serial p) [Engine, Redis_pool, Redis_client, Http_client]"
    "pr_world p2 = pr_world p" "pr_tracing p2 = snd (configure_tracing S (pr_tracing p))"
    "st_tracer_provider (pr_state p2) \<noteq> None" "dependencies_ready X S (pr_live p2) (pr_state p2)" "pr_settings p2 = Some S"
    using lifespan_startup_ready [OF p1(1) assms(4)] p1 by auto
  obtain w v where sv: "serving (pr_state p2) (pr_world p) = (v, w)" by fastforce
  have "lifespan_shutdown X (locals_at S (pr_serial p)) (p2\<lparr>pr_world := w\<rparr>) =
     (case closing_raises X of None \<Rightarrow> Inr () | Some (e, _) \<Rightarrow> Inl e,
      p2\<lparr>pr_world := w, pr_live := pr_live p @ numbered (pr_serial p) (still_open X), pr_tracing := shut X (pr_tracing p2)\<rparr>)"
    using lifespan_shutdown_eval [OF assms(1), of "p2\<lparr>pr_world := w\<rparr>" X S] p2(2,5) by simp
  then have "run_app X serving p = ((case closing_raises X of None \<Rightarrow> v | Some (e, _) \<Rightarrow> Inl e),
      p2\<lparr>pr_world := w, pr_live := pr_live p @ numbered (pr_serial p) (still_open X), pr_tracing := shut X (pr_tracing p2)\<rparr>)"
    by (auto simp: run_app_def and_then_def c p1(2) lifespan_def p2(1,3) sv split: option.splits)
  then show ?thesis using p2(2,4,6,7) sv by (intro exI [of _ "pr_state p2"]) (simp split: option.splits)
qed

text \<open>
  C27. A process that starts up serves from what it built and gives it all back. Whatever the
  requests do, even when serving ends in an exception: while they run, every dependency of an
  endpoint resolves, to the objects built from the settings, on clients and an engine that are
  open. At the end the tracer provider is shut down and exactly the resources the process
  had before are open again; but the closing calls are not guarded against each other, so
  when one raises, its exception replaces the outcome and everything not closed by then stays open.
\<close>

theorem lifespan_serves_and_releases:
  fixes p :: "'w process"
  assumes "process_ok p" "get_settings p = (Inr S, q)" "log_level S \<in> set (map fst LEVEL_NAMES)" "startup_raises X S = None"
  shows "\<exists>st p'. dependencies_ready X S (pr_live p @ numbered (pr_serial p) [Engine, Redis_pool, Redis_client, Http_client]) st
     \<and> pr_world p' = snd (serving st (pr_world p))
     \<and> (case closing_raises X of
          None \<Rightarrow> run_app X serving p = (fst (serving st (pr_world p)), p') \<and> pr_live p' = pr_live p
            \<and> (\<exists>t. pr_tracing p' = Some t \<and> tp_shut_down t)
        | Some (e, ks) \<Rightarrow> run_app X serving p = (Inl e, p') \<and> pr_live p' = pr_live p @ numbered (pr_serial p) ks)"
proof -
  have "raises X Shutdown_tracer = None" if "closing_raises X = None"
    using that by (auto simp: closing_raises_def split: option.splits)
  then have "closing_raises X = None \<Longrightarrow> \<exists>t. shut X (snd (configure_tracing S (pr_tracing p))) = Some t \<and> tp_shut_down t"
    using configure_tracing_installs [of S "pr_tracing p"] by (auto simp: shut_def)
  then show ?thesis
    using run_app_served [OF assms, of serving] by (auto simp: still_open_def split: option.splits)
qed

text \<open>A process to evaluate on: nothing set up yet, default settings, no library call raising.\<close>

definition fresh_process :: "Settings \<Rightarrow> 'w \<Rightarrow> 'w process" where
  "fresh_process S w = \<lparr>pr_environ = Inr S, pr_settings = None, pr_tracing = None,
     pr_logging = \<lparr>root_handlers = [], root_level = 30, structlog = None\<rparr>, pr_live = [], pr_serial = 0,
     pr_state = empty_state, pr_world = w\<rparr>"

definition demo_outside :: outside where
  "demo_outside = \<lparr>raises = (\<lambda>_. None), load_redactor = Inr demo_redactor,
     embeddings = (\<lambda>_ _. Embed_raised (Other_exn ''ConnectError''))\<rparr>"

lemma fresh_settings: "get_settings (fresh_process S w) = (Inr S, (fresh_process S w)\<lparr>pr_settings := Some S\<rparr>)"
  by (simp add: get_settings_def fresh_process_def)

lemma fresh_ok: "process_ok (fresh_process S w)" "pr_live (fresh_process S w) = []" "pr_serial (fresh_process S w) = 0"
  "pr_world (fresh_process S w) = w" "pr_tracing (fresh_process S w) = None"
  by (simp_all add: process_ok_def fresh_process_def)

lemma default_level: "log_level default_settings \<in> set (map fst LEVEL_NAMES)"
  by (simp add: default_settings_def LEVEL_NAMES_def)

lemma demo_startup: "startup_raises demo_outside default_settings = None"
  by (simp add: startup_raises_def demo_outside_def warm_up_def new_detector_def default_settings_def)

theorem lifespan_serves_and_releases_witness:
  "pr_live (snd (run_app (demo_outside\<lparr>raises := [Close_redis_client \<mapsto> ConnectError ''reset'']\<rparr>)
     (\<lambda>_ n. (Inr (), Suc n)) (fresh_process default_settings (0 :: nat)))) = [(Engine, 0), (Redis_pool, 1), (Redis_client, 2)]"
proof -
  let ?X = "demo_outside\<lparr>raises := [Close_redis_client \<mapsto> ConnectError ''reset'']\<rparr>"
  have s: "startup_raises ?X default_settings = None" using demo_startup by (simp add: startup_raises_def demo_outside_def)
  show ?thesis
    using lifespan_serves_and_releases [OF fresh_ok(1) fresh_settings default_level s, of 0 "\<lambda>_ n. (Inr (), Suc n)"]
    by (auto simp: closing_raises_def fresh_ok)
qed

text \<open>
  C36. A start-up that fails gives nothing back. The resources are built before the \<open>try\<close> whose
  \<open>finally\<close> closes them: whichever step raises, its exception ends the process's start, no request is
  served, and everything opened until then stays open.
\<close>

theorem failed_startup_keeps_resources:
  fixes p :: "'w process"
  assumes "get_settings p = (Inr S, q)" "log_level S \<in> set (map fst LEVEL_NAMES)" "startup_raises X S = Some (e, ks)"
  shows "\<exists>p'. run_app X serving p = (Inl e, p') \<and> pr_live p' = pr_live p @ numbered (pr_serial p) ks
     \<and> pr_world p' = pr_world p"
proof -
  obtain r p1 where c: "create_app p = (r, p1)" by fastforce
  obtain p0 a where p1: "configured S p1 p0" "r = Inr a" "pr_live p1 = pr_live p" "pr_serial p1 = pr_serial p"
    "pr_world p1 = pr_world p"
    using created_configured [OF assms(1,2) c] by auto
  show ?thesis
    using configured_frame [OF p1(1)] p1
    by (simp add: run_app_def lifespan_def and_then_def c lifespan_startup_configured [OF p1(1)] assms(3) opened_def)
qed

text \<open>
  Embeddings that cannot be parsed are such a failure: the detector degrades to its heuristics when
  the call fails, but not when the answer's body is not the expected JSON.
\<close>

lemma malformed_embeddings_raise:
  assumes "\<And>c. raises X c = None" "load_redactor X = Inr P" "openai_api_key S \<noteq> []"
    and "\<And>texts key. embeddings X texts key = Embed_response 200 None"
  shows "startup_raises X S = Some (Other_exn ''JSONDecodeError'', [Engine, Redis_pool, Redis_client, Http_client])"
  using assms by (simp add: startup_raises_def warm_up_def new_detector_def embed_texts_def HTTPX_ERRORS_def)

theorem failed_startup_keeps_resources_witness:
  "\<exists>p'. run_app (demo_outside\<lparr>embeddings := \<lambda>_ _. Embed_response 200 None\<rparr>) (\<lambda>_ n. (Inr (), Suc n))
       (fresh_process (default_settings\<lparr>openai_api_key := ''sk''\<rparr>) (0 :: nat)) = (Inl (Other_exn ''JSONDecodeError''), p')
     \<and> pr_live p' = [(Engine, 0), (Redis_pool, 1), (Redis_client, 2), (Http_client, 3)] \<and> pr_world p' = 0"
proof -
  let ?S = "default_settings\<lparr>openai_api_key := ''sk''\<rparr>" and ?X = "demo_outside\<lparr>embeddings := \<lambda>_ _. Embed_response 200 None\<rparr>"
  have l: "log_level ?S \<in> set (map fst LEVEL_NAMES)" using default_level by simp
  have "startup_raises ?X ?S = Some (Other_exn ''JSONDecodeError'', [Engine, Redis_pool, Redis_client, Http_client])"
    by (rule malformed_embeddings_raise) (simp_all add: demo_outside_def)
  from failed_startup_keeps_resources [OF fresh_settings l this, of "\<lambda>_ n. (Inr (), Suc n)" 0] show ?thesis
    by (auto simp: fresh_ok)
qed

text \<open>
  The provider of traces is shared by all applications of a process and shut down by the first
  one that ends. A fresh process installs a working provider with exactly one exporter, the
  one the settings ask for; once an application has been served and shut down, every application
  created afterwards in the process is given the same provider, on which \<open>shutdown\<close> was called.
\<close>

theorem later_apps_get_shut_tracer:
  fixes p :: "'w process"
  assumes "process_ok p" "get_settings p = (Inr S, q)" "log_level S \<in> set (map fst LEVEL_NAMES)" "startup_raises X S = None"
    and "pr_tracing p = None" "raises X Shutdown_tracer = None"
  shows "\<exists>t. pr_tracing (snd (create_app p)) = Some t \<and> \<not> tp_shut_down t \<and> tp_exporters t = [span_exporter S]
     \<and> pr_tracing (snd (create_app (snd (run_app X serving p)))) = Some (t\<lparr>tp_shut_down := True\<rparr>)"
proof -
  obtain t where t: "snd (configure_tracing S None) = Some t" "\<not> tp_shut_down t" "tp_exporters t = [span_exporter S]"
    by (simp add: configure_tracing_def Let_def)
  obtain p' where p': "snd (run_app X serving p) = p'" "pr_tracing p' = Some (t\<lparr>tp_shut_down := True\<rparr>)" "pr_settings p' = Some S"
    using run_app_served [OF assms(1-4), of serving] assms(5,6) t(1) by (auto simp: shut_def)
  have "get_settings p' = (Inr S, p')" using p'(3) by (simp add: get_settings_def)
  from create_app_eval [OF this] have "pr_tracing (snd (create_app p')) = Some (t\<lparr>tp_shut_down := True\<rparr>)"
    by (auto simp: p'(2) configure_tracing_def)
  moreover have "pr_tracing (snd (create_app p)) = Some t"
    using create_app_eval [OF assms(2)] get_settings_frame [OF assms(2)] assms(5) t(1) by auto
  ultimately show ?thesis using t p'(1) by auto
qed

theorem later_apps_get_shut_tracer_witness:
  "\<exists>t. pr_tracing (snd (create_app (snd (run_app demo_outside (\<lambda>_ n. (Inr (), n)) (fresh_process default_settings (0 :: nat)))))) = Some t
     \<and> tp_shut_down t \<and> tp_exporters t = [ConsoleSpanExporter]"
proof -
  have "raises demo_outside Shutdown_tracer = None" by (simp add: demo_outside_def)
  from later_apps_get_shut_tracer [OF fresh_ok(1) fresh_settings default_level demo_startup fresh_ok(5) this,
      of 0 "\<lambda>_ n. (Inr (), n)"] show ?thesis
    by (auto simp: span_exporter_def default_settings_def)
qed

section \<open>The worker's resources\<close>

text \<open>
  The worker opens an engine, a pool and a client and, when no call raises, closes exactly these;
  when the client cannot be built, the shutdown fails at its first step and the engine stays
  open.
\<close>

lemma worker_resources:
  fixes p :: "worker_ctx process"
  assumes "process_ok p" "get_settings p = (Inr S, q)" "ctx_redis (pr_world p) = None"
    and "\<And>c. c \<noteq> Create_redis_pool \<Longrightarrow> raises X c = None"
  shows "(case raises X Create_redis_pool of
      None \<Rightarrow> fst (startup X p) = Inr () \<and> fst (shutdown X (snd (startup X p))) = Inr ()
         \<and> pr_live (snd (startup X p)) = pr_live p @ numbered (pr_serial p) [Engine, Redis_pool, Redis_client]
         \<and> pr_live (snd (shutdown X (snd (startup X p)))) = pr_live p
    | Some e \<Rightarrow> fst (startup X p) = Inl e \<and> fst (shutdown X (snd (startup X p))) = Inl (Other_exn ''KeyError'')
         \<and> pr_live (snd (shutdown X (snd (startup X p)))) = pr_live p @ [(Engine, pr_serial p)])"
  using assms(3) get_settings_frame [OF assms(2)] live_keep [OF assms(1)]
  by (auto simp: startup_def shutdown_def redis_from_url_def build_engine_def build_redis_pool_def set_ctx_def close_redis_def
      dispose_engine_def action_defs assms(2,4) split: option.splits)

end
