(* ===== verification/Traffic.thy ===== *)
theory Traffic
  imports Lifecycle_Properties
begin

text \<open>
  Requests one after another through the running application. Every chat request gets a database
  session of its own from \<open>get_db_session\<close>, the clients and detectors from the application's state,
  and passes the middlewares, authentication and the endpoint; Redis, the tables, the breakers and
  the counters carry over to the next one. Between two requests nothing in Redis expires.
\<close>

section \<open>Serving\<close>

record 's site =
  si_redis :: 's
  si_db :: db
  si_providers :: "string \<rightharpoonup> OpenAICompatibleProvider"
  si_metrics :: "metric list"
  si_http_metrics :: "http_metric list"

text \<open>A request with what the outside does during it: upstream answers, clocks, random numbers.\<close>

record 's chat_call =
  cc_request :: http_request
  cc_body :: ChatCompletionRequest
  cc_env :: "'s env"
  cc_fresh :: uuid
  cc_started :: rat
  cc_ended :: rat
  cc_now :: datetime
  cc_uuids :: "nat \<Rightarrow> uuid"

text \<open>The parameters of \<open>chat_completions\<close> after the tenant, in their order.\<close>

definition resolve_dependencies :: "app_state \<Rightarrow> 's env \<Rightarrow> (exn, 's env) result" where
  "resolve_dependencies st E =
     (case get_redis st of Inl e \<Rightarrow> Inl e | Inr _ \<Rightarrow>
     (case get_provider_registry st of Inl e \<Rightarrow> Inl e | Inr _ \<Rightarrow>
     (case get_settings_dep st of Inl e \<Rightarrow> Inl e | Inr S \<Rightarrow>
     (case get_token_bucket_script st of Inl e \<Rightarrow> Inl e | Inr _ \<Rightarrow>
     (case get_budget_script st of Inl e \<Rightarrow> Inl e | Inr _ \<Rightarrow>
     (case get_pii_redactor st of Inl e \<Rightarrow> Inl e | Inr P \<Rightarrow>
     (case get_injection_detector st of Inl e \<Rightarrow> Inl e | Inr D \<Rightarrow>
        Inr (E\<lparr>e_pii := P, e_detector := D, e_cache_ttl := cache_ttl_seconds S\<rparr>))))))))"

definition wired_endpoint ::
  "crypto \<Rightarrow> app_state \<Rightarrow> 's chat_call \<Rightarrow> string \<Rightarrow> 's gateway \<Rightarrow> (failure, http_response) result \<times> 's gateway" where
  "wired_endpoint K st c cid g =
     (case get_settings_dep st of
        Inl e \<Rightarrow> (Inl (Uncaught e), g)
      | Inr S \<Rightarrow>
          (case resolve_dependencies st (cc_env c) of
             Inr E \<Rightarrow> chat_endpoint K (api_key_pepper S) E (cc_request c) (cc_body c) cid g
           | Inl e \<Rightarrow>
               (case get_current_tenant K (api_key_pepper S) (header ''authorization'' (rq_headers (cc_request c))) (Some cid)
                       (g_session g) of
                  (Inl f, s) \<Rightarrow> (Inl f, g\<lparr>g_session := s\<rparr>)
                | (Inr _, s) \<Rightarrow> (Inl (Uncaught e), g\<lparr>g_session := s\<rparr>))))"

definition serve_chat :: "crypto \<Rightarrow> app_state \<Rightarrow> 's chat_call \<Rightarrow> 's site \<Rightarrow> http_response \<times> 's site" where
  "serve_chat K st c w =
     (case get_db_session st (cc_now c) (cc_uuids c)
             (\<lambda>s. case app (cc_fresh c) (cc_started c) (cc_ended c) (wired_endpoint K st c) (cc_request c)
                     \<lparr>g_redis = si_redis w, g_session = s, g_providers = si_providers w, g_metrics = si_metrics w\<rparr> of
                   (resp, g, ms) \<Rightarrow> ((resp, g, ms), g_session g)) (si_db w) of
        (Inl _, d) \<Rightarrow> (server_error, w\<lparr>si_db := d\<rparr>)
      | (Inr (resp, g, ms), d) \<Rightarrow>
          (resp, \<lparr>si_redis = g_redis g, si_db = d, si_providers = g_providers g, si_metrics = g_metrics g,
                  si_http_metrics = si_http_metrics w @ ms\<rparr>))"

fun serve_chats :: "crypto \<Rightarrow> app_state \<Rightarrow> 's chat_call list \<Rightarrow> 's site \<Rightarrow> http_response list \<times> 's site" where
  "serve_chats K st [] w = ([], w)"
| "serve_chats K st (c # cs) w =
     (case serve_chat K st c w of (resp, w) \<Rightarrow>
        (case serve_chats K st cs w of (resps, w) \<Rightarrow> (resp # resps, w)))"

text \<open>A response after which nothing is owed: no server error and no stream cut by a database error.\<close>

fun settled_body :: "body \<Rightarrow> bool" where
  "settled_body (Endpoint_body r) = settled (Inr r)"
| "settled_body _ = True"

definition settled_response :: "http_response \<Rightarrow> bool" where
  "settled_response resp \<longleftrightarrow> rs_status resp \<noteq> 500 \<and> settled_body (rs_body resp)"

section \<open>One request\<close>

definition credentials :: "'s chat_call \<Rightarrow> string option" where
  "credentials c = header ''authorization'' (rq_headers (cc_request c))"

lemma ready_dependencies:
  assumes "dependencies_ready X S live st"
  shows "get_settings_dep st = Inr S" "\<exists>sm. st_sessionmaker st = Some sm"
    and "\<exists>P D. resolve_dependencies st E = Inr (E\<lparr>e_pii := P, e_detector := D, e_cache_ttl := cache_ttl_seconds S\<rparr>)"
proof -
  obtain P where P: "get_pii_redactor st = Inr P" using assms by (auto simp: dependencies_ready_def)
  show "get_settings_dep st = Inr S" "\<exists>sm. st_sessionmaker st = Some sm" using assms by (auto simp: dependencies_ready_def)
  have "resolve_dependencies st E = Inr (E\<lparr>e_pii := P,
      e_detector := snd (warm_up (embeddings X) (new_detector (openai_api_key S))), e_cache_ttl := cache_ttl_seconds S\<rparr>)"
    using assms P by (auto simp: dependencies_ready_def resolve_dependencies_def)
  then show "\<exists>P D. resolve_dependencies st E = Inr (E\<lparr>e_pii := P, e_detector := D, e_cache_ttl := cache_ttl_seconds S\<rparr>)"
    by blast
qed

text \<open>
  One request of a ready application, on well-formed tables: refused without a trace beyond the
  audit log, or one run of \<open>chat_completions\<close> for the tenant its credentials belong to.
\<close>

lemma serve_chat_step:
  assumes "dependencies_ready X S live st" "db_ok (si_db w)" "serve_chat K st c w = (resp, w')"
  shows "case auth_decision K (api_key_pepper S) (credentials c) (si_db w) of
      Inl _ \<Rightarrow> si_redis w' = si_redis w \<and> usage_records (si_db w') = usage_records (si_db w)
         \<and> identities (si_db w') = identities (si_db w)
    | Inr (t, k) \<Rightarrow> \<exists>E g g' r rows idem cid. chat_completions E (tenant_context t k) idem cid (cc_body c) g = (r, g')
         \<and> e_redis E = e_redis (cc_env c) \<and> e_month E = e_month (cc_env c) \<and> e_cache_ttl E = cache_ttl_seconds S
         \<and> g_redis g = si_redis w \<and> g_redis g' = si_redis w' \<and> (settled_response resp \<longrightarrow> settled r)
         \<and> usage_records (si_db w') = usage_records (si_db w) @ rows \<and> bill_ok E (tenant_context t k) r rows
         \<and> identities (si_db w') = identities ((si_db w)\<lparr>api_keys :=
             replace_by ak_id (k\<lparr>ak_last_used_at := Some (cc_now c)\<rparr>) (api_keys (si_db w))\<rparr>)"
proof -
  define s where "s = begin_session (cc_now c) (cc_uuids c) (si_db w)"
  define g where "g = \<lparr>g_redis = si_redis w, g_session = s, g_providers = si_providers w, g_metrics = si_metrics w\<rparr>"
  define cid where "cid = correlation_id_of (cc_fresh c) (cc_request c)"
  note rd = ready_dependencies [OF assms(1)]
  obtain sm where sm: "st_sessionmaker st = Some sm" using rd(2) by auto
  obtain P D where E: "resolve_dependencies st (cc_env c)
      = Inr ((cc_env c)\<lparr>e_pii := P, e_detector := D, e_cache_ttl := cache_ttl_seconds S\<rparr>)" (is "_ = Inr ?E")
    using rd(3) by blast
  have wired: "wired_endpoint K st c = chat_endpoint K (api_key_pepper S) ?E (cc_request c) (cc_body c)"
    by (simp add: fun_eq_iff wired_endpoint_def rd(1) E)
  obtain resp1 g1 ms where a: "app (cc_fresh c) (cc_started c) (cc_ended c) (wired_endpoint K st c) (cc_request c) g = (resp1, g1, ms)"
    by (metis prod_cases3)
  obtain r g2 where run: "chat_endpoint K (api_key_pepper S) ?E (cc_request c) (cc_body c) cid g = (r, g2)" by fastforce
  have out: "resp = resp1" "si_redis w' = g_redis g1" "si_db w' = committed (g_session g1)"
    using assms(3) by (auto simp: serve_chat_def get_db_session_def sm found_def s_def [symmetric] g_def [symmetric] a)
  have g1: "g1 = g2"
    using app_state [of "wired_endpoint K st c" "cc_fresh c" "cc_request c" g r g2 "cc_started c" "cc_ended c"] run a
    by (simp add: wired cid_def)
  have g: "quiet (g_session g)" "committed (g_session g) = si_db w" "g_redis g = si_redis w"
    by (simp_all add: g_def s_def begin_session_def quiet_def)
  have resp: "\<exists>out. r = Inr out \<Longrightarrow> rs_status resp = rs_status (projr r) \<and> rs_body resp = rs_body (projr r)"
    "r = Inl f \<Longrightarrow> rs_status resp = (case f of Http exc \<Rightarrow> status_code exc | _ \<Rightarrow> 500)" for f
    using a run out(1) app_failure_status [of "wired_endpoint K st c" "cc_fresh c" "cc_request c" g f g2 "cc_started c" "cc_ended c"]
    by (auto simp: wired cid_def app_def prometheus_dispatch_def correlation_dispatch_def handle_http_exceptions_def Let_def
        split: sum.splits failure.splits)
  note step = chat_endpoint_run [OF g(1) _ run, unfolded g(2), OF assms(2), folded credentials_def]
  show ?thesis
  proof (cases "auth_decision K (api_key_pepper S) (credentials c) (si_db w)")
    case (Inl x)
    then show ?thesis using step g by (simp add: out g1)
  next
    case (Inr tk)
    obtain t k where tk: "tk = (t, k)" by (cases tk)
    obtain r2 rows where r2: "chat_completions ?E (tenant_context t k) (header ''Idempotency-Key'' (rq_headers (cc_request c))) (Some cid)
        (cc_body c) (g\<lparr>g_session := touched k (g_session g)\<rparr>) = (r2, g2)"
      "case r2 of Inl f \<Rightarrow> r = Inl f | Inr resp \<Rightarrow> \<exists>out. r = Inr out \<and> rs_status out = 200 \<and> rs_body out = Endpoint_body resp"
      "usage_records (committed (g_session g2)) = usage_records (si_db w) @ rows" "bill_ok ?E (tenant_context t k) r2 rows"
      "identities (committed (g_session g2)) = identities (committed (touched k (g_session g)))"
      using step by (auto simp: Inr tk)
    have sr: "settled_response resp \<longrightarrow> settled r2"
    proof (cases r2)
      case (Inl f)
      then show ?thesis using r2(2) resp(2) by (cases f) (auto simp: settled_response_def)
    qed (use r2(2) resp(1) in \<open>auto simp: settled_response_def\<close>)
    have ct: "committed (touched k (g_session g)) = (si_db w)\<lparr>api_keys :=
        replace_by ak_id (k\<lparr>ak_last_used_at := Some (cc_now c)\<rparr>) (api_keys (si_db w))\<rparr>"
      by (simp add: touched_def Let_def g_def s_def begin_session_def)
    show ?thesis
      unfolding Inr tk sum.case prod.case
      by (intro exI conjI, rule r2(1)) (use r2 g(3) sr ct in \<open>simp_all add: out g1\<close>)
  qed
qed

section \<open>Tables that authenticate alike\<close>

definition unused :: "ApiKey \<Rightarrow> ApiKey" where
  "unused k = k\<lparr>ak_last_used_at := None\<rparr>"

lemma unused_simps [simp]:
  "ak_id (unused k) = ak_id k" "ak_key_id (unused k) = ak_key_id k" "ak_tenant_id (unused k) = ak_tenant_id k"
  "ak_revoked_at (unused k) = ak_revoked_at k" "ak_hashed_secret (unused k) = ak_hashed_secret k"
  "unused (k\<lparr>ak_last_used_at := x\<rparr>) = unused k"
  by (simp_all add: unused_def)

definition same_access :: "db \<Rightarrow> db \<Rightarrow> bool" where
  "same_access d d' \<longleftrightarrow> tenants d' = tenants d \<and> map unused (api_keys d') = map unused (api_keys d)"

lemma same_access_trans: "same_access d d1 \<Longrightarrow> same_access d1 d2 \<Longrightarrow> same_access d d2"
  by (simp add: same_access_def)

lemma same_access_identities: "identities d' = identities d1 \<Longrightarrow> same_access d d1 \<Longrightarrow> same_access d d'"
  by (simp add: same_access_def identities_def)

lemma map_through_unused:
  assumes "map unused xs = map unused ys" "\<And>k. f (unused k) = f k"
  shows "map f xs = map f ys"
proof -
  have "map f zs = map f (map unused zs)" for zs using assms(2) by simp
  then show ?thesis using assms(1) by metis
qed

lemma same_access_db_ok:
  assumes "same_access d d'" shows "db_ok d' \<longleftrightarrow> db_ok d"
proof -
  have m: "map f (api_keys d') = map f (api_keys d)" if "\<And>k. f (unused k) = f k" for f :: "ApiKey \<Rightarrow> 'a"
    by (rule map_through_unused) (use assms that in \<open>simp_all add: same_access_def\<close>)
  have "list_all (\<lambda>k. T (ak_tenant_id k)) (api_keys d') = list_all (\<lambda>k. T (ak_tenant_id k)) (api_keys d)" for T
    using arg_cong [OF m [of ak_tenant_id], of "list_all T"] by (simp add: list.pred_map comp_def)
  moreover have "tenant_exists d' = tenant_exists d" using assms by (simp add: same_access_def tenant_exists_def fun_eq_iff)
  ultimately show ?thesis
    using assms m [of ak_id] m [of ak_key_id] by (simp add: db_ok_def same_access_def)
qed

lemma same_access_accepts:
  assumes "same_access d d'" "db_ok d" "auth_decision K pepper h d' = Inr (t, k')"
  shows "\<exists>k. auth_decision K pepper h d = Inr (t, k) \<and> ak_key_id k = ak_key_id k' \<and> ak_tenant_id k = ak_tenant_id k'"
proof -
  have ok: "db_ok d'" using same_access_db_ok assms(1,2) by blast
  obtain sec where a: "map_option parse_api_key (bearer_token h) = Some (Some (ak_key_id k', sec))" "k' \<in> set (api_keys d')"
    "ak_revoked_at k' = None" "hmac_sha256 K pepper sec = ak_hashed_secret k'" "t \<in> set (tenants d')" "t_id t = ak_tenant_id k'"
    "t_is_active t"
    using assms(3) auth_decision_accepts_iff [OF ok] by auto
  have "unused k' \<in> set (map unused (api_keys d))" using a(2) assms(1) by (metis same_access_def image_eqI list.set_map)
  then obtain k where k: "k \<in> set (api_keys d)" "unused k' = unused k" by auto
  have "ak_key_id k = ak_key_id k'" "ak_tenant_id k = ak_tenant_id k'" "ak_revoked_at k = ak_revoked_at k'"
    "ak_hashed_secret k = ak_hashed_secret k'"
    using arg_cong [OF k(2), of ak_key_id] arg_cong [OF k(2), of ak_tenant_id] arg_cong [OF k(2), of ak_revoked_at]
      arg_cong [OF k(2), of ak_hashed_secret] by simp_all
  then show ?thesis
    using auth_decision_accepts_iff [OF assms(2), of K pepper h t k] a k(1) assms(1) by (auto simp: same_access_def)
qed

lemma touch_same_access:
  assumes "db_ok d" "k \<in> set (api_keys d)"
  shows "same_access d (d\<lparr>api_keys := replace_by ak_id (k\<lparr>ak_last_used_at := x\<rparr>) (api_keys d)\<rparr>)"
proof -
  have "distinct (map ak_id (api_keys d))" using assms(1) by (simp add: db_ok_def)
  then have "unused y = unused k" if "y \<in> set (api_keys d)" "ak_id y = ak_id k" for y
    using distinct_key_unique [of ak_id, OF _ that(1) assms(2) that(2)] by simp
  then show ?thesis by (simp add: same_access_def map_replace_same)
qed

lemma serve_chat_access:
  assumes "dependencies_ready X S live st" "db_ok (si_db w)" "serve_chat K st c w = (resp, w')"
  shows "same_access (si_db w) (si_db w')"
proof (cases "auth_decision K (api_key_pepper S) (credentials c) (si_db w)")
  case (Inl x)
  then have "identities (si_db w') = identities (si_db w)" using serve_chat_step [OF assms] by simp
  then show ?thesis by (simp add: same_access_def identities_def)
next
  case (Inr tk)
  obtain t k where tk: "tk = (t, k)" by (cases tk)
  have "k \<in> set (api_keys (si_db w))" using Inr tk auth_decision_accepts_iff [OF assms(2)] by auto
  from touch_same_access [OF assms(2) this] show ?thesis
    using serve_chat_step [OF assms] by (auto simp: Inr tk intro: same_access_identities)
qed

section \<open>Attribution over all requests\<close>

text \<open>The rows of one request: at most one, of the tenant and key its credentials belong to.\<close>

definition attributed :: "crypto \<Rightarrow> string \<Rightarrow> db \<Rightarrow> 's chat_call \<Rightarrow> UsageRecord list \<Rightarrow> bool" where
  "attributed K pepper d c rows \<longleftrightarrow>
     rows = [] \<or> (\<exists>row t k. rows = [row] \<and> auth_decision K pepper (credentials c) d = Inr (t, k)
        \<and> ur_tenant_id row = t_id t \<and> ur_api_key_id row = ak_key_id k)"

lemma attributed_same_access:
  "same_access d d' \<Longrightarrow> db_ok d \<Longrightarrow> attributed K pepper d' c rows \<Longrightarrow> attributed K pepper d c rows"
  unfolding attributed_def using same_access_accepts by metis

lemma serve_chat_attributed:
  fixes w :: "'s site"
  assumes "dependencies_ready X S live st" "db_ok (si_db w)" "serve_chat K st c w = (resp, w')"
  shows "\<exists>rows. usage_records (si_db w') = usage_records (si_db w) @ rows \<and> attributed K (api_key_pepper S) (si_db w) c rows"
proof (cases "auth_decision K (api_key_pepper S) (credentials c) (si_db w)")
  case (Inl x)
  then show ?thesis using serve_chat_step [OF assms] by (intro exI [of _ "[]"]) (simp add: attributed_def)
next
  case (Inr tk)
  obtain t k where tk: "tk = (t, k)" by (cases tk)
  obtain E :: "'s env" and r rows where r: "usage_records (si_db w') = usage_records (si_db w) @ rows" "bill_ok E (tenant_context t k) r rows"
    using serve_chat_step [OF assms] by (auto simp: Inr tk)
  have "rows = [] \<or> (\<exists>row. rows = [row])" using bill_ok_rows [OF r(2)] by (cases rows) auto
  then show ?thesis using r(1) bill_ok_rows [OF r(2)] by (auto simp: attributed_def Inr tk tenant_context_def)
qed

lemma serve_chats_attributed:
  assumes "dependencies_ready X S live st" "db_ok (si_db w)" "serve_chats K st cs w = (resps, w')"
  shows "same_access (si_db w) (si_db w') \<and> (\<exists>rowss. usage_records (si_db w') = usage_records (si_db w) @ concat rowss
     \<and> list_all2 (attributed K (api_key_pepper S) (si_db w)) cs rowss)"
  using assms(2,3)
proof (induction cs arbitrary: w resps)
  case Nil
  then show ?case by (auto simp: same_access_def)
next
  case (Cons c cs)
  obtain resp w1 rest where s: "serve_chat K st c w = (resp, w1)" "serve_chats K st cs w1 = (rest, w')"
    using Cons.prems(2) by (auto split: prod.splits)
  have acc: "same_access (si_db w) (si_db w1)" by (rule serve_chat_access [OF assms(1) Cons.prems(1) s(1)])
  then have ok: "db_ok (si_db w1)" using Cons.prems(1) same_access_db_ok by blast
  obtain rows where rows: "usage_records (si_db w1) = usage_records (si_db w) @ rows" "attributed K (api_key_pepper S) (si_db w) c rows"
    using serve_chat_attributed [OF assms(1) Cons.prems(1) s(1)] by auto
  obtain rowss where rowss: "same_access (si_db w1) (si_db w')" "usage_records (si_db w') = usage_records (si_db w1) @ concat rowss"
    "list_all2 (attributed K (api_key_pepper S) (si_db w1)) cs rowss"
    using Cons.IH [OF ok s(2)] by auto
  have "list_all2 (attributed K (api_key_pepper S) (si_db w)) cs rowss"
    by (rule list_all2_mono [OF rowss(3)]) (rule attributed_same_access [OF acc Cons.prems(1)])
  then show ?case
    using rows rowss(1,2) same_access_trans [OF acc] by (intro conjI exI [of _ "rows # rowss"]) auto
qed

section \<open>Slots and locks over all requests\<close>

text \<open>
  The limiter keys of every tenant are well-formed, its slot counter reads \<open>n\<close> and exactly the
  idempotency keys in \<open>L\<close> are locked.
\<close>

definition books :: "string \<Rightarrow> (uuid \<Rightarrow> int) \<Rightarrow> (uuid \<Rightarrow> string \<Rightarrow> bool) \<Rightarrow> keyspace \<Rightarrow> bool" where
  "books month n L ks \<longleftrightarrow> (\<forall>tenant. services_at tenant month ks (n (tenant_id tenant)) (L (tenant_id tenant)) ks)"

lemma services_at_moved:
  assumes "services_at tenant month ks n L ks" "\<And>j. owned_by (tenant_id tenant) j \<Longrightarrow> ks' j = ks j"
  shows "services_at tenant month ks' n L ks'"
proof -
  have "ks' (rpm_bucket_key t) = ks (rpm_bucket_key t)" "ks' (tpm_bucket_key t) = ks (tpm_bucket_key t)"
    "ks' (budget_key t month) = ks (budget_key t month)" "ks' (concurrency_key t) = ks (concurrency_key t)"
    "ks' (lock_key t k) = ks (lock_key t k)" if "t = tenant_id tenant" for t k
    using assms(2) that by simp_all
  then show ?thesis
    using assms(1) by (simp add: services_at_def Let_def bucket_at_def hash_at_def budget_at_def counter_at_def)
qed

lemma services_at_rebase: "services_at tenant month ks0 n L ks \<Longrightarrow> services_at tenant month ks n L ks"
  by (simp add: services_at_def Let_def)

lemma services_at_tenant: "tenant_id a = tenant_id b \<Longrightarrow> services_at a month ks0 n L ks = services_at b month ks0 n L ks"
  by (simp add: services_at_def)

lemma books_step:
  assumes "books month n L ks" "services_at tenant month ks m M ks'"
  shows "books month (n(tenant_id tenant := m)) (L(tenant_id tenant := M)) ks'"
  unfolding books_def
proof
  fix u
  show "services_at u month ks' ((n(tenant_id tenant := m)) (tenant_id u)) ((L(tenant_id tenant := M)) (tenant_id u)) ks'"
  proof (cases "tenant_id u = tenant_id tenant")
    case True
    then show ?thesis using services_at_rebase [OF assms(2)] services_at_tenant [OF True] by simp
  next
    case False
    have "ks' j = ks j" if "owned_by (tenant_id u) j" for j
      using assms(2) owned_by_inj [OF that, of "tenant_id tenant"] False by (auto simp: services_at_def Let_def)
    then show ?thesis using assms(1) False services_at_moved [of u month ks] by (simp add: books_def)
  qed
qed

lemma serve_chat_books:
  assumes "dependencies_ready X S live st" "db_ok (si_db w)" "serve_chat K st c w = (resp, w')"
    and "redis_server (e_redis (cc_env c)) entry now" "0 < cache_ttl_seconds S" "e_month (cc_env c) = month"
    and "books month n L (entry (si_redis w))"
  shows "\<exists>n' L'. books month n' L' (entry (si_redis w')) \<and> (\<forall>u. n u \<le> n' u \<and> n' u \<le> n u + 1)
     \<and> (settled_response resp \<longrightarrow> n' = n \<and> L' = L)"
proof (cases "auth_decision K (api_key_pepper S) (credentials c) (si_db w)")
  case (Inl x)
  then have "si_redis w' = si_redis w" using serve_chat_step [OF assms(1-3)] by simp
  then show ?thesis using assms(7) by (intro exI [of _ n] exI [of _ L]) simp
next
  case (Inr tk)
  obtain t k where tk: "tk = (t, k)" by (cases tk)
  let ?t = "tenant_context t k"
  obtain E g g' r idem cid where run: "chat_completions E ?t idem cid (cc_body c) g = (r, g')"
    "e_redis E = e_redis (cc_env c)" "e_month E = month" "e_cache_ttl E = cache_ttl_seconds S"
    "g_redis g = si_redis w" "g_redis g' = si_redis w'" "settled_response resp \<longrightarrow> settled r"
    using serve_chat_step [OF assms(1-3)] assms(6) by (simp only: Inr tk sum.case prod.case) blast
  have gw: "redis_gateway E entry now" using assms(4,5) run(2,4) by (simp add: redis_gateway_def redis_gateway_axioms_def)
  have "services_at ?t (e_month E) (entry (g_redis g)) (n (tenant_id ?t)) (L (tenant_id ?t)) (entry (g_redis g))"
    using assms(7) run(3,5) by (simp add: books_def)
  from redis_gateway.redis_books [OF gw this run(1)] obtain m M where
    m: "services_at ?t (e_month E) (entry (g_redis g)) m M (entry (g_redis g'))"
      "settled r \<longrightarrow> m = n (tenant_id ?t) \<and> M = L (tenant_id ?t)" "m = n (tenant_id ?t) \<or> m = n (tenant_id ?t) + 1"
    by blast
  have "books month (n(tenant_id ?t := m)) (L(tenant_id ?t := M)) (entry (si_redis w'))"
    using books_step [OF assms(7)] m(1) run(3,5,6) by simp
  moreover have "settled_response resp \<longrightarrow> n(tenant_id ?t := m) = n \<and> L(tenant_id ?t := M) = L" using m(2) run(7) by auto
  ultimately show ?thesis using m(3) by (intro exI conjI) auto
qed

definition server_failures :: "http_response list \<Rightarrow> nat" where
  "server_failures resps = length (filter (\<lambda>r. \<not> settled_response r) resps)"

lemma serve_chats_books:
  assumes "dependencies_ready X S live st" "db_ok (si_db w)" "serve_chats K st cs w = (resps, w')"
    and "redis_server R entry now" "0 < cache_ttl_seconds S"
    and "\<And>c. c \<in> set cs \<Longrightarrow> e_redis (cc_env c) = R \<and> e_month (cc_env c) = month"
    and "books month n L (entry (si_redis w))"
  shows "\<exists>n' L'. books month n' L' (entry (si_redis w')) \<and> (\<forall>u. n u \<le> n' u \<and> n' u \<le> n u + int (server_failures resps))
     \<and> (server_failures resps = 0 \<longrightarrow> n' = n \<and> L' = L)"
  using assms(2,3,6,7)
proof (induction cs arbitrary: w resps n L)
  case Nil
  then show ?case by (auto simp: server_failures_def intro!: exI [of _ n] exI [of _ L])
next
  case (Cons c cs)
  obtain resp w1 rest where s: "serve_chat K st c w = (resp, w1)" "serve_chats K st cs w1 = (rest, w')" "resps = resp # rest"
    using Cons.prems(2) by (auto split: prod.splits)
  have ok: "db_ok (si_db w1)"
    using same_access_db_ok serve_chat_access [OF assms(1) Cons.prems(1) s(1)] Cons.prems(1) by blast
  have "redis_server (e_redis (cc_env c)) entry now" "e_month (cc_env c) = month" using Cons.prems(3) assms(4) by simp_all
  from serve_chat_books [OF assms(1) Cons.prems(1) s(1) this(1) assms(5) this(2) Cons.prems(4)] obtain n1 L1 where
    b: "books month n1 L1 (entry (si_redis w1))" "\<And>u. n u \<le> n1 u \<and> n1 u \<le> n u + 1" "settled_response resp \<longrightarrow> n1 = n \<and> L1 = L"
    by blast
  obtain n2 L2 where
    e: "books month n2 L2 (entry (si_redis w'))" "\<And>u. n1 u \<le> n2 u \<and> n2 u \<le> n1 u + int (server_failures rest)"
      "server_failures rest = 0 \<longrightarrow> n2 = n1 \<and> L2 = L1"
    using Cons.IH [OF ok s(2) _ b(1)] Cons.prems(3) by auto
  have "n u \<le> n2 u \<and> n2 u \<le> n u + int (server_failures resps)" for u
    using b(2) [of u] e(2) [of u] b(3) by (cases "settled_response resp") (auto simp: s(3) server_failures_def)
  moreover have "server_failures resps = 0 \<longrightarrow> n2 = n \<and> L2 = L"
    using b(3) e(3) by (auto simp: s(3) server_failures_def split: if_splits)
  ultimately show ?case using e(1) by (intro exI [of _ n2] exI [of _ L2]) simp
qed


text \<open>A state to evaluate on, and two requests of which only the first carries a valid key.\<close>

definition demo_state :: app_state where
  "demo_state = started_state demo_outside default_settings (locals_at default_settings 0) demo_redactor empty_state"

lemma demo_ready:
  "dependencies_ready demo_outside default_settings (numbered 0 [Engine, Redis_pool, Redis_client, Http_client]) demo_state"
  by (simp add: dependencies_ready_def demo_state_def started_state_def found_def get_settings_dep_def get_provider_registry_def
      get_pii_redactor_def get_injection_detector_def get_redis_def get_token_bucket_script_def get_budget_script_def
      register_rate_limit_scripts_def build_sessionmaker_def locals_at_def demo_outside_def Let_def)

definition demo_call :: "string \<Rightarrow> mem chat_call" where
  "demo_call token = \<lparr>cc_request = \<lparr>rq_method = ''POST'', rq_route = Some ''/v1/chat/completions'',
       rq_headers = [(''Authorization'', ''Bearer '' @ token)]\<rparr>, cc_body = hello_request, cc_env = demo_env, cc_fresh = 7,
     cc_started = 0, cc_ended = 1, cc_now = 0, cc_uuids = demo_ids\<rparr>"

definition demo_site :: "mem site" where
  "demo_site = \<lparr>si_redis = mem_empty, si_db = demo_db, si_providers = Map.empty, si_metrics = [], si_http_metrics = []\<rparr>"

lemma demo_books: "books ''2026-09'' (\<lambda>_. 0) (\<lambda>_ _. False) (mem_entry mem_empty)"
  by (simp add: books_def demo_services)


text \<open>The serving of a list of chat requests, from the registry that start-up built.\<close>

definition serve_all :: "crypto \<Rightarrow> 's chat_call list \<Rightarrow> app_state \<Rightarrow> 's site \<Rightarrow> (exn, unit) result \<times> 's site" where
  "serve_all K cs st w =
     (case get_provider_registry st of
        Inl e \<Rightarrow> (Inl e, w)
      | Inr registry \<Rightarrow> (case serve_chats K st cs (w\<lparr>si_providers := registry\<rparr>) of (_, w) \<Rightarrow> (Inr (), w)))"

end
