(* ===== verification/Admin_Properties.thy ===== *)
theory Admin_Properties
  imports Admin_Invariants
begin

text \<open>
  What the administration endpoints achieve end to end: an issued key authenticates, a login token
  opens the administration endpoints, and what a PATCH of a tenant can and cannot change.
\<close>

section \<open>Bearer tokens\<close>

lemma bearer_token_Bearer: "str_strip tok = tok \<Longrightarrow> bearer_token (Some (''Bearer '' @ tok)) = Some tok"
proof -
  have "str_lower (''Bearer '' @ tok) = ''bearer '' @ str_lower tok"
  proof -
    have "str_lower ''Bearer '' = ''bearer ''" by code_simp
    then show ?thesis by (simp only: str_lower_def map_append)
  qed
  moreover have "str_partition (CHR '' '') (''Bearer '' @ tok) = (''Bearer'', tok)"
    using str_partition_append [of "CHR '' ''" "''Bearer''" tok] by simp
  ultimately show "str_strip tok = tok \<Longrightarrow> bearer_token (Some (''Bearer '' @ tok)) = Some tok"
    by (simp add: bearer_token_def Let_def del: append.simps)
qed

lemma urlsafe_char_not_space: "d < 64 \<Longrightarrow> \<not> is_space (urlsafe_char d)"
proof -
  assume "d < 64"
  then have "urlsafe_char d \<in> set ''ABCDEFGHIJKLMNOPQRSTUVWXYZabcdefghijklmnopqrstuvwxyz0123456789-_''"
    unfolding urlsafe_char_def by (intro nth_mem) simp
  then show ?thesis by (auto simp: is_space_def)
qed

lemma hex_char_not_space: "d < 16 \<Longrightarrow> \<not> is_space (hex_char d)"
  using hex_char_cases [of d] by (auto simp: is_space_def)

lemma urlsafe_digits_not_space: "\<forall>c \<in> set (urlsafe_digits k n). \<not> is_space c"
  by (induction k arbitrary: n) (auto simp: urlsafe_char_not_space)

lemma hex_digits_not_space: "\<forall>c \<in> set (hex_digits k n). \<not> is_space c"
  using set_hex_digits [of k n] by (fastforce simp: is_space_def)

lemma issued_key_strip:
  assumes "generate_api_key r1 r2 = (full, i, sec)"
  shows "str_strip full = full" "parse_api_key full = Some (i, sec)"
proof -
  have f: "full = API_KEY_PREFIX @ hex_digits 16 r1 @ ''.'' @ urlsafe_digits 32 r2" "i = hex_digits 16 r1" "sec = urlsafe_digits 32 r2"
    using assms by (auto simp: generate_api_key_def Let_def token_hex_def token_urlsafe_def KEY_ID_BYTES_def SECRET_BYTES_def)
  have "\<forall>c \<in> set full. \<not> is_space c"
    using hex_digits_not_space [of 16 r1] urlsafe_digits_not_space [of 32 r2]
    by (auto simp: f API_KEY_PREFIX_def is_space_def)
  then show "str_strip full = full" by (rule str_strip_id)
  have "hex_digits 16 r1 \<noteq> []" "urlsafe_digits 32 r2 \<noteq> []"
    by (metis length_hex_digits list.size(3) zero_neq_numeral, metis length_urlsafe_digits list.size(3) zero_neq_numeral)
  then show "parse_api_key full = Some (i, sec)" unfolding f parse_api_key_iff by (simp add: hex_digits_no_dot)
qed

section \<open>Issued keys\<close>

lemma write_audit_event_success:
  assumes "pending s = []" "write_audit_event tid ev cid det s = (Inr (), s')"
  shows "\<exists>j. json_of (PDict det) = Some j
     \<and> committed s' = (working s)\<lparr>audit_log := audit_log (working s) @ [audit_row tid ev cid j s]\<rparr>"
proof -
  let ?s = "session_add (Ins_audit tid ev cid (PDict det)) (set_rls_context None True s)"
  have "pending ?s = [Ins_audit tid ev cid (PDict det)]" using assms(1) by simp
  from commit_single [OF this, of "Inr ()" s'] show ?thesis
    using assms(2) by (auto simp: write_audit_event_def Let_def audit_row_def split: option.splits if_splits)
qed

lemma flush_one:
  assumes "pending s = [x]" "flush s = (Inr (), s')"
  obtains s1 where "exec_stmt s x = Inr s1" "s' = s1\<lparr>pending := []\<rparr>"
  using assms by (auto simp: flush_def split: sum.splits)

lemma audited_result_success:
  "audited_result r x = (Inr y, s') \<Longrightarrow> r = (Inr (), s') \<and> y = x"
  by (auto simp: audited_result_def split: prod.splits sum.splits)

lemma create_api_key_success:
  assumes "pending s = []" "create_api_key K S a cid r1 r2 tid n s = (Inr resp, s')"
  obtains t k sec ls where "get_tenant_row tid s = Some t" "generate_api_key r1 r2 = (kr_api_key resp, ak_key_id k, sec)"
    "ak_hashed_secret k = hash_api_key_secret K sec (api_key_pepper S)" "ak_tenant_id k = t_id t" "ak_revoked_at k = None"
    "kr_key_id resp = ak_key_id k" "committed s' = (working s)\<lparr>api_keys := api_keys (working s) @ [k], audit_log := ls\<rparr>"
proof -
  obtain full i sec where g: "generate_api_key r1 r2 = (full, i, sec)" by (metis prod.exhaust)
  have "get_tenant_row tid s \<noteq> None"
    using assms(2) by (cases "get_tenant_row tid s") (simp_all add: create_api_key_def Let_def get_tenant_row_def)
  then obtain t where t: "get_tenant_row tid s = Some t" by auto
  define k where "k = \<lparr>ak_id = uuid4 s (drawn s), ak_tenant_id = t_id t, ak_key_id = i,
      ak_hashed_secret = hash_api_key_secret K sec (api_key_pepper S), ak_name = n,
      ak_scopes = [], ak_created_at = clock s, ak_revoked_at = None, ak_last_used_at = None\<rparr>"
  define s0 where "s0 = session_add (Ins_api_key k) ((set_rls_context None True s)\<lparr>drawn := drawn s + 1\<rparr>)"
  define det where "det = [(''admin_id'', PStr (uuid_str (ac_admin_id a))), (''key_id'', PStr i), (''name'', PStr n)]"
  define out where "out = \<lparr>kr_key_id = i, kr_name = n, kr_created_at = clock s, kr_revoked_at = None,
      kr_last_used_at = None, kr_api_key = full\<rparr>"
  have eq: "create_api_key K S a cid r1 r2 tid n s = (case flush s0 of (Inl e, s) \<Rightarrow> (Inl (Db e), s)
     | (Inr _, s) \<Rightarrow> audited_result (write_audit_event (Some (t_id t)) ''admin.api_key_issued'' cid det s) out)"
    using t by (simp add: create_api_key_def Let_def get_tenant_row_def g k_def s0_def det_def out_def
        split: prod.split sum.split)
  obtain r s1 where f: "flush s0 = (r, s1)" by fastforce
  have rs: "r = Inr ()" "audited_result (write_audit_event (Some (t_id t)) ''admin.api_key_issued'' cid det s1) out = (Inr resp, s')"
    using eq assms(2) f by (auto split: sum.splits)
  have "pending s0 = [Ins_api_key k]" using assms(1) by (simp add: s0_def)
  from flush_one [OF this] obtain s2 where s2: "exec_stmt s0 (Ins_api_key k) = Inr s2" "s1 = s2\<lparr>pending := []\<rparr>"
    using f rs(1) by metis
  have w: "working s1 = (working s)\<lparr>api_keys := api_keys (working s) @ [k]\<rparr>" "pending s1 = []"
    using s2 by (auto simp: s0_def split: if_splits)
  have "write_audit_event (Some (t_id t)) ''admin.api_key_issued'' cid det s1 = (Inr (), s')" "resp = out"
    using audited_result_success [OF rs(2)] by simp_all
  with write_audit_event_success [OF w(2)] have "\<exists>ls. committed s' = (working s)\<lparr>api_keys := api_keys (working s) @ [k], audit_log := ls\<rparr>"
    by (fastforce simp: w)
  then obtain ls where "committed s' = (working s)\<lparr>api_keys := api_keys (working s) @ [k], audit_log := ls\<rparr>" ..
  then show thesis using that [of t k sec ls] t g \<open>resp = out\<close> by (simp add: k_def out_def)
qed

text \<open>
  A key that was issued works, at once and only for its tenant: when the endpoint
  answers with a new key for an active tenant, a request that presents the returned key is
  authenticated as exactly that tenant, under the key id the answer named.
\<close>

theorem issued_key_authenticates:
  assumes "schema_ok d" "create_api_key K S a cid r1 r2 (t_id t) n (begin_session now rnd d) = (Inr resp, s')"
    and "t \<in> set (tenants d)" "t_is_active t"
  shows "\<exists>k s2. get_current_tenant K (api_key_pepper S) (Some (''Bearer '' @ kr_api_key resp)) cid2
      (begin_session now2 rnd2 (committed s')) = (Inr (tenant_context t k), s2) \<and> ak_key_id k = kr_key_id resp"
proof -
  let ?s = "begin_session now rnd d" and ?s2 = "begin_session now2 rnd2 (committed s')"
  have w: "working ?s = d" "pending ?s = []" by (simp_all add: begin_session_def)
  obtain t' k sec ls where k: "get_tenant_row (t_id t) ?s = Some t'"
    "generate_api_key r1 r2 = (kr_api_key resp, ak_key_id k, sec)"
    "ak_hashed_secret k = hash_api_key_secret K sec (api_key_pepper S)" "ak_tenant_id k = t_id t'" "ak_revoked_at k = None"
    "kr_key_id resp = ak_key_id k" "committed s' = d\<lparr>api_keys := api_keys d @ [k], audit_log := ls\<rparr>"
    using create_api_key_success [OF w(2) assms(2)] unfolding w(1) by metis
  have "t' = t"
    using k(1) find_in_set [of "\<lambda>r. t_id r = t_id t" "tenants d" t'] distinct_key_unique [of t_id "tenants d" t' t] assms(1,3)
    by (auto simp: get_tenant_row_def w schema_ok_def db_ok_def)
  have "evolves d (committed s')"
    using create_api_key_tracks [of d ?s] tracks_begin assms(2) by (metis snd_conv tracks_def)
  then have ok: "db_ok (working ?s2)" "working ?s2 = committed s'" "pending ?s2 = []"
    using evolves_schema assms(1) by (auto simp: begin_session_def schema_ok_def)
  note key = issued_key_strip [OF k(2)]
  have "auth_decision K (api_key_pepper S) (Some (''Bearer '' @ kr_api_key resp)) (committed s') = Inr (t, k)"
    using auth_decision_accepts_iff [of "committed s'" K "api_key_pepper S" _ t k] ok(1,2) bearer_token_Bearer [OF key(1)] key(2)
      k(3-7) assms(3,4) \<open>t' = t\<close> by (auto simp: hash_api_key_secret_def)
  then show ?thesis using get_current_tenant_eval [OF ok(3,1)] ok(2) k(6) by auto
qed

theorem issued_key_authenticates_witness:
  "\<exists>resp s' k s2. create_api_key demo_crypto demo_settings demo_admin None 5 6 1 ''laptop'' (begin_session 0 demo_ids demo_db) = (Inr resp, s')
     \<and> get_current_tenant demo_crypto ''p'' (Some (''Bearer '' @ kr_api_key resp)) None (begin_session 1 demo_ids (committed s'))
         = (Inr (tenant_context demo_row k), s2)"
proof -
  let ?r = "create_api_key demo_crypto demo_settings demo_admin None 5 6 1 ''laptop'' (begin_session 0 demo_ids demo_db)"
  have "case fst ?r of Inr _ \<Rightarrow> True | Inl _ \<Rightarrow> False" by code_simp
  then obtain resp s' where r: "?r = (Inr resp, s')" by (metis prod.collapse sum.case_eq_if sum.collapse(2))
  have h: "schema_ok demo_db" "demo_row \<in> set (tenants demo_db)" "t_is_active demo_row" "t_id demo_row = 1"
    "api_key_pepper demo_settings = ''p''" by code_simp+
  show ?thesis
    using issued_key_authenticates [OF h(1) r [folded h(4)] h(2,3), of None 1 demo_ids] r by (auto simp: h(5))
qed

section \<open>Login\<close>

text \<open>
  A successful login hands out a working token: it is given only to the admin with
  that email and a password the stored hash verifies, and with a JWT library that checks expiry and
  whose tokens contain no surrounding white space, the administration endpoints accept the token as
  that admin until it expires.
\<close>

theorem login_token_accepted:
  assumes "jwt_documented K" "\<forall>p s a. str_strip (jwt_encode K p s a) = jwt_encode K p s a" "schema_ok d"
    and "login K S now cid p (begin_session t1 rnd d) = (Inr tok, s')"
    and "now \<le> now2" "now2 < of_int \<lfloor>now + of_int (60 * jwt_expire_minutes S)\<rfloor>"
  shows "\<exists>a \<in> set (admin_users d). au_email a = lr_email p \<and> argon_verify K (au_hashed_password a) (lr_password p) = Verified
       \<and> fst (get_current_admin K (jwt_secret S) (jwt_algorithm S) now2 (Some (''Bearer '' @ access_token tok)) (begin_session t2 rnd2 d))
           = Inr \<lparr>ac_admin_id = au_id a, ac_email = au_email a, ac_is_superuser = au_is_superuser a\<rparr>"
proof -
  let ?as = "admin_users d"
  have d: "distinct (map au_email ?as)" "distinct (map au_id ?as)" using assms(3) by (simp_all add: schema_ok_def)
  have w: "working (begin_session t1 rnd d) = d" "working (begin_session t2 rnd2 d) = d" by (simp_all add: begin_session_def)
  obtain a where a: "List.find (\<lambda>x. au_email x = lr_email p) ?as = Some a" "argon_verify K (au_hashed_password a) (lr_password p) = Verified"
    "access_token tok = create_admin_jwt K now (uuid_str (au_id a)) (jwt_secret S) (jwt_algorithm S) (jwt_expire_minutes S)"
    using assms(4)
    by (auto simp: login_def Let_def w filter_distinct_key [OF d(1)] verify_password_def audit_and_raise_def
        split: option.splits sum.splits bool.splits argon_outcome.splits prod.splits)
  have m: "a \<in> set ?as" "au_email a = lr_email p" using find_in_set [OF a(1)] by auto
  have tok: "bearer_token (Some (''Bearer '' @ access_token tok)) = Some (access_token tok)"
    by (rule bearer_token_Bearer) (simp add: a(3) create_admin_jwt_def assms(2))
  obtain payload where pl: "decode_admin_jwt K now2 (access_token tok) (jwt_secret S) (jwt_algorithm S) = Some payload"
    "map_of payload ''sub'' = Some (JStr (uuid_str (au_id a)))"
    unfolding a(3) using admin_jwt_fresh [OF assms(1,5,6)] by blast
  have "List.find (\<lambda>r. au_id r = au_id a) ?as = Some a" using find_distinct [OF d(2)] m(1) by blast
  then show ?thesis
    using m a(2) tok pl by (intro bexI [of _ a]) (simp_all add: get_current_admin_def uuid_of_str_uuid_str Let_def get_admin_row_def w)
qed

definition admin_db :: db where
  "admin_db = demo_db\<lparr>admin_users := [\<lparr>au_id = 3, au_email = ''root@example.com'', au_hashed_password = ''pw'',
     au_is_superuser = True, au_created_at = 0\<rparr>]\<rparr>"

theorem login_token_accepted_witness:
  "\<exists>tok s'. login demo_crypto demo_settings 10 None \<lparr>lr_email = ''root@example.com'', lr_password = ''pw''\<rparr> (begin_session 0 demo_ids admin_db)
       = (Inr tok, s')
     \<and> fst (get_current_admin demo_crypto ''s'' ''HS256'' 20 (Some (''Bearer '' @ access_token tok)) (begin_session 1 demo_ids admin_db))
         = Inr \<lparr>ac_admin_id = 3, ac_email = ''root@example.com'', ac_is_superuser = True\<rparr>"
proof -
  have s: "jwt_secret demo_settings = ''s''" "jwt_algorithm demo_settings = ''HS256''" "jwt_expire_minutes demo_settings = 60"
    by (simp_all add: demo_settings_def default_settings_def)
  obtain tok s' where l: "login demo_crypto demo_settings 10 None \<lparr>lr_email = ''root@example.com'', lr_password = ''pw''\<rparr>
      (begin_session 0 demo_ids admin_db) = (Inr tok, s')"
    by (simp add: login_def Let_def begin_session_def admin_db_def verify_password_def demo_crypto_def)
  have ok: "schema_ok admin_db" by code_simp
  have strip: "\<forall>p s a. str_strip (jwt_encode demo_crypto p s a) = jwt_encode demo_crypto p s a"
    by (auto simp: demo_crypto_def demo_token_def is_space_def intro!: str_strip_id)
  have t: "(10::rat) \<le> 20" "(20::rat) < of_int \<lfloor>10 + of_int (60 * jwt_expire_minutes demo_settings)\<rfloor>" by (simp_all add: s)
  from login_token_accepted [OF demo_crypto_documented strip ok l t, of 1 demo_ids]
  show ?thesis using l by (auto simp: s admin_db_def)
qed

section \<open>Patching a tenant\<close>

lemma collect_None: "None \<in> set xs \<Longrightarrow> collect xs = None"
  by (induction xs rule: collect.induct) auto

lemma json_of_dict_None: "(k, v) \<in> set kvs \<Longrightarrow> json_of v = None \<Longrightarrow> json_of (PDict kvs) = None"
  by (auto intro!: collect_None simp: image_iff) (metis fst_conv option.map(1) snd_conv)

lemma budget_change_not_json:
  assumes "tu_monthly_budget_usd p = Given kx"
  shows "json_of (PDict (json_safe [(''admin_id'', PStr a), (''changes'', PDict (changes_of p))])) = None"
proof -
  obtain k x where kx: "kx = (k, x)" by fastforce
  have "(''monthly_budget_usd'', PDec k x) \<in> set (changes_of p)" using assms kx by (simp add: changes_of_def dump_field_def)
  then have "json_of (PDict (changes_of p)) = None" by (rule json_of_dict_None) simp
  then have "json_of (PDict [(''admin_id'', PStr a), (''changes'', PDict (changes_of p))]) = None"
    by (intro json_of_dict_None [of "''changes''"]) auto
  then show ?thesis by (simp add: json_safe_def)
qed

lemma unserialisable_audit_fails:
  assumes "json_of (PDict det) = None" "write_audit_event tid ev cid det s = (r, s')"
  shows "(\<exists>e. r = Inl e) \<and> committed s' = committed s"
proof -
  let ?s = "session_add (Ins_audit tid ev cid (PDict det)) (set_rls_context None True s)"
  have "\<exists>e. exec_stmts ?s (pending ?s) = Inl e"
    using assms(1) by (simp add: exec_stmts_append del: json_of.simps split: sum.split)
  then show ?thesis using assms(2) by (auto simp: write_audit_event_def commit_def flush_def rollback_def Let_def)
qed

text \<open>
  C40. The audit detail converts decimals only at its top level, where a PATCH's changes are
  not: whatever its other fields, a PATCH that sets \<open>monthly_budget_usd\<close> fails, and nothing of it is
  stored.
\<close>

theorem budget_patch_always_fails:
  assumes "tu_monthly_budget_usd p = Given kx" "update_tenant a cid tid p (begin_session now rnd d) = (r, s')"
  shows "(\<exists>f. r = Inl f) \<and> committed s' = d"
proof -
  let ?s = "begin_session now rnd d"
  have c: "committed ?s = d" by (simp add: begin_session_def)
  show ?thesis
  proof (cases "get_tenant_row tid ?s")
    case None
    then show ?thesis using assms(2) c by (auto simp: update_tenant_def Let_def get_tenant_row_def)
  next
    case (Some t)
    define s0 where "s0 = (if changes_of p = [] then set_rls_context None True ?s
       else session_add (Upd_tenant tid (apply_changes p t)) (set_rls_context None True ?s))"
    obtain q s1 where q: "write_audit_event (Some (t_id t)) ''admin.tenant_updated'' cid
        (json_safe [(''admin_id'', PStr (uuid_str (ac_admin_id a))), (''changes'', PDict (changes_of p))]) s0 = (q, s1)" by fastforce
    from unserialisable_audit_fails [OF budget_change_not_json [OF assms(1)] q]
    have "\<exists>e. q = Inl e" "committed s1 = d" by (auto simp: s0_def c)
    moreover have "(r, s') = audited_result (q, s1) (case apply_changes p t of Some t \<Rightarrow> t | None \<Rightarrow> t)"
      using assms(2) Some q by (simp add: update_tenant_def Let_def get_tenant_row_def s0_def)
    ultimately show ?thesis by (auto simp: audited_result_def)
  qed
qed

theorem budget_patch_always_fails_witness:
  "\<exists>f. fst (update_tenant demo_admin None 1
      \<lparr>tu_name = Unset, tu_monthly_budget_usd = Given (2, 50), tu_rate_limit_rpm = Given 120, tu_rate_limit_tpm = Unset,
       tu_max_concurrent_requests = Unset, tu_pii_redaction_enabled = Unset, tu_injection_detection_enabled = Unset,
       tu_injection_detection_threshold = Unset, tu_injection_detection_mode = Unset, tu_cache_enabled = Unset,
       tu_is_active = Unset\<rparr> (begin_session 0 demo_ids demo_db)) = Inl f"
proof -
  let ?p = "\<lparr>tu_name = Unset, tu_monthly_budget_usd = Given (2, 50), tu_rate_limit_rpm = Given 120, tu_rate_limit_tpm = Unset,
       tu_max_concurrent_requests = Unset, tu_pii_redaction_enabled = Unset, tu_injection_detection_enabled = Unset,
       tu_injection_detection_threshold = Unset, tu_injection_detection_mode = Unset, tu_cache_enabled = Unset,
       tu_is_active = Unset\<rparr>"
  have "tu_monthly_budget_usd ?p = Given (2, 50)" by simp
  from budget_patch_always_fails [OF this surjective_pairing] show ?thesis by blast
qed

lemma write_audit_event_with_pending:
  assumes "pending s = [x]" "write_audit_event tid ev cid det s = (Inr (), s')"
  shows "\<exists>s1 row. exec_stmt (session_add (Ins_audit tid ev cid (PDict det)) (set_rls_context None True s)) x = Inr s1
     \<and> committed s' = (working s1)\<lparr>audit_log := audit_log (working s1) @ [row]\<rparr> \<and> al_tenant_id row = tid \<and> al_event_type row = ev"
proof -
  let ?s = "session_add (Ins_audit tid ev cid (PDict det)) (set_rls_context None True s)"
  obtain s1 s2 where s1: "exec_stmt ?s x = Inr s1" "exec_stmt s1 (Ins_audit tid ev cid (PDict det)) = Inr s2" "committed s' = working s2"
    using assms(2) by (auto simp: write_audit_event_def Let_def commit_def flush_def assms(1) simp del: exec_stmt.simps split: sum.splits)
  have "\<exists>row. working s2 = (working s1)\<lparr>audit_log := audit_log (working s1) @ [row]\<rparr> \<and> al_tenant_id row = tid \<and> al_event_type row = ev"
    using s1(2) by (auto split: option.splits if_splits)
  then show ?thesis using s1 by auto
qed

lemma dump_field_Nil [simp]: "dump_field n py f = [] \<longleftrightarrow> f = Unset"
  by (simp add: dump_field_def split: field.split)

lemma no_changes: "changes_of p = [] \<Longrightarrow> apply_changes p t = Some t"
  by (simp add: changes_of_def apply_changes_def set_field_def)



end
