(* ===== verification/Admin_Routes.thy ===== *)
theory Admin_Routes
  imports Admin_Properties
begin

text \<open>
  The administration router: which dependencies and which query bounds stand before each endpoint of
  \<^verbatim>\<open>api/admin.py\<close>, with which status it answers and through which response model of \<^verbatim>\<open>schemas/admin.py\<close>.
  The framework resolves \<open>get_current_admin\<close> before it reports invalid parameters.
\<close>

section \<open>Response models\<close>

record TenantResponse =
  tr_id :: uuid
  tr_name :: string
  tr_monthly_budget_usd :: rat
  tr_rate_limit_rpm :: int
  tr_rate_limit_tpm :: int
  tr_max_concurrent_requests :: int
  tr_pii_redaction_enabled :: bool
  tr_injection_detection_enabled :: bool
  tr_injection_detection_threshold :: rat
  tr_injection_detection_mode :: string
  tr_cache_enabled :: bool
  tr_is_active :: bool
  tr_created_at :: datetime

definition tenant_response :: "Tenant \<Rightarrow> TenantResponse" where
  "tenant_response t =
     \<lparr>tr_id = t_id t, tr_name = t_name t, tr_monthly_budget_usd = t_monthly_budget_usd t,
      tr_rate_limit_rpm = t_rate_limit_rpm t, tr_rate_limit_tpm = t_rate_limit_tpm t,
      tr_max_concurrent_requests = t_max_concurrent_requests t, tr_pii_redaction_enabled = t_pii_redaction_enabled t,
      tr_injection_detection_enabled = t_injection_detection_enabled t,
      tr_injection_detection_threshold = t_injection_detection_threshold t,
      tr_injection_detection_mode = (case t_injection_detection_mode t of Block \<Rightarrow> ''block'' | Log \<Rightarrow> ''log''),
      tr_cache_enabled = t_cache_enabled t, tr_is_active = t_is_active t, tr_created_at = t_created_at t\<rparr>"

record AuditLogResponse =
  ar_id :: uuid
  ar_tenant_id :: "uuid option"
  ar_event_type :: string
  ar_correlation_id :: "string option"
  ar_detail :: json
  ar_created_at :: datetime

definition audit_log_response :: "AuditLog \<Rightarrow> AuditLogResponse" where
  "audit_log_response a = \<lparr>ar_id = al_id a, ar_tenant_id = al_tenant_id a, ar_event_type = al_event_type a,
     ar_correlation_id = al_correlation_id a, ar_detail = al_detail a, ar_created_at = al_created_at a\<rparr>"

record ApiKeyCreateRequest =
  kc_name :: string

section \<open>The router\<close>

datatype admin_call =
    Create_tenant_call TenantCreateRequest
  | List_tenants_call int int
  | Get_tenant_call uuid
  | Update_tenant_call uuid TenantUpdateRequest
  | Create_api_key_call uuid ApiKeyCreateRequest
  | List_api_keys_call uuid
  | Revoke_api_key_call uuid string
  | List_usage_records_call uuid int int
  | List_usage_rollups_call uuid string int
  | List_tenant_audit_log_call uuid "string option" int
  | List_audit_log_call "uuid option" "string option" int

datatype admin_request = Login_request AdminLoginRequest | Admin_request admin_call

datatype admin_reply =
    Token_reply TokenResponse
  | Tenant_reply TenantResponse
  | Tenants_reply "TenantResponse list"
  | Key_reply ApiKeyCreatedResponse
  | Keys_reply "ApiKeyResponse list"
  | Records_reply "UsageRecordResponse list"
  | Rollups_reply "UsageRollupResponse list"
  | Events_reply "AuditLogResponse list"
  | No_content
  | Validation_error

definition limit_ok :: "int \<Rightarrow> bool" where
  "limit_ok limit \<longleftrightarrow> 1 \<le> limit \<and> limit \<le> 200"

fun query_ok :: "admin_call \<Rightarrow> bool" where
  "query_ok (List_tenants_call limit offset) \<longleftrightarrow> limit_ok limit \<and> 0 \<le> offset"
| "query_ok (List_usage_records_call tid limit offset) \<longleftrightarrow> limit_ok limit \<and> 0 \<le> offset"
| "query_ok (List_usage_rollups_call tid period_type limit) \<longleftrightarrow> period_type \<in> {''hourly'', ''daily''} \<and> limit_ok limit"
| "query_ok (List_tenant_audit_log_call tid event_type limit) \<longleftrightarrow> limit_ok limit"
| "query_ok (List_audit_log_call tid event_type limit) \<longleftrightarrow> limit_ok limit"
| "query_ok _ \<longleftrightarrow> True"

text \<open>An endpoint's outcome with its status code, and its value in the response model.\<close>

definition replied :: "int \<Rightarrow> ('a \<Rightarrow> admin_reply) \<Rightarrow> (failure, 'a) result \<times> session \<Rightarrow> (failure, int \<times> admin_reply) result \<times> session" where
  "replied code f out = (case out of (Inl e, s) \<Rightarrow> (Inl e, s) | (Inr x, s) \<Rightarrow> (Inr (code, f x), s))"

definition listed :: "('a \<Rightarrow> admin_reply) \<Rightarrow> 'a \<times> session \<Rightarrow> (failure, int \<times> admin_reply) result \<times> session" where
  "listed f out = (case out of (x, s) \<Rightarrow> (Inr (200, f x), s))"

text \<open>What an endpoint draws from outside: the time for tokens and the numbers of a new key.\<close>

record draws =
  dr_now :: rat
  dr_key_id :: nat
  dr_secret :: nat

fun admin_handler ::
  "crypto \<Rightarrow> Settings \<Rightarrow> draws \<Rightarrow> string option \<Rightarrow> AdminContext \<Rightarrow> admin_call \<Rightarrow> session
     \<Rightarrow> (failure, int \<times> admin_reply) result \<times> session" where
  "admin_handler K S R cid admin (Create_tenant_call p) s = replied 201 (Tenant_reply \<circ> tenant_response) (create_tenant admin cid p s)"
| "admin_handler K S R cid admin (List_tenants_call limit offset) s =
     listed (Tenants_reply \<circ> map tenant_response) (list_tenants (nat limit) (nat offset) s)"
| "admin_handler K S R cid admin (Get_tenant_call tid) s = replied 200 (Tenant_reply \<circ> tenant_response) (get_tenant tid s)"
| "admin_handler K S R cid admin (Update_tenant_call tid p) s =
     replied 200 (Tenant_reply \<circ> tenant_response) (update_tenant admin cid tid p s)"
| "admin_handler K S R cid admin (Create_api_key_call tid p) s =
     replied 201 Key_reply (create_api_key K S admin cid (dr_key_id R) (dr_secret R) tid (kc_name p) s)"
| "admin_handler K S R cid admin (List_api_keys_call tid) s = listed Keys_reply (list_api_keys tid s)"
| "admin_handler K S R cid admin (Revoke_api_key_call tid key_id) s =
     replied 204 (\<lambda>_. No_content) (revoke_api_key admin cid tid key_id s)"
| "admin_handler K S R cid admin (List_usage_records_call tid limit offset) s =
     listed Records_reply (list_usage_records tid (nat limit) (nat offset) s)"
| "admin_handler K S R cid admin (List_usage_rollups_call tid period_type limit) s =
     listed Rollups_reply (list_usage_rollups tid period_type (nat limit) s)"
| "admin_handler K S R cid admin (List_tenant_audit_log_call tid event_type limit) s =
     listed (Events_reply \<circ> map audit_log_response) (list_tenant_audit_log tid event_type (nat limit) s)"
| "admin_handler K S R cid admin (List_audit_log_call tid event_type limit) s =
     listed (Events_reply \<circ> map audit_log_response) (list_audit_log tid event_type (nat limit) s)"

text \<open>Every route but the login depends on \<open>get_current_admin\<close>, on the session the endpoint then uses.\<close>

definition admin_endpoint ::
  "crypto \<Rightarrow> Settings \<Rightarrow> draws \<Rightarrow> string option \<Rightarrow> string option \<Rightarrow> admin_request \<Rightarrow> session
     \<Rightarrow> (failure, int \<times> admin_reply) result \<times> session" where
  "admin_endpoint K S R header cid req s =
     (case req of
        Login_request p \<Rightarrow> replied 200 Token_reply (login K S (dr_now R) cid p s)
      | Admin_request call \<Rightarrow>
          (case get_current_admin K (jwt_secret S) (jwt_algorithm S) (dr_now R) header s of
             (Inl f, s) \<Rightarrow> (Inl f, s)
           | (Inr admin, s) \<Rightarrow>
               if query_ok call then admin_handler K S R cid admin call s else (Inr (422, Validation_error), s)))"

section \<open>Who gets in\<close>

text \<open>The token decodes under the gateway's secret, and its subject is the id of an administrator.\<close>

definition valid_admin_token :: "crypto \<Rightarrow> Settings \<Rightarrow> rat \<Rightarrow> string option \<Rightarrow> db \<Rightarrow> bool" where
  "valid_admin_token K S now header d \<longleftrightarrow>
     (\<exists>token payload sub admin. bearer_token header = Some token
        \<and> decode_admin_jwt K now token (jwt_secret S) (jwt_algorithm S) = Some payload
        \<and> map_of payload ''sub'' = Some (JStr sub) \<and> uuid_of_str sub = Some (au_id admin) \<and> admin \<in> set (admin_users d))"

lemma get_current_admin_cases:
  assumes "get_current_admin K (jwt_secret S) (jwt_algorithm S) now header s = (r, s')"
  shows "committed s' = committed s \<and> working s' = working s \<and> pending s' = pending s
     \<and> (case r of Inr _ \<Rightarrow> valid_admin_token K S now header (working s)
        | Inl f \<Rightarrow> \<not> valid_admin_token K S now header (working s)
            \<and> (case f of Http e \<Rightarrow> status_code e = 401 | Db _ \<Rightarrow> False | Uncaught _ \<Rightarrow> True))"
  using assms
  by (auto simp: get_current_admin_def get_admin_row_def Let_def plain_error_def valid_admin_token_def find_None_iff find_Some_iff
      split: option.splits json.splits) (metis nth_mem)+

section \<open>What a request can change\<close>

fun writes :: "admin_call \<Rightarrow> bool" where
  "writes (Create_tenant_call p) = True"
| "writes (Update_tenant_call tid p) = True"
| "writes (Create_api_key_call tid p) = True"
| "writes (Revoke_api_key_call tid key_id) = True"
| "writes _ = False"

fun rows_of :: "admin_reply \<Rightarrow> nat" where
  "rows_of (Tenants_reply xs) = length xs"
| "rows_of (Records_reply xs) = length xs"
| "rows_of (Rollups_reply xs) = length xs"
| "rows_of (Events_reply xs) = length xs"
| "rows_of _ = 0"

lemma page_length: "length (page limit offset xs) \<le> limit"
  by (simp add: page_def)

lemma page_bound: "limit_ok limit \<Longrightarrow> length (page (nat limit) offset xs) \<le> 200"
  using page_length [of "nat limit" offset xs] by (auto simp: limit_ok_def)

lemma reads_pure:
  assumes "\<not> writes call" "admin_handler K S R cid admin call s = (r, s')"
  shows "committed s' = committed s"
  using assms
  by (cases call) (auto simp: listed_def replied_def list_tenants_def get_tenant_def list_api_keys_def list_usage_records_def
      list_usage_rollups_def list_tenant_audit_log_def list_audit_log_def Let_def split: option.splits)

lemma reads_bounded:
  assumes "query_ok call" "admin_handler K S R cid admin call s = (Inr (code, reply), s')"
  shows "rows_of reply \<le> 200"
  using assms
  by (cases call) (auto simp: page_bound listed_def replied_def list_tenants_def list_usage_records_def
      list_usage_rollups_def list_tenant_audit_log_def list_audit_log_def Let_def split: prod.splits sum.splits)

lemma write_audit_event_appends:
  assumes "pending s = []" "working s = committed s" "write_audit_event tid ev cid det s = (r, s')"
  shows "\<exists>events. committed s' = (committed s)\<lparr>audit_log := audit_log (committed s) @ events\<rparr> \<and> length events \<le> 1"
proof -
  define s1 where "s1 = session_add (Ins_audit tid ev cid (PDict det)) (set_rls_context None True s)"
  have s1: "pending s1 = [Ins_audit tid ev cid (PDict det)]" "working s1 = committed s" "committed s1 = committed s"
    using assms(1,2) by (simp_all add: s1_def)
  have "commit s1 = (r, s')" using assms(3) by (simp add: write_audit_event_def Let_def s1_def)
  note c = commit_single [OF s1(1) this]
  show ?thesis
  proof (cases r)
    case (Inl e)
    then show ?thesis using c s1(3) by (intro exI [of _ "[]"]) (simp add: rollback_def)
  next
    case (Inr u)
    then obtain s2 where s2: "exec_stmt s1 (Ins_audit tid ev cid (PDict det)) = Inr s2" "committed s' = working s2" using c by auto
    from s2(1) obtain row where "working s2 = (working s1)\<lparr>audit_log := audit_log (working s1) @ [row]\<rparr>"
      by (auto split: option.splits if_splits)
    then show ?thesis using s1(2) s2(2) by (intro exI [of _ "[row]"]) simp
  qed
qed

lemma login_changes:
  assumes "pending s = []" "working s = committed s" "login K S now cid p s = (r, s')"
  shows "\<exists>events. committed s' = (committed s)\<lparr>audit_log := audit_log (committed s) @ events\<rparr> \<and> length events \<le> 1"
proof -
  let ?s = "set_rls_context None True s"
  have "\<exists>events. committed s1 = (committed s)\<lparr>audit_log := audit_log (committed s) @ events\<rparr> \<and> length events \<le> 1"
    if "audit_and_raise None ev cid det err ?s = (q, s1)" for ev det err q s1
    using that write_audit_event_appends [of s None ev cid det] assms(1,2)
    by (auto simp: audit_and_raise_def split: prod.splits sum.splits)
  moreover have "\<exists>events. committed s = (committed s)\<lparr>audit_log := audit_log (committed s) @ events\<rparr> \<and> length events \<le> 1"
    by (intro exI [of _ "[]"]) simp
  ultimately show ?thesis
    using assms(3) by (auto simp: login_def Let_def split: sum.splits option.splits bool.splits)
qed

text \<open>
  C14. The administration router lets nobody in without an administrator's token. Without a token that
  decodes under the gateway's secret to the id of an existing administrator, every route but
  the login answers 401 (or a server error for a token whose subject is no string) and leaves the
  tables as they are, whatever else is wrong with the request; the login adds at most an audit row. Even for
  administrators only the four writing endpoints change anything, none of them with
  parameters out of bounds, and a paginated listing returns at most 200 rows.
\<close>

theorem admin_routes_guarded:
  assumes "pending s = []" "working s = committed s" "admin_endpoint K S R header cid req s = (r, s')"
  shows "case req of
      Login_request p \<Rightarrow>
        \<exists>events. committed s' = (committed s)\<lparr>audit_log := audit_log (committed s) @ events\<rparr> \<and> length events \<le> 1
    | Admin_request call \<Rightarrow>
        (\<not> valid_admin_token K S (dr_now R) header (committed s) \<longrightarrow>
           committed s' = committed s
           \<and> (\<exists>f. r = Inl f \<and> (case f of Http e \<Rightarrow> status_code e = 401 | Db _ \<Rightarrow> False | Uncaught _ \<Rightarrow> True)))
        \<and> (\<not> writes call \<or> \<not> query_ok call \<longrightarrow> committed s' = committed s)
        \<and> (\<forall>code reply. r = Inr (code, reply) \<longrightarrow> rows_of reply \<le> 200)"
proof (cases req)
  case (Login_request p)
  then show ?thesis
    using assms login_changes [OF assms(1,2)] by (auto simp: admin_endpoint_def replied_def split: prod.splits sum.splits)
next
  case (Admin_request call)
  obtain a s1 where a: "get_current_admin K (jwt_secret S) (jwt_algorithm S) (dr_now R) header s = (a, s1)" by fastforce
  note g = get_current_admin_cases [OF a]
  show ?thesis
  proof (cases a)
    case (Inl f)
    then show ?thesis using assms(2,3) g by (auto simp: Admin_request admin_endpoint_def a)
  next
    case (Inr admin)
    then have "(if query_ok call then admin_handler K S R cid admin call s1 else (Inr (422, Validation_error), s1)) = (r, s')"
      using assms(3) by (simp add: Admin_request admin_endpoint_def a)
    then show ?thesis
      using assms(2) g Inr reads_pure [of call K S R cid admin s1 r s'] reads_bounded [of call K S R cid admin s1 _ _ s']
      by (auto simp: Admin_request split: if_splits)
  qed
qed

theorem admin_routes_guarded_witness:
  "committed (snd (admin_endpoint demo_crypto demo_settings \<lparr>dr_now = 0, dr_key_id = 1, dr_secret = 2\<rparr> (Some ''Basic x'') None
     (Admin_request (Revoke_api_key_call 1 ''00ab'')) (begin_session 0 demo_ids demo_db))) = demo_db"
proof -
  let ?s = "begin_session 0 demo_ids demo_db"
  obtain r s' where run: "admin_endpoint demo_crypto demo_settings \<lparr>dr_now = 0, dr_key_id = 1, dr_secret = 2\<rparr> (Some ''Basic x'') None
     (Admin_request (Revoke_api_key_call 1 ''00ab'')) ?s = (r, s')" by fastforce
  have h: "pending ?s = []" "working ?s = committed ?s" "committed ?s = demo_db" by (simp_all add: begin_session_def)
  have "bearer_token (Some ''Basic x'') = None" by code_simp
  then have "\<not> valid_admin_token K S now (Some ''Basic x'') d" for K S now d by (simp add: valid_admin_token_def)
  then show ?thesis using admin_routes_guarded [OF h(1,2) run] h(3) run by simp
qed

end
