(* ===== verification/Seed.thy ===== *)
theory Seed
  imports Admin_Properties
begin

text \<open>
  \<^verbatim>\<open>scripts/seed.py\<close>: the bootstrap script, run with the credentials of the tables' owner. It creates one
  tenant with the column defaults, one API key for it and one admin, in one transaction. The theorem
  ties it to authentication and to the login endpoint.
\<close>

section \<open>The script\<close>

text \<open>A session of the owner's role, which row-level security does not bind.\<close>

definition owner_session :: "datetime \<Rightarrow> (nat \<Rightarrow> uuid) \<Rightarrow> db \<Rightarrow> session" where
  "owner_session now rnd d = (begin_session now rnd d)\<lparr>db_user := Owner\<rparr>"

text \<open>The result is the tenant and the full API key, which the script prints.\<close>

definition seed ::
  "crypto \<Rightarrow> Settings \<Rightarrow> nat \<Rightarrow> nat \<Rightarrow> string \<Rightarrow> string \<Rightarrow> string \<Rightarrow> session \<Rightarrow> (db_error, Tenant \<times> string) result \<times> session" where
  "seed K S r1 r2 name admin_email admin_password s =
     (let tenant = new_tenant (uuid4 s (drawn s)) (clock s) (tenant_create_defaults name);
          s = session_add (Ins_tenant tenant) (s\<lparr>drawn := drawn s + 1\<rparr>) in
      case flush s of
        (Inl e, s) \<Rightarrow> (Inl e, s)
      | (Inr _, s) \<Rightarrow>
          let (full_key, key_id, secret_part) = generate_api_key r1 r2;
              api_key = \<lparr>ak_id = uuid4 s (drawn s), ak_tenant_id = t_id tenant, ak_key_id = key_id,
                         ak_hashed_secret = hash_api_key_secret K secret_part (api_key_pepper S),
                         ak_name = ''seed-default-key'', ak_scopes = [], ak_created_at = clock s, ak_revoked_at = None,
                         ak_last_used_at = None\<rparr>;
              admin = \<lparr>au_id = uuid4 s (drawn s + 1), au_email = admin_email, au_hashed_password = hash_password K admin_password,
                       au_is_superuser = True, au_created_at = clock s\<rparr>;
              s = session_add (Ins_admin admin) (session_add (Ins_api_key api_key) (s\<lparr>drawn := drawn s + 2\<rparr>)) in
          (case commit s of (Inl e, s) \<Rightarrow> (Inl e, s) | (Inr _, s) \<Rightarrow> (Inr (tenant, full_key), s)))"

section \<open>All or nothing\<close>

lemma stored_default_tenant [simp]: "stored_tenant (new_tenant i now (tenant_create_defaults n)) = new_tenant i now (tenant_create_defaults n)"
proof -
  have "pg_numeric 2 100 = 100" by code_simp
  then show ?thesis by (simp add: stored_tenant_def new_tenant_def tenant_create_defaults_def)
qed

lemma commit_error_keeps: "commit s = (Inl e, s') \<Longrightarrow> committed s' = committed s"
  by (auto simp: commit_def flush_def rollback_def split: sum.splits prod.splits)

lemma seed_failure:
  assumes "seed K S r1 r2 n email pw (owner_session now rnd d) = (Inl e, s')"
  shows "committed s' = d"
  using assms
  by (auto simp: seed_def Let_def owner_session_def begin_session_def flush_def rollback_def session_add_def
      split: sum.splits prod.splits if_splits dest!: commit_error_keeps)

lemma seed_success:
  assumes "seed K S r1 r2 n email pw (owner_session now rnd d) = (Inr (t, key), s')" "schema_ok d"
  obtains k sec a where "t = new_tenant (rnd 0) now (tenant_create_defaults n)"
    "generate_api_key r1 r2 = (key, ak_key_id k, sec)" "ak_hashed_secret k = hash_api_key_secret K sec (api_key_pepper S)"
    "ak_tenant_id k = t_id t" "ak_revoked_at k = None" "au_email a = email" "au_hashed_password a = hash_password K pw"
    "committed s' = d\<lparr>tenants := tenants d @ [t], api_keys := api_keys d @ [k], admin_users := admin_users d @ [a]\<rparr>"
    "schema_ok (committed s')"
proof -
  let ?s0 = "owner_session now rnd d"
  obtain full i sec where g: "generate_api_key r1 r2 = (full, i, sec)" by (cases "generate_api_key r1 r2")
  define t0 where "t0 = new_tenant (rnd 0) now (tenant_create_defaults n)"
  define k where "k = \<lparr>ak_id = rnd 1, ak_tenant_id = t_id t0, ak_key_id = i,
                         ak_hashed_secret = hash_api_key_secret K sec (api_key_pepper S),
                         ak_name = ''seed-default-key'', ak_scopes = [], ak_created_at = now, ak_revoked_at = None,
                         ak_last_used_at = None\<rparr>"
  define a where "a = \<lparr>au_id = rnd 2, au_email = email, au_hashed_password = hash_password K pw,
                       au_is_superuser = True, au_created_at = now\<rparr>"
  define sa where "sa = session_add (Ins_tenant t0) (?s0\<lparr>drawn := 1\<rparr>)"
  have sa: "pending sa = [Ins_tenant t0]" "working sa = d" "uuid4 sa = rnd" "drawn sa = 1" "clock sa = now" "committed sa = d"
    by (simp_all add: sa_def owner_session_def begin_session_def)
  have sa_eq: "session_add (Ins_tenant t0) (?s0\<lparr>drawn := drawn ?s0 + 1\<rparr>) = sa"
    "new_tenant (uuid4 ?s0 (drawn ?s0)) (clock ?s0) (tenant_create_defaults n) = t0"
    by (simp_all add: sa_def t0_def owner_session_def begin_session_def)
  obtain s1 where s1: "exec_stmt sa (Ins_tenant t0) = Inr s1"
  proof (cases "exec_stmt sa (Ins_tenant t0)")
    case (Inl e)
    then show thesis using assms(1) unfolding seed_def Let_def sa_eq by (simp add: flush_def sa(1) del: exec_stmt.simps)
  qed blast
  define s2 where "s2 = session_add (Ins_admin a) (session_add (Ins_api_key k) (s1\<lparr>pending := [], drawn := 3\<rparr>))"
  have f1: "drawn s1 = 1" "uuid4 s1 = rnd" "clock s1 = now" "working s1 = d\<lparr>tenants := tenants d @ [t0]\<rparr>" "db_user s1 = Owner"
    using s1 sa by (auto simp: t0_def sa_def owner_session_def begin_session_def split: if_splits)
  have "seed K S r1 r2 n email pw ?s0 = (case commit s2 of (Inl e, s) \<Rightarrow> (Inl e, s) | (Inr _, s) \<Rightarrow> (Inr (t0, full), s))"
    unfolding seed_def Let_def sa_eq
    by (simp add: flush_def sa(1) s1 g s2_def k_def a_def f1 numeral_2_eq_2 numeral_3_eq_3 del: exec_stmt.simps)
  then have c: "commit s2 = (Inr (), s')" "t = t0" "key = full"
    using assms(1) by (auto split: prod.splits sum.splits)
  have p2: "pending s2 = [Ins_api_key k, Ins_admin a]" by (simp add: s2_def)
  obtain s3 s4 where s3: "exec_stmt s2 (Ins_api_key k) = Inr s3" and s4: "exec_stmt s3 (Ins_admin a) = Inr s4"
    and s': "committed s' = working s4"
    using c(1) by (auto simp: commit_def flush_def p2 simp del: exec_stmt.simps split: sum.splits prod.splits)
  have w: "working s2 = working s1" by (simp add: s2_def)
  have "schema_ok (working s1)" using issued_keeps_schema [OF _ _ s1] assms(2) sa(2) by simp
  then have "schema_ok (working s3)" using issued_keeps_schema [OF _ _ s3] w by simp
  then have "schema_ok (working s4)" using issued_keeps_schema [OF _ _ s4] by simp
  moreover have "working s4 = d\<lparr>tenants := tenants d @ [t0], api_keys := api_keys d @ [k], admin_users := admin_users d @ [a]\<rparr>"
    using s3 s4 by (auto simp: w f1 split: if_splits)
  ultimately show thesis
    using that [where k = k and a = a and sec = sec] g c(2,3) s' by (simp add: t0_def k_def a_def)
qed

section \<open>The bootstrap works\<close>

text \<open>
  C18. Bootstrapping is all or nothing, and works. If the script fails, for whatever reason, the
  database is as it was. If it succeeds on a well-formed database, the database stays well-formed,
  the printed API key authenticates as the new tenant, and the admin can log in with the given
  password; what is relied on of the password hasher is that it verifies its own hashes.
\<close>

theorem seed_provisions:
  assumes "schema_ok d" "argon_verify K (argon_hash K pw) pw = Verified"
    and "seed K S r1 r2 n email pw (owner_session now rnd d) = (r, s')"
  shows "case r of Inl e \<Rightarrow> committed s' = d
     | Inr (t, key) \<Rightarrow> schema_ok (committed s') \<and> t_name t = n
         \<and> (\<exists>k s2. get_current_tenant K (api_key_pepper S) (Some (''Bearer '' @ key)) cid (begin_session now2 rnd2 (committed s'))
                = (Inr (tenant_context t k), s2))
         \<and> (\<exists>tok s3. login K S now3 cid \<lparr>lr_email = email, lr_password = pw\<rparr> (begin_session now2 rnd2 (committed s'))
                = (Inr tok, s3))"
proof (cases r)
  case (Inl e)
  then show ?thesis using seed_failure assms(3) by simp
next
  case (Inr tk)
  obtain t key where r: "r = Inr (t, key)" using Inr by (cases tk) simp
  let ?s = "begin_session now2 rnd2 (committed s')"
  have w: "working ?s = committed s'" "pending ?s = []" by (simp_all add: begin_session_def)
  obtain k sec a where k: "t = new_tenant (rnd 0) now (tenant_create_defaults n)"
    "generate_api_key r1 r2 = (key, ak_key_id k, sec)" "ak_hashed_secret k = hash_api_key_secret K sec (api_key_pepper S)"
    "ak_tenant_id k = t_id t" "ak_revoked_at k = None" "au_email a = email" "au_hashed_password a = hash_password K pw"
    "committed s' = d\<lparr>tenants := tenants d @ [t], api_keys := api_keys d @ [k], admin_users := admin_users d @ [a]\<rparr>"
    "schema_ok (committed s')"
    using seed_success [OF assms(3) [unfolded r] assms(1)] by metis
  have t: "t_name t = n" "t_is_active t" by (simp_all add: k(1) new_tenant_def tenant_create_defaults_def)
  have ok: "db_ok (committed s')" "distinct (map au_email (admin_users (committed s')))" using k(9) by (simp_all add: schema_ok_def)
  note key = issued_key_strip [OF k(2)]
  have "auth_decision K (api_key_pepper S) (Some (''Bearer '' @ key)) (committed s') = Inr (t, k)"
    using auth_decision_accepts_iff [OF ok(1), of K "api_key_pepper S" _ t k] bearer_token_Bearer [OF key(1)] key(2) k(3-5,8) t(2)
    by (simp add: hash_api_key_secret_def)
  then have "get_current_tenant K (api_key_pepper S) (Some (''Bearer '' @ key)) cid ?s = (Inr (tenant_context t k), touched k ?s)"
    using get_current_tenant_eval [of ?s] w ok(1) by simp
  moreover have "List.find (\<lambda>x. au_email x = email) (admin_users (committed s')) = Some a"
    using find_distinct [OF ok(2)] k(6,8) by simp
  then have "\<exists>tok s3. login K S now3 cid \<lparr>lr_email = email, lr_password = pw\<rparr> ?s = (Inr tok, s3)"
    using assms(2) k(7) by (simp add: login_def Let_def w filter_distinct_key [OF ok(2)] verify_password_def hash_password_def)
  ultimately show ?thesis using r k(9) t(1) by auto
qed

theorem seed_provisions_witness:
  "\<exists>t key s'. seed demo_crypto demo_settings 5 6 ''acme'' ''root@example.com'' ''pw'' (owner_session 0 demo_ids empty_db) = (Inr (t, key), s')
     \<and> (\<exists>k s2. get_current_tenant demo_crypto ''p'' (Some (''Bearer '' @ key)) None (begin_session 1 demo_ids (committed s'))
            = (Inr (tenant_context t k), s2))"
proof -
  let ?r = "seed demo_crypto demo_settings 5 6 ''acme'' ''root@example.com'' ''pw'' (owner_session 0 demo_ids empty_db)"
  have "case fst ?r of Inr _ \<Rightarrow> True | Inl _ \<Rightarrow> False" by code_simp
  then obtain t key s' where r: "?r = (Inr (t, key), s')" by (metis prod.collapse sum.case_eq_if sum.collapse(2))
  have h: "schema_ok empty_db" "argon_verify demo_crypto (argon_hash demo_crypto ''pw'') ''pw'' = Verified"
    "api_key_pepper demo_settings = ''p''" by code_simp+
  show ?thesis using seed_provisions [OF h(1,2) r, of None 1 demo_ids] r by (auto simp: h(3))
qed

end
