(* ===== verification/Workers.thy ===== *)
theory Workers
  imports Ledger Redis_Api
begin

text \<open>
  \<^verbatim>\<open>workers/tasks.py\<close>: the periodic jobs. A rollup groups the usage records of a period by tenant and
  upserts one row per tenant; the budget scan compares each active tenant's spend of the month with
  its budget and writes an audit event the first time a threshold is crossed. Groups come in the
  order in which their tenants first appear. The rounding of a decimal quotient, first to the 28 digits
  of the decimal context and then to a double, is an argument (\<open>fl\<close>).
\<close>

section \<open>Dates\<close>

text \<open>Microseconds of UTC; \<open>civil\<close> gives year, month and day of a day number since the epoch.\<close>

definition USEC_PER_HOUR :: int where
  "USEC_PER_HOUR = 3600 * 1000000"

definition USEC_PER_DAY :: int where
  "USEC_PER_DAY = 24 * USEC_PER_HOUR"

definition civil :: "int \<Rightarrow> int \<times> int \<times> int" where
  "civil days =
     (let z = days + 719468;
          era = z div 146097;
          doe = z mod 146097;
          yoe = (doe - doe div 1460 + doe div 36524 - doe div 146096) div 365;
          doy = doe - (365 * yoe + yoe div 4 - yoe div 100);
          mp = (5 * doy + 2) div 153;
          day = doy - (153 * mp + 2) div 5 + 1;
          month = (if mp < 10 then mp + 3 else mp - 9)
      in (yoe + era * 400 + (if month \<le> 2 then 1 else 0), month, day))"

definition month_key :: "datetime \<Rightarrow> string" where
  "month_key now =
     (case civil (now div USEC_PER_DAY) of (y, m, _) \<Rightarrow>
        int_str y @ ''-'' @ (if m < 10 then ''0'' else []) @ int_str m)"

definition month_start :: "datetime \<Rightarrow> datetime" where
  "month_start now =
     (case civil (now div USEC_PER_DAY) of (_, _, day) \<Rightarrow> (now div USEC_PER_DAY - (day - 1)) * USEC_PER_DAY)"

section \<open>Rollups\<close>

definition in_period :: "datetime \<Rightarrow> datetime \<Rightarrow> UsageRecord \<Rightarrow> bool" where
  "in_period a b r \<longleftrightarrow> a \<le> ur_created_at r \<and> ur_created_at r < b"

text \<open>One group of the aggregate query as a rollup row.\<close>

definition rollup_row :: "uuid \<Rightarrow> datetime \<Rightarrow> string \<Rightarrow> datetime \<Rightarrow> uuid \<Rightarrow> UsageRecord list \<Rightarrow> UsageRollup" where
  "rollup_row i now period_type period_start t rs =
     \<lparr>ro_id = i, ro_tenant_id = t, ro_period_type = period_type, ro_period_start = period_start,
      ro_request_count = int (length rs), ro_cache_hit_count = (\<Sum>r\<leftarrow>rs. if ur_cache_hit r then 1 else 0),
      ro_prompt_tokens = (\<Sum>r\<leftarrow>rs. ur_prompt_tokens r), ro_completion_tokens = (\<Sum>r\<leftarrow>rs. ur_completion_tokens r),
      ro_total_tokens = (\<Sum>r\<leftarrow>rs. ur_total_tokens r), ro_cost_usd = (\<Sum>r\<leftarrow>rs. ur_cost_usd r), ro_created_at = now\<rparr>"

definition rollup_key :: "UsageRollup \<Rightarrow> uuid \<times> string \<times> datetime" where
  "rollup_key r = (ro_tenant_id r, ro_period_type r, ro_period_start r)"

definition rollup_ok :: "UsageRollup \<Rightarrow> bool" where
  "rollup_ok r \<longleftrightarrow> int4 (ro_request_count r) \<and> int4 (ro_cache_hit_count r) \<and> int4 (ro_prompt_tokens r)
     \<and> int4 (ro_completion_tokens r) \<and> int4 (ro_total_tokens r) \<and> numeric_fits 12 6 (ro_cost_usd r)"

text \<open>\<open>ON CONFLICT (tenant_id, period_type, period_start) DO UPDATE\<close>: the six figures are overwritten.\<close>

definition overwrite :: "UsageRollup \<Rightarrow> UsageRollup \<Rightarrow> UsageRollup" where
  "overwrite row r = r\<lparr>ro_request_count := ro_request_count row, ro_cache_hit_count := ro_cache_hit_count row,
     ro_prompt_tokens := ro_prompt_tokens row, ro_completion_tokens := ro_completion_tokens row,
     ro_total_tokens := ro_total_tokens row, ro_cost_usd := ro_cost_usd row\<rparr>"

definition put_rollup :: "UsageRollup \<Rightarrow> UsageRollup list \<Rightarrow> UsageRollup list" where
  "put_rollup row rs =
     (if list_ex (\<lambda>r. rollup_key r = rollup_key row) rs
      then map (\<lambda>r. if rollup_key r = rollup_key row then overwrite row r else r) rs
      else rs @ [row])"

definition upsert_rollup :: "UsageRollup \<Rightarrow> session \<Rightarrow> (db_error, session) result" where
  "upsert_rollup row s =
     (if \<not> rollup_ok row then Inl DataError
      else if ro_period_type row \<notin> {''hourly'', ''daily''} then Inl IntegrityError
      else if \<not> visible s (Some (ro_tenant_id row)) then Inl RowSecurityViolation
      else if \<not> tenant_exists (working s) (ro_tenant_id row) then Inl IntegrityError
      else let row = row\<lparr>ro_cost_usd := pg_numeric 6 (ro_cost_usd row)\<rparr>
           in Inr (s\<lparr>working := (working s)\<lparr>usage_rollups := put_rollup row (usage_rollups (working s))\<rparr>\<rparr>))"

fun upsert_groups :: "string \<Rightarrow> datetime \<Rightarrow> (uuid \<times> UsageRecord list) list \<Rightarrow> session \<Rightarrow> (db_error, session) result" where
  "upsert_groups period_type period_start [] s = Inr s"
| "upsert_groups period_type period_start ((t, rs) # groups) s =
     (case upsert_rollup (rollup_row (uuid4 s (drawn s)) (clock s) period_type period_start t rs) (s\<lparr>drawn := drawn s + 1\<rparr>) of
        Inl e \<Rightarrow> Inl e
      | Inr s \<Rightarrow> upsert_groups period_type period_start groups s)"

definition usage_groups :: "datetime \<Rightarrow> datetime \<Rightarrow> UsageRecord list \<Rightarrow> (uuid \<times> UsageRecord list) list" where
  "usage_groups a b rs =
     (let sel = filter (in_period a b) rs
      in map (\<lambda>t. (t, filter (\<lambda>r. ur_tenant_id r = t) sel)) (remdups (map ur_tenant_id sel)))"

text \<open>A failing statement leaves the \<open>async with\<close> block, which closes the session.\<close>

definition rollup_period ::
  "string \<Rightarrow> datetime \<Rightarrow> datetime \<Rightarrow> session \<Rightarrow> (db_error, nat) result \<times> session" where
  "rollup_period period_type period_start period_end s =
     (let s = set_rls_context None True s;
          groups = usage_groups period_start period_end (select_usage_records (\<lambda>_. True) s) in
      case upsert_groups period_type period_start groups s of
        Inl e \<Rightarrow> (Inl e, rollback s)
      | Inr s \<Rightarrow>
          (case commit s of (Inl e, s) \<Rightarrow> (Inl e, s) | (Inr _, s) \<Rightarrow> (Inr (length groups), s)))"

text \<open>The hour, and the day, that closed last before the clock's.\<close>

definition hourly_period_start :: "datetime \<Rightarrow> datetime" where
  "hourly_period_start now = (now - USEC_PER_HOUR) div USEC_PER_HOUR * USEC_PER_HOUR"

definition daily_period_start :: "datetime \<Rightarrow> datetime" where
  "daily_period_start now = (now - USEC_PER_DAY) div USEC_PER_DAY * USEC_PER_DAY"

definition hourly_usage_rollup :: "session \<Rightarrow> (db_error, nat) result \<times> session" where
  "hourly_usage_rollup s =
     (let period_start = hourly_period_start (clock s)
      in rollup_period ''hourly'' period_start (period_start + USEC_PER_HOUR) s)"

definition daily_usage_rollup :: "session \<Rightarrow> (db_error, nat) result \<times> session" where
  "daily_usage_rollup s =
     (let period_start = daily_period_start (clock s)
      in rollup_period ''daily'' period_start (period_start + USEC_PER_DAY) s)"

section \<open>Budget alerts\<close>

definition BUDGET_ALERT_MARKER_TTL_SECONDS :: int where
  "BUDGET_ALERT_MARKER_TTL_SECONDS = 40 * 24 * 3600"

text \<open>A threshold with the text that \<open>str\<close> gives it.\<close>

definition BUDGET_ALERT_THRESHOLDS :: "(rat \<Rightarrow> rat) \<Rightarrow> (string \<times> rat) list" where
  "BUDGET_ALERT_THRESHOLDS fl = [(''0.8'', fl (4 / 5)), (''1.0'', fl 1)]"

definition marker_key :: "uuid \<Rightarrow> string \<Rightarrow> string \<Rightarrow> string" where
  "marker_key tid month threshold = ''budget_alert:'' @ uuid_str tid @ '':'' @ month @ '':'' @ threshold"

definition spend_of :: "uuid \<Rightarrow> datetime \<Rightarrow> session \<Rightarrow> rat" where
  "spend_of tid since s =
     (\<Sum>r\<leftarrow>select_usage_records (\<lambda>r. ur_tenant_id r = tid \<and> since \<le> ur_created_at r) s. ur_cost_usd r)"

fun alert_thresholds ::
  "'s redis_api \<Rightarrow> string \<Rightarrow> Tenant \<Rightarrow> rat \<Rightarrow> rat \<Rightarrow> (string \<times> rat) list \<Rightarrow> 's \<Rightarrow> session
     \<Rightarrow> (db_error, unit) result \<times> 's \<times> session" where
  "alert_thresholds R month tenant spend ratio [] r s = (Inr (), r, s)"
| "alert_thresholds R month tenant spend ratio ((name, threshold) # ths) r s =
     (if ratio < threshold then alert_thresholds R month tenant spend ratio ths r s
      else case rd_set_nx_ex R (marker_key (t_id tenant) month name) (Num 1) BUDGET_ALERT_MARKER_TTL_SECONDS r of
        (False, r) \<Rightarrow> alert_thresholds R month tenant spend ratio ths r s
      | (True, r) \<Rightarrow>
          (case write_audit_event (Some (t_id tenant)) ''budget.threshold_reached'' None
                  [(''threshold'', PFloat threshold), (''spend_usd'', PStr (decimal_str 6 spend)),
                   (''budget_usd'', PStr (decimal_str 2 (t_monthly_budget_usd tenant)))] s of
             (Inl e, s) \<Rightarrow> (Inl e, r, s)
           | (Inr _, s) \<Rightarrow> alert_thresholds R month tenant spend ratio ths r s))"

fun scan_tenants ::
  "'s redis_api \<Rightarrow> (rat \<Rightarrow> rat) \<Rightarrow> string \<Rightarrow> datetime \<Rightarrow> Tenant list \<Rightarrow> 's \<Rightarrow> session \<Rightarrow> (db_error, unit) result \<times> 's \<times> session" where
  "scan_tenants R fl month since [] r s = (Inr (), r, s)"
| "scan_tenants R fl month since (tenant # ts) r s =
     (if t_monthly_budget_usd tenant \<le> 0 then scan_tenants R fl month since ts r s
      else
        let spend = spend_of (t_id tenant) since s in
        (case alert_thresholds R month tenant spend (fl (spend / t_monthly_budget_usd tenant)) (BUDGET_ALERT_THRESHOLDS fl) r s of
           (Inl e, r, s) \<Rightarrow> (Inl e, r, s)
         | (Inr _, r, s) \<Rightarrow> scan_tenants R fl month since ts r s))"

definition budget_threshold_scan ::
  "'s redis_api \<Rightarrow> (rat \<Rightarrow> rat) \<Rightarrow> 's \<Rightarrow> session \<Rightarrow> (db_error, unit) result \<times> 's \<times> session" where
  "budget_threshold_scan R fl r s =
     (let s = set_rls_context None True s
      in scan_tenants R fl (month_key (clock s)) (month_start (clock s)) (filter t_is_active (tenants (working s))) r s)"

section \<open>The schedule\<close>

text \<open>\<^verbatim>\<open>workers/settings.py\<close>: the jobs that start in a minute, counted from the epoch.\<close>

datatype job = Hourly_usage_rollup | Daily_usage_rollup | Budget_threshold_scan

definition USEC_PER_MINUTE :: int where
  "USEC_PER_MINUTE = 60 * 1000000"

definition cron_jobs :: "int \<Rightarrow> job list" where
  "cron_jobs m =
     (let minute = m mod 60; hour = m div 60 mod 24 in
      (if minute = 5 then [Hourly_usage_rollup] else []) @
      (if hour = 0 \<and> minute = 10 then [Daily_usage_rollup] else []) @
      (if minute \<in> {0, 15, 30, 45} then [Budget_threshold_scan] else []))"

end
