(* ===== verification/Worker_Properties.thy ===== *)
theory Worker_Properties
  imports Workers Auth
begin

text \<open>
  What the jobs guarantee: a rollup has, for every tenant, exactly the sums over the usage records
  of the period, and running it again changes nothing; and how the budget scan behaves.
\<close>

section \<open>Upserts\<close>

definition figures :: "UsageRollup \<Rightarrow> int \<times> int \<times> int \<times> int \<times> int \<times> rat" where
  "figures r = (ro_request_count r, ro_cache_hit_count r, ro_prompt_tokens r, ro_completion_tokens r, ro_total_tokens r, ro_cost_usd r)"

definition figures_at :: "uuid \<times> string \<times> datetime \<Rightarrow> UsageRollup list \<Rightarrow> (int \<times> int \<times> int \<times> int \<times> int \<times> rat) list" where
  "figures_at k rs = map figures (filter (\<lambda>r. rollup_key r = k) rs)"

lemma overwrite_simps [simp]: "rollup_key (overwrite row r) = rollup_key r" "figures (overwrite row r) = figures row"
  by (simp_all add: overwrite_def rollup_key_def figures_def)

lemma put_rollup_keys:
  "map rollup_key (put_rollup row rs) =
     (if rollup_key row \<in> set (map rollup_key rs) then map rollup_key rs else map rollup_key rs @ [rollup_key row])"
proof -
  have "list_ex (\<lambda>r. rollup_key r = rollup_key row) rs \<longleftrightarrow> rollup_key row \<in> set (map rollup_key rs)"
    by (auto simp: list_ex_iff image_iff) metis
  then show ?thesis by (simp add: put_rollup_def comp_def if_distrib cong: if_cong)
qed

lemma put_rollup_distinct: "distinct (map rollup_key rs) \<Longrightarrow> distinct (map rollup_key (put_rollup row rs))"
  unfolding put_rollup_keys by auto

lemma figures_at_overwritten:
  "distinct (map rollup_key rs) \<Longrightarrow> rollup_key row \<in> set (map rollup_key rs) \<Longrightarrow>
   figures_at (rollup_key row) (map (\<lambda>r. if rollup_key r = rollup_key row then overwrite row r else r) rs) = [figures row]"
proof (induction rs)
  case (Cons r rs)
  have "filter (\<lambda>r. rollup_key r = rollup_key row) (map (\<lambda>r. if rollup_key r = rollup_key row then overwrite row r else r) rs) = []"
    if "rollup_key r = rollup_key row"
    using that Cons.prems(1) by (auto simp: filter_empty_conv image_iff)
  with Cons show ?case by (auto simp: figures_at_def)
qed simp

lemma figures_at_other:
  "k \<noteq> rollup_key row \<Longrightarrow> figures_at k (put_rollup row rs) = figures_at k rs"
proof -
  assume k: "k \<noteq> rollup_key row"
  have "filter (\<lambda>r. rollup_key r = k) (map (\<lambda>r. if rollup_key r = rollup_key row then overwrite row r else r) rs)
      = filter (\<lambda>r. rollup_key r = k) rs"
    using k by (induction rs) auto
  then show ?thesis using k by (auto simp: figures_at_def put_rollup_def)
qed

lemma figures_at_put:
  assumes "distinct (map rollup_key rs)"
  shows "figures_at k (put_rollup row rs) = (if k = rollup_key row then [figures row] else figures_at k rs)"
proof (cases "k = rollup_key row")
  case True
  show ?thesis
  proof (cases "rollup_key row \<in> set (map rollup_key rs)")
    case in_rs: True
    then have "list_ex (\<lambda>r. rollup_key r = rollup_key row) rs" by (auto simp: list_ex_iff)
    then show ?thesis using figures_at_overwritten [OF assms in_rs] True by (simp add: put_rollup_def)
  next
    case False
    then have "\<not> list_ex (\<lambda>r. rollup_key r = rollup_key row) rs" "filter (\<lambda>r. rollup_key r = rollup_key row) rs = []"
      by (auto simp: list_ex_iff filter_empty_conv image_iff)
    then show ?thesis using True by (simp add: put_rollup_def figures_at_def)
  qed
qed (simp add: figures_at_other)

section \<open>A rollup is exact and repeatable\<close>

definition group_figures :: "UsageRecord list \<Rightarrow> int \<times> int \<times> int \<times> int \<times> int \<times> rat" where
  "group_figures rs = (int (length rs), (\<Sum>r\<leftarrow>rs. if ur_cache_hit r then 1 else 0), (\<Sum>r\<leftarrow>rs. ur_prompt_tokens r),
     (\<Sum>r\<leftarrow>rs. ur_completion_tokens r), (\<Sum>r\<leftarrow>rs. ur_total_tokens r), pg_numeric 6 (\<Sum>r\<leftarrow>rs. ur_cost_usd r))"

lemma upsert_rollup_out:
  "upsert_rollup row s = Inr s' \<Longrightarrow> s' = s\<lparr>working := (working s)\<lparr>usage_rollups :=
      put_rollup (row\<lparr>ro_cost_usd := pg_numeric 6 (ro_cost_usd row)\<rparr>) (usage_rollups (working s))\<rparr>\<rparr>"
  by (auto simp: upsert_rollup_def Let_def split: if_splits)

lemma upsert_groups_out:
  assumes "upsert_groups pt st groups s = Inr s'" "distinct (map fst groups)" "distinct (map rollup_key (usage_rollups (working s)))"
  shows "pending s' = pending s \<and> committed s' = committed s
     \<and> (\<exists>rs. working s' = (working s)\<lparr>usage_rollups := rs\<rparr> \<and> distinct (map rollup_key rs)
        \<and> (\<forall>k. figures_at k rs = (case k of (t, p, b) \<Rightarrow>
             if p = pt \<and> b = st \<and> t \<in> fst ` set groups then [group_figures (the (map_of groups t))]
             else figures_at k (usage_rollups (working s)))))"
  using assms
proof (induction pt st groups s rule: upsert_groups.induct)
  case (1 pt st s)
  then show ?case by (auto intro: exI [of _ "usage_rollups (working s)"])
next
  case (2 pt st t rs groups s)
  define row where "row = rollup_row (uuid4 s (drawn s)) (clock s) pt st t rs"
  define row' where "row' = row\<lparr>ro_cost_usd := pg_numeric 6 (ro_cost_usd row)\<rparr>"
  obtain s1 where s1: "upsert_rollup row (s\<lparr>drawn := drawn s + 1\<rparr>) = Inr s1" "upsert_groups pt st groups s1 = Inr s'"
    using "2.prems"(1) by (auto simp: row_def split: sum.splits)
  have e: "s1 = s\<lparr>drawn := drawn s + 1, working := (working s)\<lparr>usage_rollups := put_rollup row' (usage_rollups (working s))\<rparr>\<rparr>"
    using upsert_rollup_out [OF s1(1)] by (simp add: row'_def)
  have k: "rollup_key row' = (t, pt, st)" "figures row' = group_figures rs"
    by (simp_all add: row'_def row_def rollup_row_def rollup_key_def figures_def group_figures_def)
  have dd: "distinct (map rollup_key (usage_rollups (working s1)))" using put_rollup_distinct "2.prems"(3) by (simp add: e)
  have ih: "pending s' = pending s1 \<and> committed s' = committed s1
     \<and> (\<exists>rs. working s' = (working s1)\<lparr>usage_rollups := rs\<rparr> \<and> distinct (map rollup_key rs)
        \<and> (\<forall>k. figures_at k rs = (case k of (t, p, b) \<Rightarrow>
             if p = pt \<and> b = st \<and> t \<in> fst ` set groups then [group_figures (the (map_of groups t))]
             else figures_at k (usage_rollups (working s1)))))"
    by (rule "2.IH" [OF s1(1) [unfolded row_def] s1(2) _ dd]) (use "2.prems"(2) in simp)
  have t: "t \<notin> fst ` set groups" using "2.prems"(2) by simp
  obtain rs' where rs': "working s' = (working s1)\<lparr>usage_rollups := rs'\<rparr>" "distinct (map rollup_key rs')"
    "\<And>k. figures_at k rs' = (case k of (t, p, b) \<Rightarrow>
             if p = pt \<and> b = st \<and> t \<in> fst ` set groups then [group_figures (the (map_of groups t))]
             else figures_at k (usage_rollups (working s1)))"
    using ih by blast
  have "figures_at k rs' = (case k of (t', p, b) \<Rightarrow>
             if p = pt \<and> b = st \<and> t' \<in> fst ` set ((t, rs) # groups) then [group_figures (the (map_of ((t, rs) # groups) t'))]
             else figures_at k (usage_rollups (working s)))" for k
    using rs'(3) [of k] t figures_at_put [OF "2.prems"(3), of k row'] by (cases k) (auto simp: e k)
  then show ?case using ih rs'(1,2) by (intro conjI exI [of _ rs']) (simp_all add: e)
qed

lemma usage_groups_keys: "map fst (usage_groups a b rs) = remdups (map ur_tenant_id (filter (in_period a b) rs))"
  by (simp add: usage_groups_def Let_def comp_def)

definition period_records :: "uuid \<Rightarrow> datetime \<Rightarrow> datetime \<Rightarrow> UsageRecord list \<Rightarrow> UsageRecord list" where
  "period_records t a b rs = filter (\<lambda>r. ur_tenant_id r = t) (filter (in_period a b) rs)"

lemma usage_groups_tenant: "t \<in> fst ` set (usage_groups a b rs) \<longleftrightarrow> period_records t a b rs \<noteq> []"
proof -
  have "fst ` set (usage_groups a b rs) = set (map fst (usage_groups a b rs))" by simp
  then show ?thesis unfolding usage_groups_keys by (auto simp: period_records_def filter_empty_conv)
qed

lemma usage_groups_group: "(t, g) \<in> set (usage_groups a b rs) \<Longrightarrow> g = period_records t a b rs"
  by (auto simp: usage_groups_def Let_def period_records_def)

lemma usage_groups_members:
  "set (usage_groups a b rs) = {(t, g). g = period_records t a b rs \<and> g \<noteq> []}"
  by (auto simp: usage_groups_def Let_def period_records_def filter_empty_conv image_iff)

lemma usage_groups_map_of:
  "period_records t a b rs \<noteq> [] \<Longrightarrow> the (map_of (usage_groups a b rs) t) = period_records t a b rs"
proof -
  assume "period_records t a b rs \<noteq> []"
  then obtain g where "(t, g) \<in> set (usage_groups a b rs)" unfolding usage_groups_tenant [symmetric] by force
  moreover have "distinct (map fst (usage_groups a b rs))" unfolding usage_groups_keys by simp
  ultimately show ?thesis using usage_groups_group by (metis map_of_is_SomeI option.sel)
qed

lemma bypass_sees_records: "select_usage_records (\<lambda>_. True) (set_rls_context None True s) = usage_records (working s)"
  by (simp add: select_usage_records_def)

text \<open>The figures a rollup of the period leaves for a key: new ones for every tenant with a record in it.\<close>

definition rolled_up ::
  "string \<Rightarrow> datetime \<Rightarrow> datetime \<Rightarrow> db \<Rightarrow> uuid \<times> string \<times> datetime \<Rightarrow> (int \<times> int \<times> int \<times> int \<times> int \<times> rat) list" where
  "rolled_up pt a b d k = (case k of (t, p, st) \<Rightarrow>
     if p = pt \<and> st = a \<and> period_records t a b (usage_records d) \<noteq> []
     then [group_figures (period_records t a b (usage_records d))] else figures_at k (usage_rollups d))"

lemma rollup_period_success:
  assumes "rollup_period pt a b s = (Inr n, s')" "pending s = []" "distinct (map rollup_key (usage_rollups (working s)))"
  shows "n = length (usage_groups a b (usage_records (working s))) \<and> pending s' = [] \<and> working s' = committed s'
     \<and> (\<exists>rs. committed s' = (working s)\<lparr>usage_rollups := rs\<rparr> \<and> distinct (map rollup_key rs)
          \<and> (\<forall>k. figures_at k rs = rolled_up pt a b (working s) k))"
proof -
  let ?g = "usage_groups a b (usage_records (working s))" and ?c = "set_rls_context None True s"
  obtain s1 where u: "upsert_groups pt a ?g ?c = Inr s1"
    using assms(1) by (auto simp: rollup_period_def Let_def bypass_sees_records split: sum.splits)
  have d: "distinct (map fst ?g)" unfolding usage_groups_keys by simp
  from upsert_groups_out [OF u d] assms(2,3) obtain rs where rs: "pending s1 = []"
    "working s1 = (working s)\<lparr>usage_rollups := rs\<rparr>" "distinct (map rollup_key rs)"
    "\<And>k. figures_at k rs = (case k of (t, p, st) \<Rightarrow>
       if p = pt \<and> st = a \<and> t \<in> fst ` set ?g then [group_figures (the (map_of ?g t))] else figures_at k (usage_rollups (working s)))"
    by auto
  have c: "commit s1 = (Inr (), s1\<lparr>committed := working s1, guc_tenant := [], guc_bypass := []\<rparr>)"
    using rs(1) by (simp add: commit_def flush_def)
  have "n = length ?g" "s' = s1\<lparr>committed := working s1, guc_tenant := [], guc_bypass := []\<rparr>"
    using assms(1) by (simp_all add: rollup_period_def Let_def bypass_sees_records u c)
  moreover have "figures_at k rs = rolled_up pt a b (working s) k" for k
    unfolding rs(4) rolled_up_def usage_groups_tenant by (auto simp: usage_groups_map_of split: prod.split)
  ultimately show ?thesis using rs(1-3) by auto
qed

definition group_fits :: "UsageRecord list \<Rightarrow> bool" where
  "group_fits rs = rollup_ok (rollup_row 0 0 [] 0 0 rs)"

lemma rollup_ok_group: "rollup_ok (rollup_row i now pt st t rs) = group_fits rs"
  by (simp add: group_fits_def rollup_ok_def rollup_row_def)

lemma upsert_groups_succeeds_iff:
  assumes "pt \<in> {''hourly'', ''daily''}" "guc_bypass s = ''on''" "\<forall>t \<in> fst ` set groups. tenant_exists (working s) t"
  shows "(\<exists>s'. upsert_groups pt st groups s = Inr s') \<longleftrightarrow> (\<forall>g \<in> snd ` set groups. group_fits g)"
  using assms
proof (induction pt st groups s rule: upsert_groups.induct)
  case (2 pt st t rs groups s)
  define row where "row = rollup_row (uuid4 s (drawn s)) (clock s) pt st t rs"
  have v: "visible (s\<lparr>drawn := drawn s + 1\<rparr>) x" for x using "2.prems"(2) by (simp add: visible_def)
  have row: "ro_tenant_id row = t" "ro_period_type row = pt" "rollup_ok row = group_fits rs"
    by (simp_all add: row_def rollup_ok_group) (simp_all add: rollup_row_def)
  show ?case
  proof (cases "group_fits rs")
    case True
    define s1 where "s1 = s\<lparr>drawn := drawn s + 1, working := (working s)\<lparr>usage_rollups :=
      put_rollup (row\<lparr>ro_cost_usd := pg_numeric 6 (ro_cost_usd row)\<rparr>) (usage_rollups (working s))\<rparr>\<rparr>"
    have u: "upsert_rollup row (s\<lparr>drawn := drawn s + 1\<rparr>) = Inr s1"
      using True "2.prems" v row by (simp add: upsert_rollup_def s1_def)
    have "tenants (working s1) = tenants (working s)" by (simp add: s1_def)
    then have "\<forall>t \<in> fst ` set groups. tenant_exists (working s1) t"
      using "2.prems"(3) unfolding tenant_exists_def by simp
    from "2.IH" [OF u [unfolded row_def] "2.prems"(1) _ this] show ?thesis
      using True u "2.prems"(2) by (simp add: row_def) (simp add: s1_def)
  next
    case False
    then have "upsert_rollup row (s\<lparr>drawn := drawn s + 1\<rparr>) = Inl DataError" using row by (simp add: upsert_rollup_def)
    with False show ?thesis by (simp add: row_def)
  qed
qed simp

lemma rollup_period_succeeds_iff:
  assumes "pt \<in> {''hourly'', ''daily''}" "pending s = []" "\<forall>r \<in> set (usage_records (working s)). tenant_exists (working s) (ur_tenant_id r)"
    and "distinct (map rollup_key (usage_rollups (working s)))"
  shows "(\<exists>n s'. rollup_period pt a b s = (Inr n, s')) \<longleftrightarrow> (\<forall>t. group_fits (period_records t a b (usage_records (working s))))"
proof -
  let ?g = "usage_groups a b (usage_records (working s))" and ?c = "set_rls_context None True s"
  have d: "distinct (map fst ?g)" unfolding usage_groups_keys by simp
  have ex: "\<forall>t \<in> fst ` set ?g. tenant_exists (working ?c) t"
    using assms(3) unfolding set_map [symmetric] usage_groups_keys by auto
  have "(\<exists>n s'. rollup_period pt a b s = (Inr n, s')) \<longleftrightarrow> (\<exists>s'. upsert_groups pt a ?g ?c = Inr s')"
  proof (cases "upsert_groups pt a ?g ?c")
    case (Inr s1)
    then have "pending s1 = []" using upsert_groups_out [OF Inr d] assms(2,4) by simp
    with Inr show ?thesis by (simp add: rollup_period_def Let_def bypass_sees_records commit_def flush_def)
  qed (simp add: rollup_period_def Let_def bypass_sees_records)
  also have "\<dots> \<longleftrightarrow> (\<forall>g \<in> snd ` set ?g. group_fits g)"
    by (rule upsert_groups_succeeds_iff [OF assms(1) _ ex]) (simp add: set_rls_context_def)
  also have "\<dots> \<longleftrightarrow> (\<forall>t. group_fits (period_records t a b (usage_records (working s))))"
  proof -
    have "group_fits []" by (simp add: group_fits_def rollup_ok_def rollup_row_def int4_def numeric_fits_def pg_numeric_def)
    then show ?thesis unfolding ball_simps usage_groups_members by (auto, metis)
  qed
  finally show ?thesis .
qed

lemma rollup_period_failure:
  assumes "rollup_period pt a b s = (Inl e, s')" "pending s = []" "distinct (map rollup_key (usage_rollups (working s)))"
  shows "committed s' = committed s"
proof (cases "upsert_groups pt a (usage_groups a b (usage_records (working s))) (set_rls_context None True s)")
  case (Inr s1)
  have "pending s1 = []" using upsert_groups_out [OF Inr] assms(2,3) usage_groups_keys by simp
  with Inr assms(1) show ?thesis by (simp add: rollup_period_def Let_def bypass_sees_records commit_def flush_def)
qed (use assms(1) in \<open>auto simp: rollup_period_def Let_def bypass_sees_records rollback_def\<close>)

lemma put_rollup_same:
  assumes "figures_at (rollup_key row) rs = [figures row]"
  shows "put_rollup row rs = rs"
proof -
  have f: "map figures (filter (\<lambda>r. rollup_key r = rollup_key row) rs) = [figures row]"
    using assms by (simp add: figures_at_def)
  then have "filter (\<lambda>r. rollup_key r = rollup_key row) rs \<noteq> []" by auto
  then have ex: "list_ex (\<lambda>r. rollup_key r = rollup_key row) rs" by (auto simp: filter_empty_conv list_ex_iff)
  have "overwrite row r = r" if "r \<in> set rs" "rollup_key r = rollup_key row" for r
  proof -
    have "figures r \<in> set (map figures (filter (\<lambda>r. rollup_key r = rollup_key row) rs))" using that by auto
    then have "figures r = figures row" unfolding f by simp
    then show ?thesis by (simp add: figures_def overwrite_def)
  qed
  then have "map (\<lambda>r. if rollup_key r = rollup_key row then overwrite row r else r) rs = rs" by (simp add: map_idI)
  with ex show ?thesis by (simp add: put_rollup_def)
qed

lemma upsert_groups_same:
  assumes "upsert_groups pt st groups s = Inr s'"
    and "\<And>t g. (t, g) \<in> set groups \<Longrightarrow> figures_at (t, pt, st) (usage_rollups (working s)) = [group_figures g]"
  shows "working s' = working s"
  using assms
proof (induction pt st groups s rule: upsert_groups.induct)
  case (2 pt st t g groups s)
  define row where "row = rollup_row (uuid4 s (drawn s)) (clock s) pt st t g"
  define row' where "row' = row\<lparr>ro_cost_usd := pg_numeric 6 (ro_cost_usd row)\<rparr>"
  obtain s1 where s1: "upsert_rollup row (s\<lparr>drawn := drawn s + 1\<rparr>) = Inr s1" "upsert_groups pt st groups s1 = Inr s'"
    using "2.prems"(1) by (auto simp: row_def split: sum.splits)
  have k: "rollup_key row' = (t, pt, st)" "figures row' = group_figures g"
    by (simp_all add: row'_def row_def rollup_row_def rollup_key_def figures_def group_figures_def)
  then have "put_rollup row' (usage_rollups (working s)) = usage_rollups (working s)"
    using "2.prems"(2) by (intro put_rollup_same) simp
  then have w: "working s1 = working s" using upsert_rollup_out [OF s1(1)] by (simp add: row'_def)
  have "working s' = working s1"
    by (rule "2.IH" [OF s1(1) [unfolded row_def] s1(2)]) (use "2.prems"(2) w in auto)
  with w show ?case by simp
qed simp

text \<open>A session as the workers open it on a database that satisfies its constraints.\<close>

definition rollup_ready :: "session \<Rightarrow> bool" where
  "rollup_ready s \<longleftrightarrow> pending s = [] \<and> working s = committed s \<and> distinct (map rollup_key (usage_rollups (committed s)))
     \<and> (\<forall>r \<in> set (usage_records (committed s)). tenant_exists (committed s) (ur_tenant_id r))"

lemma usage_groups_length: "length (usage_groups a b rs) = card {t. period_records t a b rs \<noteq> []}"
proof -
  have "distinct (map fst (usage_groups a b rs))" unfolding usage_groups_keys by simp
  then have "length (usage_groups a b rs) = card (fst ` set (usage_groups a b rs))"
    by (metis distinct_card length_map set_map)
  also have "fst ` set (usage_groups a b rs) = {t. period_records t a b rs \<noteq> []}" using usage_groups_tenant by blast
  finally show ?thesis .
qed

text \<open>
  C15. A rollup is exact. If every tenant's sums over the period fit their columns it succeeds,
  reports the number of tenants with records in the period, and leaves for each of them exactly one
  row with exactly the sums over that tenant's records of the half-open period; every other rollup
  row and every other table is as before. If some tenant's sums do not fit, the whole job fails
  and nothing is changed.
\<close>

theorem rollup_exact:
  assumes "rollup_ready s" "pt \<in> {''hourly'', ''daily''}"
  shows "case rollup_period pt a b s of
      (Inr n, s') \<Rightarrow> (\<forall>t. group_fits (period_records t a b (usage_records (committed s))))
        \<and> n = card {t. period_records t a b (usage_records (committed s)) \<noteq> []}
        \<and> committed s' = (committed s)\<lparr>usage_rollups := usage_rollups (committed s')\<rparr>
        \<and> (\<forall>k. figures_at k (usage_rollups (committed s')) = rolled_up pt a b (committed s) k)
    | (Inl e, s') \<Rightarrow> (\<exists>t. \<not> group_fits (period_records t a b (usage_records (committed s)))) \<and> committed s' = committed s"
proof -
  have p: "pending s = []" "working s = committed s" and d: "distinct (map rollup_key (usage_rollups (working s)))"
    and fk: "\<forall>r \<in> set (usage_records (working s)). tenant_exists (working s) (ur_tenant_id r)"
    using assms(1) by (simp_all add: rollup_ready_def)
  obtain r s' where run: "rollup_period pt a b s = (r, s')" by (cases "rollup_period pt a b s")
  note iff = rollup_period_succeeds_iff [OF assms(2) p(1) fk d, of a b, unfolded p(2)]
  show ?thesis
  proof (cases r)
    case (Inl e)
    then show ?thesis using iff rollup_period_failure [OF _ p(1) d] run by auto
  next
    case (Inr n)
    have "\<forall>t. group_fits (period_records t a b (usage_records (committed s)))" using iff run Inr by blast
    then show ?thesis using rollup_period_success [OF run [unfolded Inr] p(1) d] run Inr
      by (auto simp: p(2) usage_groups_length)
  qed
qed

lemma rollup_ready_after:
  assumes "rollup_period pt a b s = (Inr n, s')" "rollup_ready s"
  shows "rollup_ready (s'\<lparr>clock := c\<rparr>)"
proof -
  obtain rs where "pending s' = []" "working s' = committed s'" "committed s' = (committed s)\<lparr>usage_rollups := rs\<rparr>"
    "distinct (map rollup_key rs)"
    using rollup_period_success [OF assms(1)] assms(2) unfolding rollup_ready_def by auto
  with assms(2) show ?thesis by (simp add: rollup_ready_def tenant_exists_def)
qed

lemma rollup_period_again:
  assumes "rollup_period pt a b s = (Inr n, s')" "rollup_ready s" "pt \<in> {''hourly'', ''daily''}"
    and "rollup_ready s2" "committed s2 = committed s'"
  shows "\<exists>s3. rollup_period pt a b s2 = (Inr n, s3) \<and> committed s3 = committed s'"
proof -
  have p: "pending s = []" "working s = committed s" "distinct (map rollup_key (usage_rollups (working s)))"
    "\<forall>r \<in> set (usage_records (working s)). tenant_exists (working s) (ur_tenant_id r)"
    and p2: "pending s2 = []" "working s2 = committed s2" "distinct (map rollup_key (usage_rollups (working s2)))"
    "\<forall>r \<in> set (usage_records (working s2)). tenant_exists (working s2) (ur_tenant_id r)"
    using assms(2,4) by (simp_all add: rollup_ready_def)
  obtain rs where rs: "committed s' = (committed s)\<lparr>usage_rollups := rs\<rparr>" "\<And>k. figures_at k rs = rolled_up pt a b (committed s) k"
    and n: "n = length (usage_groups a b (usage_records (committed s)))"
    using rollup_period_success [OF assms(1) p(1,3)] p(2) by auto
  have same: "usage_records (working s2) = usage_records (working s)" using rs(1) assms(5) p(2) p2(2) by simp
  obtain m s3 where r: "rollup_period pt a b s2 = (Inr m, s3)"
    using rollup_period_succeeds_iff [OF assms(3) p2(1,4,3)] rollup_period_succeeds_iff [OF assms(3) p(1,4,3)] assms(1) same
    by metis
  have m: "m = n" using rollup_period_success [OF r p2(1,3)] n same p(2) by simp
  let ?g = "usage_groups a b (usage_records (working s2))"
  obtain s4 where u: "upsert_groups pt a ?g (set_rls_context None True s2) = Inr s4"
    using r by (auto simp: rollup_period_def Let_def bypass_sees_records split: sum.splits)
  have "working s4 = working (set_rls_context None True s2)"
    by (rule upsert_groups_same [OF u])
      (use rs same assms(5) p(2) p2(2) in \<open>auto simp: usage_groups_members rolled_up_def\<close>)
  moreover have "pending s4 = []" using upsert_groups_out [OF u] p2(1,3) usage_groups_keys by simp
  ultimately have "committed s3 = working s2"
    using r u by (auto simp: rollup_period_def Let_def bypass_sees_records commit_def flush_def)
  with r m p2(2) assms(5) show ?thesis by simp
qed

lemma previous_period: "h \<noteq> 0 \<Longrightarrow> (c - h) div h = c div h - (1 :: int)"
  using div_add_self2 [of h "c - h"] by simp

definition demo_usage :: UsageRecord where
  "demo_usage = \<lparr>ur_id = 1, ur_tenant_id = 1, ur_api_key_id = ''ab'', ur_provider = ''openai'', ur_model = ''gpt-4'',
     ur_prompt_tokens = 10, ur_completion_tokens = 5, ur_total_tokens = 15, ur_cost_usd = 90, ur_cache_hit = True,
     ur_correlation_id = None, ur_created_at = 7\<rparr>"

definition demo_usage_db :: db where
  "demo_usage_db = demo_db\<lparr>usage_records := [demo_usage, demo_usage\<lparr>ur_id := 2, ur_tenant_id := 2, ur_cache_hit := False\<rparr>]\<rparr>"

definition demo_job :: session where
  "demo_job = open_session App USEC_PER_HOUR demo_usage_db"

lemma demo_job_ready: "rollup_ready demo_job"
  by (simp add: rollup_ready_def demo_job_def open_session_def demo_usage_db_def demo_usage_def demo_db_def empty_db_def
      demo_row_def tenant_exists_def)

lemma demo_job_runs: "fst (rollup_period ''hourly'' 0 USEC_PER_HOUR demo_job) = Inr 2"
  by code_simp

theorem rollup_exact_witness:
  "figures_at (1, ''hourly'', 0) (usage_rollups (committed (snd (rollup_period ''hourly'' 0 USEC_PER_HOUR demo_job))))
     = [(1, 1, 10, 5, 15, 90)]"
proof -
  obtain s' where s': "rollup_period ''hourly'' 0 USEC_PER_HOUR demo_job = (Inr 2, s')"
    using demo_job_runs by (metis prod.collapse)
  have "rolled_up ''hourly'' 0 USEC_PER_HOUR (committed demo_job) (1, ''hourly'', 0) = [(1, 1, 10, 5, 15, 90)]"
    by code_simp
  then show ?thesis using rollup_exact [OF demo_job_ready, of "''hourly''" 0 USEC_PER_HOUR] s' by simp
qed

text \<open>
  Re-running a rollup is harmless: a second run of the hourly job within the same hour, or of
  the daily job within the same day, on the database the first one left reports the same number of
  tenants and leaves the database exactly as it is, duplicating no row.
\<close>

theorem rollup_repeatable:
  assumes "rollup_ready s" "rollup_ready s2" "committed s2 = committed s'"
  shows "(hourly_usage_rollup s = (Inr n, s') \<and> clock s div USEC_PER_HOUR = clock s2 div USEC_PER_HOUR \<longrightarrow>
            (\<exists>s3. hourly_usage_rollup s2 = (Inr n, s3) \<and> committed s3 = committed s'))
       \<and> (daily_usage_rollup s = (Inr n, s') \<and> clock s div USEC_PER_DAY = clock s2 div USEC_PER_DAY \<longrightarrow>
            (\<exists>s3. daily_usage_rollup s2 = (Inr n, s3) \<and> committed s3 = committed s'))"
  using rollup_period_again [OF _ assms(1) _ assms(2,3)] previous_period [of USEC_PER_HOUR] previous_period [of USEC_PER_DAY]
  unfolding hourly_usage_rollup_def daily_usage_rollup_def hourly_period_start_def daily_period_start_def Let_def by (auto simp: USEC_PER_DAY_def USEC_PER_HOUR_def)

theorem rollup_repeatable_witness:
  "committed (snd (hourly_usage_rollup ((snd (hourly_usage_rollup demo_job))\<lparr>clock := USEC_PER_HOUR + 5\<rparr>)))
     = committed (snd (hourly_usage_rollup demo_job))"
proof -
  have h: "hourly_usage_rollup demo_job = rollup_period ''hourly'' 0 USEC_PER_HOUR demo_job"
    by (simp add: hourly_usage_rollup_def hourly_period_start_def demo_job_def open_session_def)
  obtain s' where s': "hourly_usage_rollup demo_job = (Inr 2, s')" using demo_job_runs h by (metis prod.collapse)
  have ready: "rollup_ready (s'\<lparr>clock := USEC_PER_HOUR + 5\<rparr>)"
    using rollup_ready_after [OF s' [unfolded h] demo_job_ready] .
  have "clock demo_job div USEC_PER_HOUR = (USEC_PER_HOUR + 5) div USEC_PER_HOUR" by code_simp
  then show ?thesis using rollup_repeatable [OF demo_job_ready ready, of s' 2] s' by auto
qed

section \<open>The schedule\<close>

lemma multiple_period: "0 < h \<Longrightarrow> a * h \<le> x \<and> x < a * h + h \<longleftrightarrow> x div h = (a :: int)"
proof
  assume h: "0 < h"
  show "x div h = a" if "a * h \<le> x \<and> x < a * h + h"
    using that h by (intro int_div_pos_eq [of x h a "x - a * h"]) (auto simp: mult.commute)
  show "a * h \<le> x \<and> x < a * h + h" if "x div h = a"
  proof -
    have "x div h * h + x mod h = x" "0 \<le> x mod h" "x mod h < h" using h by simp_all
    then have "x div h * h \<le> x" "x < x div h * h + h" by linarith+
    then show ?thesis using that by simp
  qed
qed

lemma in_hourly_period:
  "in_period (hourly_period_start c) (hourly_period_start c + USEC_PER_HOUR) r \<longleftrightarrow> ur_created_at r div USEC_PER_HOUR = c div USEC_PER_HOUR - 1"
proof -
  have h: "0 < USEC_PER_HOUR" by (simp add: USEC_PER_HOUR_def)
  then have e: "(c - USEC_PER_HOUR) div USEC_PER_HOUR = c div USEC_PER_HOUR - 1" by (intro previous_period) simp
  show ?thesis unfolding in_period_def hourly_period_start_def e by (rule multiple_period [OF h])
qed

lemma in_daily_period:
  "in_period (daily_period_start c) (daily_period_start c + USEC_PER_DAY) r \<longleftrightarrow> ur_created_at r div USEC_PER_DAY = c div USEC_PER_DAY - 1"
proof -
  have h: "0 < USEC_PER_DAY" by (simp add: USEC_PER_DAY_def USEC_PER_HOUR_def)
  then have e: "(c - USEC_PER_DAY) div USEC_PER_DAY = c div USEC_PER_DAY - 1" by (intro previous_period) simp
  show ?thesis unfolding in_period_def daily_period_start_def e by (rule multiple_period [OF h])
qed

lemma one_slot_per_period:
  fixes k j h :: int
  assumes "0 \<le> j" "j < k"
  shows "\<exists>!m. m mod k = j \<and> h = m div k - 1"
proof (rule ex1I [of _ "(h + 1) * k + j"])
  show "((h + 1) * k + j) mod k = j \<and> h = ((h + 1) * k + j) div k - 1" using assms by simp
  show "m = (h + 1) * k + j" if "m mod k = j \<and> h = m div k - 1" for m
    using that div_mult_mod_eq [of m k] by simp
qed

lemma daily_minute: "m div 60 mod 24 = 0 \<and> m mod 60 = 10 \<longleftrightarrow> m mod 1440 = (10 :: int)"
proof -
  have "m mod 1440 = 60 * (m div 60 mod 24) + m mod 60" using zmod_zmult2_eq [of 24 m 60] by simp
  moreover have "0 \<le> m div 60 mod 24" "0 \<le> m mod 60" "m mod 60 < 60" by simp_all
  moreover have "q = 0 \<and> p = 10 \<longleftrightarrow> 60 * q + p = 10" if "0 \<le> q" "0 \<le> p" "p < 60" for p q :: int using that by presburger
  ultimately show ?thesis by metis
qed

lemma minute_hour: "c div USEC_PER_HOUR = c div USEC_PER_MINUTE div 60"
  by (simp add: USEC_PER_HOUR_def USEC_PER_MINUTE_def flip: div_mult2_eq zdiv_zmult2_eq)

lemma minute_day: "c div USEC_PER_DAY = c div USEC_PER_MINUTE div 1440"
  by (simp add: USEC_PER_DAY_def USEC_PER_HOUR_def USEC_PER_MINUTE_def flip: div_mult2_eq zdiv_zmult2_eq)

text \<open>
  Every usage record is rolled up by exactly one scheduled run of the hourly job and by exactly one
  of the daily job, whatever the microsecond of its minute at which the job reads the clock.
\<close>

theorem record_rolled_up_once:
  "(\<exists>!m. Hourly_usage_rollup \<in> set (cron_jobs m)
      \<and> (\<forall>c. c div USEC_PER_MINUTE = m \<longrightarrow> in_period (hourly_period_start c) (hourly_period_start c + USEC_PER_HOUR) r))
   \<and> (\<exists>!m. Daily_usage_rollup \<in> set (cron_jobs m)
      \<and> (\<forall>c. c div USEC_PER_MINUTE = m \<longrightarrow> in_period (daily_period_start c) (daily_period_start c + USEC_PER_DAY) r))"
proof -
  let ?h = "ur_created_at r div USEC_PER_HOUR" and ?d = "ur_created_at r div USEC_PER_DAY"
  have ex: "\<exists>c. c div USEC_PER_MINUTE = m" for m by (rule exI [of _ "m * USEC_PER_MINUTE"]) (simp add: USEC_PER_MINUTE_def)
  have h: "(\<forall>c. c div USEC_PER_MINUTE = m \<longrightarrow> in_period (hourly_period_start c) (hourly_period_start c + USEC_PER_HOUR) r)
      \<longleftrightarrow> ?h = m div 60 - 1" for m
    using ex [of m] by (auto simp: in_hourly_period minute_hour)
  have d: "(\<forall>c. c div USEC_PER_MINUTE = m \<longrightarrow> in_period (daily_period_start c) (daily_period_start c + USEC_PER_DAY) r)
      \<longleftrightarrow> ?d = m div 1440 - 1" for m
    using ex [of m] by (auto simp: in_daily_period minute_day)
  have hj: "Hourly_usage_rollup \<in> set (cron_jobs m) \<longleftrightarrow> m mod 60 = 5" for m by (simp add: cron_jobs_def Let_def)
  have dj: "Daily_usage_rollup \<in> set (cron_jobs m) \<longleftrightarrow> m mod 1440 = 10" for m
    using daily_minute [of m] by (simp add: cron_jobs_def Let_def)
  have "\<exists>!m. m mod 60 = 5 \<and> ?h = m div 60 - 1" by (rule one_slot_per_period) simp_all
  moreover have "\<exists>!m. m mod 1440 = 10 \<and> ?d = m div 1440 - 1" by (rule one_slot_per_period) simp_all
  ultimately show ?thesis unfolding h d hj dj by blast
qed

section \<open>The budget scan\<close>

definition alert_detail :: "Tenant \<Rightarrow> rat \<Rightarrow> rat \<Rightarrow> json" where
  "alert_detail tenant spend threshold =
     JObj [(''threshold'', JNum threshold), (''spend_usd'', JStr (decimal_str 6 spend)),
           (''budget_usd'', JStr (decimal_str 2 (t_monthly_budget_usd tenant)))]"

text \<open>The thresholds at which a tenant is due an alert: reached, and not marked this month.\<close>

definition thresholds_due :: "keyspace \<Rightarrow> string \<Rightarrow> Tenant \<Rightarrow> rat \<Rightarrow> (string \<times> rat) list \<Rightarrow> (string \<times> rat) list" where
  "thresholds_due ks month tenant ratio ths =
     filter (\<lambda>(name, th). th \<le> ratio \<and> ks (marker_key (t_id tenant) month name) = None) ths"

definition marked :: "keyspace \<Rightarrow> string set \<Rightarrow> rat \<Rightarrow> keyspace" where
  "marked ks keys d = (\<lambda>k. if k \<in> keys then Some (Num 1, Some d) else ks k)"

definition due_keys :: "string \<Rightarrow> Tenant \<Rightarrow> (string \<times> rat) list \<Rightarrow> string set" where
  "due_keys month tenant due = (\<lambda>(name, th). marker_key (t_id tenant) month name) ` set due"

definition event_of :: "AuditLog \<Rightarrow> uuid option \<times> string \<times> json" where
  "event_of r = (al_tenant_id r, al_event_type r, al_detail r)"

definition alert_events :: "Tenant \<Rightarrow> rat \<Rightarrow> (string \<times> rat) list \<Rightarrow> (uuid option \<times> string \<times> json) list" where
  "alert_events tenant spend due =
     map (\<lambda>(name, th). (Some (t_id tenant), ''budget.threshold_reached'', alert_detail tenant spend th)) due"

lemma marker_key_inj [simp]: "marker_key t m a = marker_key t m b \<longleftrightarrow> a = b"
  by (simp add: marker_key_def)

text \<open>The session after alerts with the given events: unchanged when there are none.\<close>

definition alerted :: "(uuid option \<times> string \<times> json) list \<Rightarrow> session \<Rightarrow> session \<Rightarrow> bool" where
  "alerted evs s s' \<longleftrightarrow> (if evs = [] then s' = s else
     pending s' = [] \<and> db_user s' = db_user s \<and> guc_tenant s' = [] \<and> guc_bypass s' = [] \<and> committed s' = working s'
     \<and> (\<exists>rows. working s' = (working s)\<lparr>audit_log := audit_log (working s) @ rows\<rparr> \<and> map event_of rows = evs))"

lemma write_alert:
  assumes "pending s = []" "tenant_exists (working s) (t_id tenant)"
  shows "\<exists>s1. write_audit_event (Some (t_id tenant)) ''budget.threshold_reached'' None
       [(''threshold'', PFloat th), (''spend_usd'', PStr (decimal_str 6 spend)),
        (''budget_usd'', PStr (decimal_str 2 (t_monthly_budget_usd tenant)))] s = (Inr (), s1)
     \<and> alerted (alert_events tenant spend [(name, th)]) s s1"
proof -
  let ?row = "audit_row (Some (t_id tenant)) ''budget.threshold_reached'' None (alert_detail tenant spend th) s"
  have "write_audit_event (Some (t_id tenant)) ''budget.threshold_reached'' None
       [(''threshold'', PFloat th), (''spend_usd'', PStr (decimal_str 6 spend)),
        (''budget_usd'', PStr (decimal_str 2 (t_monthly_budget_usd tenant)))] s = (Inr (), audited ?row s)"
    using assms by (intro write_audit_event_eval) (simp_all add: alert_detail_def fits_def fits_opt_def)
  moreover have "alerted (alert_events tenant spend [(name, th)]) s (audited ?row s)"
    by (auto simp: alerted_def alert_events_def audited_def Let_def event_of_def audit_row_def intro!: exI [of _ "[?row]"])
  ultimately show ?thesis by blast
qed

lemma alerted_rows:
  "alerted evs s s' \<Longrightarrow> evs \<noteq> [] \<Longrightarrow>
   \<exists>rows. working s' = (working s)\<lparr>audit_log := audit_log (working s) @ rows\<rparr> \<and> map event_of rows = evs"
  by (simp add: alerted_def)

lemma alerted_append:
  assumes "alerted evs1 s s1" "alerted evs2 s1 s2"
  shows "alerted (evs1 @ evs2) s s2"
proof (cases "evs1 = [] \<or> evs2 = []")
  case False
  then obtain r1 r2 where "working s1 = (working s)\<lparr>audit_log := audit_log (working s) @ r1\<rparr>" "map event_of r1 = evs1"
    "working s2 = (working s1)\<lparr>audit_log := audit_log (working s1) @ r2\<rparr>" "map event_of r2 = evs2"
    using alerted_rows [OF assms(1)] alerted_rows [OF assms(2)] by blast
  then have "working s2 = (working s)\<lparr>audit_log := audit_log (working s) @ r1 @ r2\<rparr>" "map event_of (r1 @ r2) = evs1 @ evs2"
    by simp_all
  with False assms show ?thesis by (auto simp: alerted_def)
qed (use assms in \<open>auto simp: alerted_def\<close>)

lemma alerted_frame:
  "alerted evs s s' \<Longrightarrow> pending s = [] \<Longrightarrow> pending s' = [] \<and> tenants (working s') = tenants (working s) \<and> db_user s' = db_user s
     \<and> usage_records (working s') = usage_records (working s)"
  by (auto simp: alerted_def split: if_splits)

text \<open>What a tenant really spent since the given instant, and the thresholds it is due an alert for.\<close>

definition month_spend :: "db \<Rightarrow> uuid \<Rightarrow> datetime \<Rightarrow> rat" where
  "month_spend d tid since = (\<Sum>r\<leftarrow>filter (\<lambda>r. ur_tenant_id r = tid \<and> since \<le> ur_created_at r) (usage_records d). ur_cost_usd r)"

definition tenant_due :: "keyspace \<Rightarrow> (rat \<Rightarrow> rat) \<Rightarrow> string \<Rightarrow> datetime \<Rightarrow> db \<Rightarrow> Tenant \<Rightarrow> (string \<times> rat) list" where
  "tenant_due ks fl month since d tenant =
     (if t_monthly_budget_usd tenant \<le> 0 then []
      else thresholds_due ks month tenant (fl (month_spend d (t_id tenant) since / t_monthly_budget_usd tenant))
             (BUDGET_ALERT_THRESHOLDS fl))"

lemma spend_of_bypass: "guc_bypass s = ''on'' \<Longrightarrow> spend_of tid since s = month_spend (working s) tid since"
  by (simp add: spend_of_def month_spend_def select_usage_records_def visible_def)

lemma spend_of_no_context: "db_user s = App \<Longrightarrow> guc_bypass s = [] \<Longrightarrow> guc_tenant s = [] \<Longrightarrow> spend_of tid since s = 0"
proof -
  assume "db_user s = App" "guc_bypass s = []" "guc_tenant s = []"
  moreover have "uuid_str u \<noteq> []" for u by (metis length_uuid_str list.size(3) zero_neq_numeral)
  ultimately have "select_usage_records p s = []" for p by (simp add: select_usage_records_def visible_def)
  then show ?thesis by (simp add: spend_of_def)
qed

lemma marked_none [simp]: "marked ks {} d = ks" "due_keys month tenant [] = {}" "alert_events tenant spend [] = []"
  by (simp_all add: marked_def due_keys_def alert_events_def)

lemma alerted_none [simp]: "alerted [] s s' \<longleftrightarrow> s' = s"
  by (simp add: alerted_def)

text \<open>A rounding for which a zero spend stays below both thresholds.\<close>

definition zero_below :: "(rat \<Rightarrow> rat) \<Rightarrow> bool" where
  "zero_below fl \<longleftrightarrow> fl 0 < fl (4 / 5) \<and> fl 0 < fl 1"

context redis_server
begin

lemma alert_thresholds_eval:
  assumes "pending s = []" "tenant_exists (working s) (t_id tenant)" "distinct (map fst ths)"
  shows "\<exists>r' s'. alert_thresholds R month tenant spend ratio ths r s = (Inr (), r', s') \<and> now r' = now r
     \<and> entry r' = marked (entry r) (due_keys month tenant (thresholds_due (entry r) month tenant ratio ths))
         (now r + of_int BUDGET_ALERT_MARKER_TTL_SECONDS)
     \<and> alerted (alert_events tenant spend (thresholds_due (entry r) month tenant ratio ths)) s s'"
  using assms
proof (induction ths arbitrary: r s)
  case Nil
  then show ?case by (simp add: thresholds_due_def due_keys_def marked_def alerted_def alert_events_def)
next
  case (Cons p ths)
  obtain name th where p: "p = (name, th)" by (cases p)
  let ?k = "marker_key (t_id tenant) month name" and ?ttl = "BUDGET_ALERT_MARKER_TTL_SECONDS"
  let ?due = "\<lambda>r. thresholds_due (entry r) month tenant ratio ths"
  have ttl: "0 < ?ttl" by (simp add: BUDGET_ALERT_MARKER_TTL_SECONDS_def)
  define r1 where "r1 = snd (rd_set_nx_ex R ?k (Num 1) ?ttl r)"
  have set: "rd_set_nx_ex R ?k (Num 1) ?ttl r = (entry r ?k = None, r1)"
    by (simp add: prod_eq_iff r1_def set_nx_fst_law)
  show ?case
  proof (cases "th \<le> ratio \<and> entry r ?k = None")
    case True
    have e1: "entry r1 = (entry r)(?k \<mapsto> (Num 1, Some (now r + of_int ?ttl)))" "now r1 = now r"
      unfolding r1_def using True set_nx_snd_law [OF ttl] now_set_nx by simp_all
    have same: "?due r1 = ?due r"
    proof -
      have other: "a \<noteq> name" if "(a, b) \<in> set ths" for a b using that Cons.prems(3) by (force simp: p)
      show ?thesis unfolding thresholds_due_def e1 by (intro filter_cong) (auto dest: other)
    qed
    obtain s1 where s1: "write_audit_event (Some (t_id tenant)) ''budget.threshold_reached'' None
       [(''threshold'', PFloat th), (''spend_usd'', PStr (decimal_str 6 spend)),
        (''budget_usd'', PStr (decimal_str 2 (t_monthly_budget_usd tenant)))] s = (Inr (), s1)"
      "alerted (alert_events tenant spend [(name, th)]) s s1"
      using write_alert [OF Cons.prems(1,2)] by blast
    have pre: "pending s1 = []" "tenant_exists (working s1) (t_id tenant)" "distinct (map fst ths)"
      using alerted_frame [OF s1(2) Cons.prems(1)] Cons.prems(2,3) by (simp_all add: tenant_exists_def)
    obtain r' s' where run: "alert_thresholds R month tenant spend ratio ths r1 s1 = (Inr (), r', s')" "now r' = now r1"
      "entry r' = marked (entry r1) (due_keys month tenant (?due r1)) (now r1 + of_int ?ttl)"
      "alerted (alert_events tenant spend (?due r1)) s1 s'"
      using Cons.IH [OF pre] by blast
    have "entry r' = marked (entry r) (due_keys month tenant ((name, th) # ?due r)) (now r + of_int ?ttl)"
      unfolding run(3) same unfolding e1 by (auto simp: marked_def due_keys_def fun_eq_iff)
    moreover have "thresholds_due (entry r) month tenant ratio (p # ths) = (name, th) # ?due r"
      using True by (simp add: p thresholds_due_def)
    moreover have "alerted (alert_events tenant spend ((name, th) # ?due r)) s s'"
      using alerted_append [OF s1(2) run(4)] by (simp add: same alert_events_def)
    ultimately show ?thesis using True run(1,2) set s1(1) e1(2) by (simp add: p)
  next
    case False
    have e1: "entry r1 = entry r" "now r1 = now r" if "entry r ?k \<noteq> None"
      unfolding r1_def using that set_nx_snd_law [OF ttl] now_set_nx by auto
    define r2 where "r2 = (if ratio < th then r else r1)"
    have e2: "entry r2 = entry r" "now r2 = now r" using False e1 by (auto simp: r2_def not_less)
    have "alert_thresholds R month tenant spend ratio (p # ths) r s = alert_thresholds R month tenant spend ratio ths r2 s"
      using False set by (auto simp: p r2_def not_less)
    moreover have "thresholds_due (entry r) month tenant ratio (p # ths) = ?due r2"
      using False by (auto simp: p thresholds_due_def e2)
    ultimately show ?thesis using Cons.IH [OF Cons.prems(1,2), of r2] Cons.prems(3) e2 by simp
  qed
qed

lemma scan_tenants_blind:
  assumes "db_user s = App" "guc_bypass s = []" "guc_tenant s = []" "zero_below fl"
  shows "scan_tenants R fl month since ts r s = (Inr (), r, s)"
  using assms by (induction ts) (auto simp: spend_of_no_context zero_below_def BUDGET_ALERT_THRESHOLDS_def Let_def)

lemma scan_tenants_eval:
  fixes r :: 's and month :: string and since :: datetime
  assumes "guc_bypass s = ''on''" "db_user s = App" "pending s = []" "zero_below fl"
    and "\<forall>t \<in> set ts. tenant_exists (working s) (t_id t)"
  defines "D \<equiv> tenant_due (entry r) fl month since (working s)"
  shows "\<exists>r' s'. scan_tenants R fl month since ts r s = (Inr (), r', s') \<and>
     (case List.find (\<lambda>t. D t \<noteq> []) ts of
        None \<Rightarrow> s' = s \<and> entry r' = entry r
      | Some t \<Rightarrow> alerted (alert_events t (month_spend (working s) (t_id t) since) (D t)) s s'
          \<and> entry r' = marked (entry r) (due_keys month t (D t)) (now r + of_int BUDGET_ALERT_MARKER_TTL_SECONDS))"
  using assms(5) unfolding D_def
proof (induction ts arbitrary: r)
  case (Cons tenant ts)
  let ?D = "\<lambda>r. tenant_due (entry r) fl month since (working s)"
  let ?spend = "month_spend (working s) (t_id tenant) since"
  show ?case
  proof (cases "t_monthly_budget_usd tenant \<le> 0")
    case True
    then show ?thesis using Cons by (simp add: tenant_due_def)
  next
    case False
    have sp: "spend_of (t_id tenant) since s = ?spend" by (rule spend_of_bypass [OF assms(1)])
    have te: "tenant_exists (working s) (t_id tenant)" using Cons.prems by simp
    have di: "distinct (map fst (BUDGET_ALERT_THRESHOLDS fl))" by (simp add: BUDGET_ALERT_THRESHOLDS_def)
    have due: "?D r tenant = thresholds_due (entry r) month tenant (fl (?spend / t_monthly_budget_usd tenant)) (BUDGET_ALERT_THRESHOLDS fl)"
      using False by (simp add: tenant_due_def)
    obtain r1 s1 where run: "alert_thresholds R month tenant ?spend (fl (?spend / t_monthly_budget_usd tenant))
        (BUDGET_ALERT_THRESHOLDS fl) r s = (Inr (), r1, s1)" "now r1 = now r"
      "entry r1 = marked (entry r) (due_keys month tenant (?D r tenant)) (now r + of_int BUDGET_ALERT_MARKER_TTL_SECONDS)"
      "alerted (alert_events tenant ?spend (?D r tenant)) s s1"
      using alert_thresholds_eval [OF assms(3) te di, of month ?spend "fl (?spend / t_monthly_budget_usd tenant)" r]
      unfolding due by blast
    have step: "scan_tenants R fl month since (tenant # ts) r s = scan_tenants R fl month since ts r1 s1"
      using False run(1) by (simp add: sp Let_def)
    show ?thesis
    proof (cases "?D r tenant = []")
      case True
      then have same: "s1 = s" "entry r1 = entry r" using run(3,4) by simp_all
      have "\<forall>t \<in> set ts. tenant_exists (working s) (t_id t)" using Cons.prems by simp
      note ih = Cons.IH [OF this, of r1, unfolded same(2) run(2)]
      show ?thesis unfolding step same(1) using ih True by simp
    next
      case ne: False
      then have "db_user s1 = App" "guc_bypass s1 = []" "guc_tenant s1 = []"
        using run(4) assms(2) by (simp_all add: alerted_def alert_events_def)
      then have "scan_tenants R fl month since ts r1 s1 = (Inr (), r1, s1)" by (rule scan_tenants_blind [OF _ _ _ assms(4)])
      then show ?thesis using ne run(3,4) unfolding step by simp
    qed
  qed
qed simp

end

lemma alerted_committed:
  "alerted evs s s' \<Longrightarrow> evs \<noteq> [] \<Longrightarrow>
   \<exists>rows. committed s' = (working s)\<lparr>audit_log := audit_log (working s) @ rows\<rparr> \<and> map event_of rows = evs"
  by (auto simp: alerted_def)

lemma budget_threshold_scan_eval:
  fixes r :: 's and R :: "'s redis_api"
  assumes "redis_server R entry now" "db_user s = App" "pending s = []" "working s = committed s" "zero_below fl"
  defines "D \<equiv> tenant_due (entry r) fl (month_key (clock s)) (month_start (clock s)) (committed s)"
  shows "\<exists>r' s'. budget_threshold_scan R fl r s = (Inr (), r', s') \<and>
     (case List.find (\<lambda>t. D t \<noteq> []) (filter t_is_active (tenants (committed s))) of
        None \<Rightarrow> committed s' = committed s \<and> entry r' = entry r
      | Some t \<Rightarrow>
          (\<exists>rows. committed s' = (committed s)\<lparr>audit_log := audit_log (committed s) @ rows\<rparr>
             \<and> map event_of rows = alert_events t (month_spend (committed s) (t_id t) (month_start (clock s))) (D t))
          \<and> entry r' = marked (entry r) (due_keys (month_key (clock s)) t (D t)) (now r + of_int BUDGET_ALERT_MARKER_TTL_SECONDS))"
proof -
  let ?c = "set_rls_context None True s"
  let ?ts = "filter t_is_active (tenants (working s))"
  have ex: "\<forall>t \<in> set ?ts. tenant_exists (working ?c) (t_id t)" by (auto simp: tenant_exists_def list_ex_iff)
  have c: "guc_bypass ?c = ''on''" "db_user ?c = App" "pending ?c = []" using assms(2,3) by (simp_all add: set_rls_context_def)
  from redis_server.scan_tenants_eval [OF assms(1) c assms(5) ex, where r = r and month = "month_key (clock s)" and since = "month_start (clock s)"]
  obtain r' s' where run: "budget_threshold_scan R fl r s = (Inr (), r', s')"
    and out: "case List.find (\<lambda>t. D t \<noteq> []) ?ts of
        None \<Rightarrow> s' = ?c \<and> entry r' = entry r
      | Some t \<Rightarrow> alerted (alert_events t (month_spend (working s) (t_id t) (month_start (clock s))) (D t)) ?c s'
          \<and> entry r' = marked (entry r) (due_keys (month_key (clock s)) t (D t)) (now r + of_int BUDGET_ALERT_MARKER_TTL_SECONDS)"
    unfolding budget_threshold_scan_def Let_def D_def assms(4) [symmetric] set_rls_context_simps by blast
  show ?thesis
  proof (cases "List.find (\<lambda>t. D t \<noteq> []) ?ts")
    case None
    then show ?thesis using run out by (simp add: assms(4) [symmetric])
  next
    case (Some t)
    then have "D t \<noteq> []" by (auto simp: find_Some_iff)
    then have "alert_events t x (D t) \<noteq> []" for x by (simp add: alert_events_def)
    then show ?thesis using run out Some alerted_committed [of _ ?c s'] by (simp add: assms(4) [symmetric])
  qed
qed

text \<open>
  C30. What one budget scan does, exactly. Let a tenant be due an alert when it is active, has a
  positive budget, has reached a threshold with its spend since the start of the month and has no
  marker for that threshold. If no tenant is due, the scan changes nothing. Otherwise it writes the
  events of the first tenant that is due, one for each of its due thresholds and with its true
  spend, and sets exactly these markers for 40 days: a threshold is never reported twice while its
  marker lives. But no other tenant is alerted by the same scan, however far over its budget it is:
  committing the first event ends the transaction whose setting let the scan read the usage
  records, so every later tenant's spend is read as zero.
\<close>

theorem budget_scan_alerts_first_due:
  fixes r :: 's and R :: "'s redis_api"
  assumes "redis_server R entry now" "db_user s = App" "pending s = []" "working s = committed s" "zero_below fl"
  defines "D \<equiv> tenant_due (entry r) fl (month_key (clock s)) (month_start (clock s)) (committed s)"
  shows "\<exists>r' s'. budget_threshold_scan R fl r s = (Inr (), r', s') \<and>
     (case List.find (\<lambda>t. D t \<noteq> []) (filter t_is_active (tenants (committed s))) of
        None \<Rightarrow> committed s' = committed s \<and> entry r' = entry r
      | Some t \<Rightarrow>
          (\<exists>rows. committed s' = (committed s)\<lparr>audit_log := audit_log (committed s) @ rows\<rparr>
             \<and> map event_of rows = alert_events t (month_spend (committed s) (t_id t) (month_start (clock s))) (D t))
          \<and> entry r' = marked (entry r) (due_keys (month_key (clock s)) t (D t)) (now r + of_int BUDGET_ALERT_MARKER_TTL_SECONDS))"
  using budget_threshold_scan_eval [OF assms(1-5), of r] unfolding D_def .

lemma demo_due:
  "tenant_due (mem_entry mem_empty) id (month_key (clock demo_job)) (month_start (clock demo_job)) (committed demo_job) demo_row
     = [(''0.8'', 4 / 5)]"
  "tenant_due (mem_entry mem_empty) id (month_key (clock demo_job)) (month_start (clock demo_job)) (committed demo_job)
     (demo_row\<lparr>t_id := 2, t_name := ''globex''\<rparr>) = [(''0.8'', 4 / 5)]"
  by code_simp+

lemma demo_tenants:
  "filter t_is_active (tenants (committed demo_job)) = [demo_row, demo_row\<lparr>t_id := 2, t_name := ''globex''\<rparr>]"
  "audit_log (committed demo_job) = []" "t_id demo_row = 1"
  by code_simp+

theorem budget_scan_alerts_first_due_witness:
  "\<exists>r' s' row. budget_threshold_scan mem_redis id mem_empty demo_job = (Inr (), r', s')
     \<and> audit_log (committed s') = [row] \<and> al_tenant_id row = Some 1 \<and> al_event_type row = ''budget.threshold_reached''
     \<and> 4 / 5 \<le> month_spend (committed demo_job) 2 0 / 100"
proof -
  have pre: "db_user demo_job = App" "pending demo_job = []" "working demo_job = committed demo_job" "zero_below id"
    by (simp_all add: demo_job_def open_session_def zero_below_def)
  have "4 / 5 \<le> month_spend (committed demo_job) 2 0 / 100" by code_simp
  then show ?thesis
    using budget_scan_alerts_first_due [OF mem_server.redis_server_axioms pre, of mem_empty]
    by (auto simp: demo_due demo_tenants alert_events_def event_of_def map_eq_Cons_conv)
qed

section \<open>Scans one after another\<close>

text \<open>Scans on the database and the Redis state the previous one left; each has its own session.\<close>

fun run_scans :: "'s redis_api \<Rightarrow> (rat \<Rightarrow> rat) \<Rightarrow> session list \<Rightarrow> 's \<Rightarrow> db \<Rightarrow> 's \<times> db" where
  "run_scans R fl [] r d = (r, d)"
| "run_scans R fl (s # ss) r d =
     (case budget_threshold_scan R fl r (s\<lparr>committed := d, working := d, pending := []\<rparr>) of
        (_, r, s) \<Rightarrow> run_scans R fl ss r (committed s))"

lemma marker_key_tenant: "marker_key t m a = marker_key u m b \<longleftrightarrow> t = u \<and> a = b"
proof -
  have "uuid_str t @ x = uuid_str u @ y \<longleftrightarrow> uuid_str t = uuid_str u \<and> x = y" for x y
    by (rule append_eq_append_conv) (simp add: length_uuid_str)
  then show ?thesis by (auto simp: marker_key_def uuid_str_inj)
qed

lemma month_spend_audit [simp]: "month_spend (d\<lparr>audit_log := l\<rparr>) t since = month_spend d t since"
  by (simp add: month_spend_def)

lemma tenant_due_marked_same:
  "tenant_due (marked ks (due_keys m t (tenant_due ks fl m since d t)) x) fl m since (d\<lparr>audit_log := l\<rparr>) t = []"
proof -
  have "thresholds_due (marked ks (due_keys m t (thresholds_due ks m t ratio ths)) x) m t ratio ths = []" for ratio ths
    by (fastforce simp: thresholds_due_def filter_empty_conv marked_def due_keys_def split: if_splits)
  then show ?thesis by (simp add: tenant_due_def)
qed

lemma tenant_due_marked_other:
  assumes "t_id u \<noteq> t_id t"
  shows "tenant_due (marked ks (due_keys m t due) x) fl m since (d\<lparr>audit_log := l\<rparr>) u = tenant_due ks fl m since d u"
proof -
  have "marked ks (due_keys m t due) x (marker_key (t_id u) m n) = ks (marker_key (t_id u) m n)" for n
    using assms by (auto simp: marked_def due_keys_def marker_key_tenant)
  then show ?thesis by (simp add: tenant_due_def thresholds_due_def)
qed

lemma find_SomeE:
  assumes "List.find P xs = Some x"
  obtains us vs where "xs = us @ x # vs" "P x" "\<And>u. u \<in> set us \<Longrightarrow> \<not> P u"
proof -
  have "\<exists>us vs. xs = us @ x # vs \<and> P x \<and> (\<forall>u \<in> set us. \<not> P u)"
    using assms
  proof (induction xs)
    case (Cons y ys)
    then show ?case
    proof (cases "P y")
      case False
      with Cons obtain us vs where "ys = us @ x # vs" "P x" "\<forall>u \<in> set us. \<not> P u" by auto
      with False show ?thesis by (intro exI [of _ "y # us"] exI [of _ vs]) simp
    qed (auto intro: exI [of _ "[]"])
  qed simp
  with that show ?thesis by blast
qed

text \<open>All the events the tenants of a database are due, tenant after tenant.\<close>

definition events_due :: "keyspace \<Rightarrow> (rat \<Rightarrow> rat) \<Rightarrow> string \<Rightarrow> datetime \<Rightarrow> db \<Rightarrow> (uuid option \<times> string \<times> json) list" where
  "events_due ks fl m since d =
     concat (map (\<lambda>t. alert_events t (month_spend d (t_id t) since) (tenant_due ks fl m since d t)) (filter t_is_active (tenants d)))"

definition due_tenants :: "keyspace \<Rightarrow> (rat \<Rightarrow> rat) \<Rightarrow> string \<Rightarrow> datetime \<Rightarrow> db \<Rightarrow> Tenant list" where
  "due_tenants ks fl m since d = filter (\<lambda>t. tenant_due ks fl m since d t \<noteq> []) (filter t_is_active (tenants d))"

lemma concat_map_nil: "concat (map (\<lambda>x. []) xs) = []"
  by (induction xs) simp_all

lemma due_after_first:
  fixes x :: rat
  assumes "List.find (\<lambda>t. tenant_due ks fl m since d t \<noteq> []) (filter t_is_active (tenants d)) = Some t" "distinct (map t_id (tenants d))"
  defines "ks' \<equiv> marked ks (due_keys m t (tenant_due ks fl m since d t)) x"
  shows "due_tenants ks fl m since d = t # due_tenants ks' fl m since (d\<lparr>audit_log := l\<rparr>)"
    and "events_due ks fl m since d = alert_events t (month_spend d (t_id t) since) (tenant_due ks fl m since d t)
           @ events_due ks' fl m since (d\<lparr>audit_log := l\<rparr>)"
proof -
  obtain us vs where ts: "filter t_is_active (tenants d) = us @ t # vs" and t: "tenant_due ks fl m since d t \<noteq> []"
    and us: "\<And>u. u \<in> set us \<Longrightarrow> tenant_due ks fl m since d u = []"
    using assms(1) by (rule find_SomeE) auto
  have "distinct (map t_id (us @ t # vs))" using assms(2) unfolding ts [symmetric] by (rule distinct_map_filter)
  then have ids: "t_id u \<noteq> t_id t" if "u \<in> set us \<union> set vs" for u using that by (auto simp: image_iff)
  have D: "tenant_due ks' fl m since (d\<lparr>audit_log := l\<rparr>) t = []"
    "\<And>u. u \<in> set us \<union> set vs \<Longrightarrow> tenant_due ks' fl m since (d\<lparr>audit_log := l\<rparr>) u = tenant_due ks fl m since d u"
    unfolding ks'_def by (rule tenant_due_marked_same) (rule tenant_due_marked_other [OF ids])
  have ts': "filter t_is_active (tenants (d\<lparr>audit_log := l\<rparr>)) = us @ t # vs" using ts by simp
  have f: "filter (\<lambda>u. tenant_due ks' fl m since (d\<lparr>audit_log := l\<rparr>) u \<noteq> []) us = []"
      "filter (\<lambda>u. tenant_due ks fl m since d u \<noteq> []) us = []"
      "filter (\<lambda>u. tenant_due ks' fl m since (d\<lparr>audit_log := l\<rparr>) u \<noteq> []) vs = filter (\<lambda>u. tenant_due ks fl m since d u \<noteq> []) vs"
    using us D(2) by (auto simp: filter_empty_conv intro: filter_cong)
  show "due_tenants ks fl m since d = t # due_tenants ks' fl m since (d\<lparr>audit_log := l\<rparr>)"
    unfolding due_tenants_def ts ts' using t D(1) f by simp
  show "events_due ks fl m since d = alert_events t (month_spend d (t_id t) since) (tenant_due ks fl m since d t)
           @ events_due ks' fl m since (d\<lparr>audit_log := l\<rparr>)"
    unfolding events_due_def ts ts' using us D by (simp add: concat_map_nil cong: map_cong)
qed

text \<open>
  C29. Every due alert is eventually written, and only once. Run one scan after another within one
  month, while no marker expires and nothing else is written: after as many scans as there were
  tenants due an alert, the audit log has grown by exactly the events that were due at the start,
  tenant after tenant, the rest of the database is as it was, and no tenant is due an alert any
  more.
\<close>

theorem budget_alerts_eventually:
  assumes "redis_server R entry now" "zero_below fl" "distinct (map t_id (tenants d))"
    and "\<forall>s \<in> set ss. db_user s = App \<and> month_key (clock s) = m \<and> month_start (clock s) = since"
    and "length (due_tenants (entry r) fl m since d) \<le> length ss"
  shows "case run_scans R fl ss r d of (r', d') \<Rightarrow>
     (\<exists>rows. d' = d\<lparr>audit_log := audit_log d @ rows\<rparr> \<and> map event_of rows = events_due (entry r) fl m since d)
     \<and> due_tenants (entry r') fl m since d' = []"
  using assms(3-5)
proof (induction ss arbitrary: r d)
  case Nil
  then have "due_tenants (entry r) fl m since d = []" by simp
  then have "events_due (entry r) fl m since d = []"
    by (auto simp: due_tenants_def events_due_def filter_empty_conv alert_events_def concat_eq_Nil_conv)
  with \<open>due_tenants _ _ _ _ _ = []\<close> show ?case by (auto intro: exI [of _ "[]"])
next
  case (Cons s ss)
  let ?s = "s\<lparr>committed := d, working := d, pending := []\<rparr>"
  let ?D = "tenant_due (entry r) fl m since d"
  have dd: "committed ?s = d" by simp
  have c: "db_user ?s = App" "pending ?s = []" "working ?s = committed ?s" "month_key (clock ?s) = m" "month_start (clock ?s) = since"
    using Cons.prems(2) by simp_all
  obtain r1 s1 where run: "budget_threshold_scan R fl r ?s = (Inr (), r1, s1)"
    and out: "case List.find (\<lambda>t. ?D t \<noteq> []) (filter t_is_active (tenants d)) of
        None \<Rightarrow> committed s1 = d \<and> entry r1 = entry r
      | Some t \<Rightarrow>
          (\<exists>rows. committed s1 = d\<lparr>audit_log := audit_log d @ rows\<rparr>
             \<and> map event_of rows = alert_events t (month_spend d (t_id t) since) (?D t))
          \<and> entry r1 = marked (entry r) (due_keys m t (?D t)) (now r + of_int BUDGET_ALERT_MARKER_TTL_SECONDS)"
    using budget_threshold_scan_eval [OF assms(1) c(1-3) assms(2), of r] unfolding c(4,5) unfolding dd by blast
  have step: "run_scans R fl (s # ss) r d = run_scans R fl ss r1 (committed s1)" by (simp add: run)
  have ss: "\<forall>s \<in> set ss. db_user s = App \<and> month_key (clock s) = m \<and> month_start (clock s) = since" using Cons.prems(2) by simp
  show ?case
  proof (cases "List.find (\<lambda>t. ?D t \<noteq> []) (filter t_is_active (tenants d))")
    case None
    then have "committed s1 = d" "entry r1 = entry r" using out by simp_all
    moreover have "due_tenants (entry r) fl m since d = []"
      using None by (auto simp: find_None_iff due_tenants_def filter_empty_conv)
    ultimately show ?thesis unfolding step using Cons.IH [of d r1] ss Cons.prems(1) by simp
  next
    case (Some t)
    then obtain rows where rows: "committed s1 = d\<lparr>audit_log := audit_log d @ rows\<rparr>"
      "map event_of rows = alert_events t (month_spend d (t_id t) since) (?D t)"
      and e: "entry r1 = marked (entry r) (due_keys m t (?D t)) (now r + of_int BUDGET_ALERT_MARKER_TTL_SECONDS)"
      using out by auto
    note after = due_after_first [OF Some Cons.prems(1), of "now r + of_int BUDGET_ALERT_MARKER_TTL_SECONDS" "audit_log d @ rows", folded e rows(1)]
    obtain r' d' where end': "run_scans R fl ss r1 (committed s1) = (r', d')" by (cases "run_scans R fl ss r1 (committed s1)")
    have "distinct (map t_id (tenants (committed s1)))" "length (due_tenants (entry r1) fl m since (committed s1)) \<le> length ss"
      using Cons.prems(1,3) after(1) by (simp_all add: rows(1))
    from Cons.IH [OF this(1) ss this(2)] obtain rows' where rows': "d' = (committed s1)\<lparr>audit_log := audit_log (committed s1) @ rows'\<rparr>"
      "map event_of rows' = events_due (entry r1) fl m since (committed s1)" "due_tenants (entry r') fl m since d' = []"
      by (auto simp: end')
    have "d' = d\<lparr>audit_log := audit_log d @ (rows @ rows')\<rparr>" "map event_of (rows @ rows') = events_due (entry r) fl m since d"
      using rows rows'(1,2) after(2) by simp_all
    then show ?thesis unfolding step end' using rows'(3) by auto
  qed
qed

theorem budget_alerts_eventually_witness:
  "map al_tenant_id (audit_log (snd (run_scans mem_redis id [demo_job, demo_job] mem_empty (committed demo_job)))) = [Some 1, Some 2]"
proof -
  let ?m = "month_key (clock demo_job)" and ?since = "month_start (clock demo_job)"
  have pre: "zero_below id" "distinct (map t_id (tenants (committed demo_job)))" "audit_log (committed demo_job) = []"
      "\<forall>s \<in> set [demo_job, demo_job]. db_user s = App \<and> month_key (clock s) = ?m \<and> month_start (clock s) = ?since"
    by (simp_all add: zero_below_def demo_job_def open_session_def demo_usage_db_def demo_db_def empty_db_def demo_row_def)
  have due: "length (due_tenants (mem_entry mem_empty) id ?m ?since (committed demo_job)) \<le> length [demo_job, demo_job]"
    "map fst (events_due (mem_entry mem_empty) id ?m ?since (committed demo_job)) = [Some 1, Some 2]"
    by (simp_all add: due_tenants_def events_due_def demo_tenants demo_due alert_events_def)
  obtain r' d' where run: "run_scans mem_redis id [demo_job, demo_job] mem_empty (committed demo_job) = (r', d')" by fastforce
  from budget_alerts_eventually [OF mem_server.redis_server_axioms pre(1,2,4) due(1), unfolded run]
  obtain rows where d': "d' = (committed demo_job)\<lparr>audit_log := audit_log (committed demo_job) @ rows\<rparr>"
    and rows: "map event_of rows = events_due (mem_entry mem_empty) id ?m ?since (committed demo_job)"
    unfolding prod.case by blast
  have "audit_log d' = rows" by (simp add: d' pre(3))
  moreover have "map al_tenant_id rows = map fst (map event_of rows)" by (simp add: event_of_def)
  ultimately show ?thesis unfolding run snd_conv rows due(2) by simp
qed

end
