(* ===== verification/Migrations.thy ===== *)
theory Migrations
  imports Database
begin

text \<open>
  \<^verbatim>\<open>alembic/versions\<close>: the five migrations as lists of operations on a schema, upgrade and downgrade, with
  the conditions under which PostgreSQL refuses an operation; and the tables as \<^verbatim>\<open>db/models.py\<close>
  declares them. A check condition and a server default are kept as their texts. The theorems: moving
  up and down the chain is reversible, the migrated schema agrees with the declarations, and the
  privileges and policies it sets up are the ones the database model works with.
\<close>

section \<open>Schemas\<close>

datatype sqltype = SUuid | SString nat | SNumeric nat nat | SBoolean | SInteger | SFloat | SDateTime | SJsonb | SStringArray

record column =
  col_name :: string
  col_type :: sqltype
  col_nullable :: bool
  col_primary_key :: bool
  col_unique :: bool
  col_fk :: "(string \<times> string) option"
  col_default :: "string option"

record index =
  ix_name :: string
  ix_columns :: "string list"
  ix_unique :: bool

record table =
  tb_name :: string
  tb_columns :: "column list"
  tb_checks :: "(string \<times> string) list"
  tb_uniques :: "(string \<times> string list) list"
  tb_indexes :: "index list"
  tb_rls :: bool
  tb_policies :: "string list"
  tb_grants :: "(string \<times> string) list"

record schema =
  sc_tables :: "table list"
  sc_roles :: "string list"
  sc_connect :: "string list"
  sc_usage :: "string list"

text \<open>\<open>sa.Column\<close> without options; a primary key is not nullable.\<close>

definition Column :: "string \<Rightarrow> sqltype \<Rightarrow> column" where
  "Column n ty = \<lparr>col_name = n, col_type = ty, col_nullable = True, col_primary_key = False, col_unique = False,
     col_fk = None, col_default = None\<rparr>"

definition required :: "column \<Rightarrow> column" where
  "required c = c\<lparr>col_nullable := False\<rparr>"

definition primary_key :: "column \<Rightarrow> column" where
  "primary_key c = c\<lparr>col_primary_key := True, col_nullable := False\<rparr>"

definition unique :: "column \<Rightarrow> column" where
  "unique c = c\<lparr>col_unique := True\<rparr>"

definition references :: "string \<Rightarrow> string \<Rightarrow> column \<Rightarrow> column" where
  "references target ondelete c = c\<lparr>col_fk := Some (target, ondelete)\<rparr>"

definition server_default :: "string \<Rightarrow> column \<Rightarrow> column" where
  "server_default d c = c\<lparr>col_default := Some d\<rparr>"

section \<open>Operations\<close>

datatype op =
    Create_table string "column list" "(string \<times> string) list" "(string \<times> string list) list"
  | Drop_table string
  | Create_index string string "string list" bool
  | Add_column string column
  | Drop_column string string
  | Create_check_constraint string string string
  | Drop_check_constraint string string
  | Create_role_if_missing string
  | Drop_role_if_exists string
  | Grant_connect string
  | Revoke_connect string
  | Grant_usage string
  | Revoke_usage string
  | Grant "string list" string string
  | Revoke_all string string
  | Enable_rls string
  | Disable_rls string
  | Create_policy string string
  | Drop_policy_if_exists string string

definition the_table :: "string \<Rightarrow> schema \<Rightarrow> table option" where
  "the_table n sc = List.find (\<lambda>t. tb_name t = n) (sc_tables sc)"

text \<open>An operation on one table: refused when the table is missing or the condition does not hold.\<close>

definition alter :: "string \<Rightarrow> (table \<Rightarrow> bool) \<Rightarrow> (table \<Rightarrow> table) \<Rightarrow> schema \<Rightarrow> schema option" where
  "alter n ok f sc =
     (case the_table n sc of
        None \<Rightarrow> None
      | Some t \<Rightarrow> if ok t then Some (sc\<lparr>sc_tables := map (\<lambda>u. if tb_name u = n then f u else u) (sc_tables sc)\<rparr>) else None)"

definition has_column :: "string \<Rightarrow> table \<Rightarrow> bool" where
  "has_column c t \<longleftrightarrow> list_ex (\<lambda>x. col_name x = c) (tb_columns t)"

definition holds_privilege :: "string \<Rightarrow> schema \<Rightarrow> bool" where
  "holds_privilege r sc \<longleftrightarrow> list_ex (\<lambda>t. list_ex (\<lambda>g. snd g = r) (tb_grants t)) (sc_tables sc)
     \<or> r \<in> set (sc_connect sc) \<or> r \<in> set (sc_usage sc)"

definition referenced :: "string \<Rightarrow> schema \<Rightarrow> bool" where
  "referenced n sc \<longleftrightarrow> list_ex (\<lambda>t. tb_name t \<noteq> n \<and> list_ex (\<lambda>c. map_option fst (col_fk c) = Some n) (tb_columns t)) (sc_tables sc)"

text \<open>
  \<open>populated\<close> says whether the tables have rows: then a column that must not be null can only be
  added with a default. A role that holds a privilege cannot be dropped, nor a table another one
  refers to.
\<close>

fun exec_op :: "bool \<Rightarrow> op \<Rightarrow> schema \<Rightarrow> schema option" where
  "exec_op populated (Create_table n cs chs us) sc =
     (if the_table n sc \<noteq> None then None
      else Some (sc\<lparr>sc_tables := sc_tables sc @ [\<lparr>tb_name = n, tb_columns = cs, tb_checks = chs, tb_uniques = us,
             tb_indexes = [], tb_rls = False, tb_policies = [], tb_grants = []\<rparr>]\<rparr>))"
| "exec_op populated (Drop_table n) sc =
     (if the_table n sc = None \<or> referenced n sc then None
      else Some (sc\<lparr>sc_tables := filter (\<lambda>t. tb_name t \<noteq> n) (sc_tables sc)\<rparr>))"
| "exec_op populated (Create_index i n cs u) sc =
     (if list_ex (\<lambda>t. list_ex (\<lambda>x. ix_name x = i) (tb_indexes t)) (sc_tables sc) then None
      else alter n (\<lambda>t. list_all (\<lambda>c. has_column c t) cs)
             (\<lambda>t. t\<lparr>tb_indexes := tb_indexes t @ [\<lparr>ix_name = i, ix_columns = cs, ix_unique = u\<rparr>]\<rparr>) sc)"
| "exec_op populated (Add_column n c) sc =
     alter n (\<lambda>t. \<not> has_column (col_name c) t \<and> (populated \<longrightarrow> col_nullable c \<or> col_default c \<noteq> None))
       (\<lambda>t. t\<lparr>tb_columns := tb_columns t @ [c]\<rparr>) sc"
| "exec_op populated (Drop_column n c) sc =
     alter n (has_column c) (\<lambda>t. t\<lparr>tb_columns := filter (\<lambda>x. col_name x \<noteq> c) (tb_columns t)\<rparr>) sc"
| "exec_op populated (Create_check_constraint i n cond) sc =
     alter n (\<lambda>t. i \<notin> set (map fst (tb_checks t))) (\<lambda>t. t\<lparr>tb_checks := tb_checks t @ [(i, cond)]\<rparr>) sc"
| "exec_op populated (Drop_check_constraint i n) sc =
     alter n (\<lambda>t. i \<in> set (map fst (tb_checks t))) (\<lambda>t. t\<lparr>tb_checks := filter (\<lambda>x. fst x \<noteq> i) (tb_checks t)\<rparr>) sc"
| "exec_op populated (Create_role_if_missing r) sc =
     Some (if r \<in> set (sc_roles sc) then sc else sc\<lparr>sc_roles := sc_roles sc @ [r]\<rparr>)"
| "exec_op populated (Drop_role_if_exists r) sc =
     (if r \<in> set (sc_roles sc) \<and> holds_privilege r sc then None
      else Some (sc\<lparr>sc_roles := filter (\<lambda>x. x \<noteq> r) (sc_roles sc)\<rparr>))"
| "exec_op populated (Grant_connect r) sc =
     (if r \<notin> set (sc_roles sc) then None else Some (sc\<lparr>sc_connect := sc_connect sc @ [r]\<rparr>))"
| "exec_op populated (Revoke_connect r) sc =
     (if r \<notin> set (sc_roles sc) then None else Some (sc\<lparr>sc_connect := filter (\<lambda>x. x \<noteq> r) (sc_connect sc)\<rparr>))"
| "exec_op populated (Grant_usage r) sc =
     (if r \<notin> set (sc_roles sc) then None else Some (sc\<lparr>sc_usage := sc_usage sc @ [r]\<rparr>))"
| "exec_op populated (Revoke_usage r) sc =
     (if r \<notin> set (sc_roles sc) then None else Some (sc\<lparr>sc_usage := filter (\<lambda>x. x \<noteq> r) (sc_usage sc)\<rparr>))"
| "exec_op populated (Grant ps n r) sc =
     (if r \<notin> set (sc_roles sc) then None
      else alter n (\<lambda>_. True) (\<lambda>t. t\<lparr>tb_grants := tb_grants t @ map (\<lambda>p. (p, r)) ps\<rparr>) sc)"
| "exec_op populated (Revoke_all n r) sc =
     (if r \<notin> set (sc_roles sc) then None
      else alter n (\<lambda>_. True) (\<lambda>t. t\<lparr>tb_grants := filter (\<lambda>g. snd g \<noteq> r) (tb_grants t)\<rparr>) sc)"
| "exec_op populated (Enable_rls n) sc = alter n (\<lambda>_. True) (\<lambda>t. t\<lparr>tb_rls := True\<rparr>) sc"
| "exec_op populated (Disable_rls n) sc = alter n (\<lambda>_. True) (\<lambda>t. t\<lparr>tb_rls := False\<rparr>) sc"
| "exec_op populated (Create_policy p n) sc =
     alter n (\<lambda>t. p \<notin> set (tb_policies t)) (\<lambda>t. t\<lparr>tb_policies := tb_policies t @ [p]\<rparr>) sc"
| "exec_op populated (Drop_policy_if_exists p n) sc =
     alter n (\<lambda>_. True) (\<lambda>t. t\<lparr>tb_policies := filter (\<lambda>x. x \<noteq> p) (tb_policies t)\<rparr>) sc"

fun run_ops :: "bool \<Rightarrow> op list \<Rightarrow> schema \<Rightarrow> schema option" where
  "run_ops populated [] sc = Some sc"
| "run_ops populated (x # xs) sc = Option.bind (exec_op populated x sc) (run_ops populated xs)"

section \<open>The migrations\<close>

definition APP_ROLE :: string where
  "APP_ROLE = ''aegis_app''"

definition tenant_fk :: "string \<Rightarrow> column" where
  "tenant_fk ondelete = references ''tenants'' ondelete (Column ''tenant_id'' SUuid)"

definition created_at_column :: column where
  "created_at_column = server_default ''now()'' (Column ''created_at'' SDateTime)"

definition protect :: "string \<Rightarrow> op list" where
  "protect n = [Enable_rls n, Create_policy ''tenant_isolation'' n]"

definition unprotect :: "string \<Rightarrow> op list" where
  "unprotect n = [Drop_policy_if_exists ''tenant_isolation'' n, Disable_rls n]"

definition upgrade_0001 :: "op list" where
  "upgrade_0001 =
     [Create_table ''tenants''
        [primary_key (Column ''id'' SUuid),
         unique (required (Column ''name'' (SString 255))),
         server_default ''100.00'' (required (Column ''monthly_budget_usd'' (SNumeric 10 2))),
         server_default ''true'' (required (Column ''is_active'' SBoolean)),
         created_at_column] [] [],
      Create_index ''ix_tenants_name'' ''tenants'' [''name''] False,
      Create_table ''api_keys''
        [primary_key (Column ''id'' SUuid),
         required (tenant_fk ''CASCADE''),
         unique (required (Column ''key_id'' (SString 16))),
         required (Column ''hashed_secret'' (SString 64)),
         required (Column ''name'' (SString 255)),
         server_default ''{}'' (required (Column ''scopes'' SStringArray)),
         created_at_column,
         Column ''revoked_at'' SDateTime,
         Column ''last_used_at'' SDateTime] [] [],
      Create_index ''ix_api_keys_tenant_id'' ''api_keys'' [''tenant_id''] False,
      Create_index ''ix_api_keys_key_id'' ''api_keys'' [''key_id''] True,
      Create_table ''admin_users''
        [primary_key (Column ''id'' SUuid),
         unique (required (Column ''email'' (SString 255))),
         required (Column ''hashed_password'' (SString 255)),
         server_default ''false'' (required (Column ''is_superuser'' SBoolean)),
         created_at_column] [] [],
      Create_index ''ix_admin_users_email'' ''admin_users'' [''email''] True,
      Create_table ''audit_log''
        [primary_key (Column ''id'' SUuid),
         tenant_fk ''SET NULL'',
         required (Column ''event_type'' (SString 64)),
         Column ''correlation_id'' (SString 64),
         server_default ''{}'' (required (Column ''detail'' SJsonb)),
         created_at_column] [] [],
      Create_index ''ix_audit_log_tenant_id'' ''audit_log'' [''tenant_id''] False,
      Create_index ''ix_audit_log_event_type'' ''audit_log'' [''event_type''] False,
      Create_role_if_missing APP_ROLE,
      Grant_connect APP_ROLE,
      Grant_usage APP_ROLE,
      Grant [''SELECT'', ''INSERT'', ''UPDATE''] ''tenants'' APP_ROLE,
      Grant [''SELECT'', ''INSERT'', ''UPDATE''] ''api_keys'' APP_ROLE,
      Grant [''SELECT'', ''UPDATE''] ''admin_users'' APP_ROLE,
      Grant [''SELECT'', ''INSERT''] ''audit_log'' APP_ROLE]
     @ concat (map protect [''api_keys'', ''audit_log''])"

definition downgrade_0001 :: "op list" where
  "downgrade_0001 =
     concat (map unprotect [''api_keys'', ''audit_log'']) @
     [Revoke_all ''audit_log'' APP_ROLE,
      Revoke_all ''admin_users'' APP_ROLE,
      Revoke_all ''api_keys'' APP_ROLE,
      Revoke_all ''tenants'' APP_ROLE,
      Revoke_usage APP_ROLE,
      Revoke_connect APP_ROLE,
      Drop_role_if_exists APP_ROLE,
      Drop_table ''audit_log'',
      Drop_table ''admin_users'',
      Drop_table ''api_keys'',
      Drop_table ''tenants'']"

definition upgrade_0002 :: "op list" where
  "upgrade_0002 =
     [Add_column ''tenants'' (server_default ''60'' (required (Column ''rate_limit_rpm'' SInteger))),
      Add_column ''tenants'' (server_default ''100000'' (required (Column ''rate_limit_tpm'' SInteger))),
      Add_column ''tenants'' (server_default ''5'' (required (Column ''max_concurrent_requests'' SInteger)))]"

definition downgrade_0002 :: "op list" where
  "downgrade_0002 =
     [Drop_column ''tenants'' ''max_concurrent_requests'',
      Drop_column ''tenants'' ''rate_limit_tpm'',
      Drop_column ''tenants'' ''rate_limit_rpm'']"

definition upgrade_0003 :: "op list" where
  "upgrade_0003 =
     [Add_column ''tenants'' (server_default ''true'' (required (Column ''pii_redaction_enabled'' SBoolean))),
      Add_column ''tenants'' (server_default ''true'' (required (Column ''injection_detection_enabled'' SBoolean))),
      Add_column ''tenants'' (server_default ''0.75'' (required (Column ''injection_detection_threshold'' SFloat))),
      Add_column ''tenants'' (server_default ''block'' (required (Column ''injection_detection_mode'' (SString 16)))),
      Create_check_constraint ''ck_tenants_injection_detection_mode'' ''tenants''
        ''injection_detection_mode IN ('block', 'log')'']"

definition downgrade_0003 :: "op list" where
  "downgrade_0003 =
     [Drop_check_constraint ''ck_tenants_injection_detection_mode'' ''tenants'',
      Drop_column ''tenants'' ''injection_detection_mode'',
      Drop_column ''tenants'' ''injection_detection_threshold'',
      Drop_column ''tenants'' ''injection_detection_enabled'',
      Drop_column ''tenants'' ''pii_redaction_enabled'']"

definition upgrade_0004 :: "op list" where
  "upgrade_0004 = [Add_column ''tenants'' (server_default ''true'' (required (Column ''cache_enabled'' SBoolean)))]"

definition downgrade_0004 :: "op list" where
  "downgrade_0004 = [Drop_column ''tenants'' ''cache_enabled'']"

definition upgrade_0005 :: "op list" where
  "upgrade_0005 =
     [Create_table ''usage_records''
        [primary_key (Column ''id'' SUuid),
         required (tenant_fk ''CASCADE''),
         required (Column ''api_key_id'' (SString 16)),
         required (Column ''provider'' (SString 32)),
         required (Column ''model'' (SString 128)),
         required (Column ''prompt_tokens'' SInteger),
         required (Column ''completion_tokens'' SInteger),
         required (Column ''total_tokens'' SInteger),
         required (Column ''cost_usd'' (SNumeric 12 6)),
         server_default ''false'' (required (Column ''cache_hit'' SBoolean)),
         Column ''correlation_id'' (SString 64),
         created_at_column] [] [],
      Create_index ''ix_usage_records_tenant_id'' ''usage_records'' [''tenant_id''] False,
      Create_index ''ix_usage_records_tenant_created'' ''usage_records'' [''tenant_id'', ''created_at''] False,
      Create_table ''usage_rollups''
        [primary_key (Column ''id'' SUuid),
         required (tenant_fk ''CASCADE''),
         required (Column ''period_type'' (SString 8)),
         required (Column ''period_start'' SDateTime),
         required (Column ''request_count'' SInteger),
         required (Column ''cache_hit_count'' SInteger),
         required (Column ''prompt_tokens'' SInteger),
         required (Column ''completion_tokens'' SInteger),
         required (Column ''total_tokens'' SInteger),
         required (Column ''cost_usd'' (SNumeric 12 6)),
         created_at_column]
        [(''ck_usage_rollups_period_type'', ''period_type IN ('hourly', 'daily')'')]
        [(''uq_usage_rollups_period'', [''tenant_id'', ''period_type'', ''period_start''])],
      Create_index ''ix_usage_rollups_tenant_id'' ''usage_rollups'' [''tenant_id''] False,
      Create_index ''ix_usage_rollups_period_start'' ''usage_rollups'' [''period_start''] False,
      Grant [''SELECT'', ''INSERT''] ''usage_records'' APP_ROLE,
      Grant [''SELECT'', ''INSERT'', ''UPDATE''] ''usage_rollups'' APP_ROLE]
     @ concat (map protect [''usage_records'', ''usage_rollups''])"

definition downgrade_0005 :: "op list" where
  "downgrade_0005 =
     concat (map unprotect [''usage_records'', ''usage_rollups'']) @
     [Revoke_all ''usage_rollups'' APP_ROLE,
      Revoke_all ''usage_records'' APP_ROLE,
      Drop_table ''usage_rollups'',
      Drop_table ''usage_records'']"

definition revisions :: "(op list \<times> op list) list" where
  "revisions = [(upgrade_0001, downgrade_0001), (upgrade_0002, downgrade_0002), (upgrade_0003, downgrade_0003),
     (upgrade_0004, downgrade_0004), (upgrade_0005, downgrade_0005)]"

text \<open>A new database of a cluster that has only the owner's role.\<close>

definition new_database :: schema where
  "new_database = \<lparr>sc_tables = [], sc_roles = [''aegis''], sc_connect = [], sc_usage = []\<rparr>"

section \<open>Moving along the chain\<close>

text \<open>The schema after the first \<open>k\<close> upgrades of a new database.\<close>

fun schema_at :: "nat \<Rightarrow> schema" where
  "schema_at 0 = new_database"
| "schema_at (Suc k) = the (run_ops True (fst (revisions ! k)) (schema_at k))"

text \<open>
  \<open>alembic upgrade\<close> and \<open>alembic downgrade\<close>, one revision at a time, on tables that have rows or
  none.
\<close>

inductive migrated :: "nat \<Rightarrow> schema \<Rightarrow> bool" where
  start: "migrated 0 new_database"
| upgrade: "migrated k sc \<Longrightarrow> k < length revisions \<Longrightarrow> run_ops populated (fst (revisions ! k)) sc = Some sc' \<Longrightarrow> migrated (Suc k) sc'"
| downgrade: "migrated (Suc k) sc \<Longrightarrow> run_ops populated (snd (revisions ! k)) sc = Some sc' \<Longrightarrow> migrated k sc'"

inductive_cases migrated_Suc: "migrated (Suc k) sc"

declare schema_at.simps [simp del]

fun check_chain :: "(op list \<times> op list) list \<Rightarrow> schema \<Rightarrow> bool" where
  "check_chain [] sc \<longleftrightarrow> True"
| "check_chain ((up, down) # rs) sc \<longleftrightarrow>
     (case run_ops True up sc of None \<Rightarrow> False | Some sc' \<Rightarrow> run_ops True down sc' = Some sc \<and> check_chain rs sc')"

lemma check_revisions: "check_chain revisions new_database"
  by code_simp

lemma length_revisions: "length revisions = 5"
  by (simp add: revisions_def)

lemma exec_op_populated: "exec_op True x sc = Some sc' \<Longrightarrow> exec_op p x sc = Some sc'"
  by (cases p; cases x) (auto simp: alter_def split: option.splits if_splits)

lemma run_ops_populated: "run_ops True xs sc = Some sc' \<Longrightarrow> run_ops p xs sc = Some sc'"
  by (induction xs arbitrary: sc) (auto simp: bind_eq_Some_conv dest!: exec_op_populated [where p = p])

lemma check_chain_step:
  assumes "check_chain (drop k revisions) (schema_at k)" "k < 5"
  shows "run_ops True (fst (revisions ! k)) (schema_at k) = Some (schema_at (Suc k))"
    and "run_ops True (snd (revisions ! k)) (schema_at (Suc k)) = Some (schema_at k)"
    and "check_chain (drop (Suc k) revisions) (schema_at (Suc k))"
proof -
  obtain up down where rev: "revisions ! k = (up, down)" by (cases "revisions ! k")
  have "drop k revisions = (up, down) # drop (Suc k) revisions"
    using Cons_nth_drop_Suc [of k revisions] assms(2) rev by (simp add: length_revisions)
  with assms(1) obtain sc' where "run_ops True up (schema_at k) = Some sc'" "run_ops True down sc' = Some (schema_at k)"
    "check_chain (drop (Suc k) revisions) sc'" by (auto split: option.splits)
  then show "run_ops True (fst (revisions ! k)) (schema_at k) = Some (schema_at (Suc k))"
    "run_ops True (snd (revisions ! k)) (schema_at (Suc k)) = Some (schema_at k)"
    "check_chain (drop (Suc k) revisions) (schema_at (Suc k))" by (simp_all add: rev schema_at.simps)
qed

lemma check_chain_at: "k \<le> 5 \<Longrightarrow> check_chain (drop k revisions) (schema_at k)"
  by (induction k) (use check_revisions check_chain_step(3) in \<open>simp_all add: schema_at.simps(1)\<close>)

lemma up_down_at:
  assumes "k < 5"
  shows "run_ops p (fst (revisions ! k)) (schema_at k) = Some (schema_at (Suc k))"
    "run_ops p (snd (revisions ! k)) (schema_at (Suc k)) = Some (schema_at k)"
proof -
  have "k \<le> 5" using assms by simp
  note step = check_chain_step [OF check_chain_at [OF this] assms]
  show "run_ops p (fst (revisions ! k)) (schema_at k) = Some (schema_at (Suc k))"
    "run_ops p (snd (revisions ! k)) (schema_at (Suc k)) = Some (schema_at k)"
    by (rule run_ops_populated, rule step)+
qed

lemma migrated_schema: "migrated k sc \<Longrightarrow> k \<le> 5 \<and> sc = schema_at k"
proof (induction rule: migrated.induct)
  case (upgrade k sc populated sc')
  then show ?case using up_down_at(1) [of k populated] by (simp add: length_revisions)
next
  case (downgrade k sc populated sc')
  then show ?case using up_down_at(2) [of k populated] by simp
qed (simp add: schema_at.simps)

text \<open>
  C19. The migrations can be walked in any order: however often a new database has been upgraded
  and downgraded, with or without rows in its tables, its schema is the one of its revision, and
  the next upgrade and the next downgrade both succeed and lead to the neighbouring revision's
  schema, back to the new database itself at the end.
\<close>

theorem migrations_reversible:
  assumes "migrated k sc"
  shows "sc = schema_at k \<and> k \<le> length revisions
     \<and> (k < length revisions \<longrightarrow> run_ops populated (fst (revisions ! k)) sc = Some (schema_at (Suc k)))
     \<and> (\<forall>j. k = Suc j \<longrightarrow> run_ops populated (snd (revisions ! j)) sc = Some (schema_at j))"
  using migrated_schema [OF assms] up_down_at by (auto simp: length_revisions)

theorem migrations_reversible_witness:
  "run_ops True downgrade_0001 (schema_at 1) = Some new_database"
proof -
  have "migrated 1 (schema_at 1)"
    using migrated.upgrade [OF migrated.start, of True "schema_at 1"] up_down_at(1) [of 0 True] by (simp add: length_revisions schema_at.simps(1))
  from migrations_reversible [OF this, of True] show ?thesis by (simp add: revisions_def schema_at.simps(1))
qed

section \<open>The declared tables\<close>

text \<open>
  \<open>mapped_column\<close>: a column is nullable exactly when its annotation is optional; a unique indexed
  column gets a unique index.
\<close>

definition orm_table :: "string \<Rightarrow> column list \<Rightarrow> (string \<times> string) list \<Rightarrow> (string \<times> string list) list \<Rightarrow> index list \<Rightarrow> table" where
  "orm_table n cs chs us ixs = \<lparr>tb_name = n, tb_columns = cs, tb_checks = chs, tb_uniques = us, tb_indexes = ixs,
     tb_rls = False, tb_policies = [], tb_grants = []\<rparr>"

definition orm_index :: "string \<Rightarrow> string \<Rightarrow> bool \<Rightarrow> index" where
  "orm_index n c u = \<lparr>ix_name = ''ix_'' @ n @ ''_'' @ c, ix_columns = [c], ix_unique = u\<rparr>"

definition orm_created_at :: column where
  "orm_created_at = required created_at_column"

definition tenants_model :: table where
  "tenants_model = orm_table ''tenants''
     [primary_key (Column ''id'' SUuid), required (Column ''name'' (SString 255)),
      required (Column ''monthly_budget_usd'' (SNumeric 10 2)), required (Column ''rate_limit_rpm'' SInteger),
      required (Column ''rate_limit_tpm'' SInteger), required (Column ''max_concurrent_requests'' SInteger),
      required (Column ''pii_redaction_enabled'' SBoolean), required (Column ''injection_detection_enabled'' SBoolean),
      required (Column ''injection_detection_threshold'' SFloat), required (Column ''injection_detection_mode'' (SString 16)),
      required (Column ''cache_enabled'' SBoolean), required (Column ''is_active'' SBoolean), orm_created_at]
     [] [] [orm_index ''tenants'' ''name'' True]"

definition api_keys_model :: table where
  "api_keys_model = orm_table ''api_keys''
     [primary_key (Column ''id'' SUuid), required (tenant_fk ''CASCADE''), required (Column ''key_id'' (SString 16)),
      required (Column ''hashed_secret'' (SString 64)), required (Column ''name'' (SString 255)),
      required (Column ''scopes'' SStringArray), orm_created_at, Column ''revoked_at'' SDateTime,
      Column ''last_used_at'' SDateTime]
     [] [] [orm_index ''api_keys'' ''tenant_id'' False, orm_index ''api_keys'' ''key_id'' True]"

definition admin_users_model :: table where
  "admin_users_model = orm_table ''admin_users''
     [primary_key (Column ''id'' SUuid), required (Column ''email'' (SString 255)),
      required (Column ''hashed_password'' (SString 255)), required (Column ''is_superuser'' SBoolean), orm_created_at]
     [] [] [orm_index ''admin_users'' ''email'' True]"

definition audit_log_model :: table where
  "audit_log_model = orm_table ''audit_log''
     [primary_key (Column ''id'' SUuid), tenant_fk ''SET NULL'', required (Column ''event_type'' (SString 64)),
      Column ''correlation_id'' (SString 64), required (Column ''detail'' SJsonb), orm_created_at]
     [] [] [orm_index ''audit_log'' ''tenant_id'' False, orm_index ''audit_log'' ''event_type'' False]"

definition usage_records_model :: table where
  "usage_records_model = orm_table ''usage_records''
     [primary_key (Column ''id'' SUuid), required (tenant_fk ''CASCADE''), required (Column ''api_key_id'' (SString 16)),
      required (Column ''provider'' (SString 32)), required (Column ''model'' (SString 128)),
      required (Column ''prompt_tokens'' SInteger), required (Column ''completion_tokens'' SInteger),
      required (Column ''total_tokens'' SInteger), required (Column ''cost_usd'' (SNumeric 12 6)),
      required (Column ''cache_hit'' SBoolean), Column ''correlation_id'' (SString 64), orm_created_at]
     [] [] [orm_index ''usage_records'' ''tenant_id'' False]"

definition usage_rollups_model :: table where
  "usage_rollups_model = orm_table ''usage_rollups''
     [primary_key (Column ''id'' SUuid), required (tenant_fk ''CASCADE''), required (Column ''period_type'' (SString 8)),
      required (Column ''period_start'' SDateTime), required (Column ''request_count'' SInteger),
      required (Column ''cache_hit_count'' SInteger), required (Column ''prompt_tokens'' SInteger),
      required (Column ''completion_tokens'' SInteger), required (Column ''total_tokens'' SInteger),
      required (Column ''cost_usd'' (SNumeric 12 6)), orm_created_at]
     [(''ck_usage_rollups_period_type'', ''period_type IN ('hourly', 'daily')'')]
     [(''uq_usage_rollups_period'', [''tenant_id'', ''period_type'', ''period_start''])]
     [orm_index ''usage_rollups'' ''tenant_id'' False, orm_index ''usage_rollups'' ''period_start'' False]"

definition models :: "table list" where
  "models = [tenants_model, api_keys_model, admin_users_model, audit_log_model, usage_records_model, usage_rollups_model]"

text \<open>What a column stores: everything but its nullability, its default and where its uniqueness comes from.\<close>

definition column_shape :: "column \<Rightarrow> string \<times> sqltype \<times> bool \<times> (string \<times> string) option" where
  "column_shape c = (col_name c, col_type c, col_primary_key c, col_fk c)"

definition nullable_columns :: "table \<Rightarrow> string set" where
  "nullable_columns t = set (map col_name (filter col_nullable (tb_columns t)))"

text \<open>The single columns whose values a table keeps distinct, by a constraint or by an index.\<close>

definition unique_columns :: "table \<Rightarrow> string set" where
  "unique_columns t = set (map col_name (filter col_unique (tb_columns t)))
     \<union> set (concat (map ix_columns (filter (\<lambda>i. ix_unique i \<and> length (ix_columns i) = 1) (tb_indexes t))))"

definition agrees :: "table \<Rightarrow> table \<Rightarrow> bool" where
  "agrees db orm \<longleftrightarrow> tb_name db = tb_name orm
     \<and> set (map column_shape (tb_columns db)) = set (map column_shape (tb_columns orm))
     \<and> nullable_columns db = insert ''created_at'' (nullable_columns orm) \<and> ''created_at'' \<notin> nullable_columns orm
     \<and> unique_columns db = unique_columns orm \<and> set (tb_uniques db) = set (tb_uniques orm)
     \<and> set (tb_checks orm) \<subseteq> set (tb_checks db)
     \<and> set (map (\<lambda>i. (ix_name i, ix_columns i)) (tb_indexes orm)) \<subseteq> set (map (\<lambda>i. (ix_name i, ix_columns i)) (tb_indexes db))"


section \<open>Privileges\<close>

text \<open>The privilege a statement of the unit of work needs.\<close>

fun privilege_of :: "stmt \<Rightarrow> string \<times> string" where
  "privilege_of (Ins_tenant _) = (''INSERT'', ''tenants'')"
| "privilege_of (Upd_tenant _ _) = (''UPDATE'', ''tenants'')"
| "privilege_of (Ins_api_key _) = (''INSERT'', ''api_keys'')"
| "privilege_of (Upd_api_key _) = (''UPDATE'', ''api_keys'')"
| "privilege_of (Ins_admin _) = (''INSERT'', ''admin_users'')"
| "privilege_of (Ins_audit _ _ _ _) = (''INSERT'', ''audit_log'')"
| "privilege_of (Ins_usage _) = (''INSERT'', ''usage_records'')"

definition granted :: "string \<times> string \<Rightarrow> schema \<Rightarrow> bool" where
  "granted pt sc \<longleftrightarrow> (case the_table (snd pt) sc of None \<Rightarrow> False | Some t \<Rightarrow> (fst pt, APP_ROLE) \<in> set (tb_grants t))"

definition protected_tables :: "schema \<Rightarrow> string list" where
  "protected_tables sc = map tb_name (filter (\<lambda>t. tb_rls t \<and> ''tenant_isolation'' \<in> set (tb_policies t)) (sc_tables sc))"

lemma final_privileges:
  "let sc = schema_at 5 in
     granted (''INSERT'', ''tenants'') sc \<and> granted (''UPDATE'', ''tenants'') sc \<and> granted (''INSERT'', ''api_keys'') sc
     \<and> granted (''UPDATE'', ''api_keys'') sc \<and> \<not> granted (''INSERT'', ''admin_users'') sc \<and> granted (''INSERT'', ''audit_log'') sc
     \<and> granted (''INSERT'', ''usage_records'') sc
     \<and> list_all (\<lambda>t. (''DELETE'', APP_ROLE) \<notin> set (tb_grants t)) (sc_tables sc)
     \<and> protected_tables sc = [''api_keys'', ''audit_log'', ''usage_records'', ''usage_rollups'']"
  by code_simp

lemmas granted_tables = final_privileges [unfolded Let_def]

text \<open>
  The database model grants what the migrations grant: of the statements the program issues,
  the application's role is denied exactly those whose privilege the migrated schema does not give
  it, so it can never create an admin; nothing is granted to delete; and the tables under the
  tenant policy are the four the model filters by tenant.
\<close>

theorem privileges_match_schema:
  assumes "db_user s = App"
  shows "(exec_stmt s x = Inl PermissionDenied \<longleftrightarrow> \<not> granted (privilege_of x) (schema_at 5))
     \<and> (\<forall>n. \<not> granted (''DELETE'', n) (schema_at 5))
     \<and> protected_tables (schema_at 5) = [''api_keys'', ''audit_log'', ''usage_records'', ''usage_rollups'']"
proof -
  have "exec_stmt s x = Inl PermissionDenied \<longleftrightarrow> \<not> granted (privilege_of x) (schema_at 5)"
    using assms granted_tables by (cases "(s, x)" rule: exec_stmt.cases) (auto split: option.splits)
  moreover have "\<not> granted (''DELETE'', n) (schema_at 5)" for n
    using granted_tables by (auto simp: granted_def the_table_def list_all_iff find_Some_iff split: option.splits)
  ultimately show ?thesis using granted_tables by blast
qed

theorem privileges_match_schema_witness:
  "exec_stmt (open_session App 0 demo_db)
     (Ins_admin \<lparr>au_id = 9, au_email = ''x@example.com'', au_hashed_password = ''h'', au_is_superuser = True, au_created_at = 0\<rparr>)
     = Inl PermissionDenied"
proof -
  have "db_user (open_session App 0 demo_db) = App" by (simp add: open_session_def)
  from privileges_match_schema [OF this] show ?thesis using granted_tables by (metis privilege_of.simps(5))
qed

end
