(* ===== verification/Alembic_Env.thy ===== *)
theory Alembic_Env
  imports Migrations Lifecycle
begin

text \<open>
  \<^verbatim>\<open>alembic/env.py\<close>: how the migrations are run. Which operations a command asks for is alembic's business:
  they are an argument, here \<open>plan\<close>, the operations of the revisions between the present and the
  target one. A transaction of PostgreSQL covers statements that change the schema.
\<close>

section \<open>Running migrations\<close>

text \<open>The options of a migration context, and what it works on: a connection or only a script.\<close>

record migration_context =
  mc_url :: "string option"
  mc_connection :: "handle option"
  mc_literal_binds :: bool

text \<open>The world of a migration: the database's schema, and the script written so far.\<close>

record migration_world =
  mw_schema :: schema
  mw_script :: "op list"
  mw_context :: "migration_context option"

definition configure_context :: "migration_context \<Rightarrow> (migration_world, unit) action" where
  "configure_context c p = (Inr (), p\<lparr>pr_world := (pr_world p)\<lparr>mw_context := Some c\<rparr>\<rparr>)"

text \<open>\<open>with context.begin_transaction(): context.run_migrations()\<close>, on a connection.\<close>

definition migrate_in_transaction :: "bool \<Rightarrow> op list \<Rightarrow> (migration_world, unit) action" where
  "migrate_in_transaction populated ops p =
     (case run_ops populated ops (mw_schema (pr_world p)) of
        None \<Rightarrow> (Inl (Other_exn ''ProgrammingError''), p)
      | Some sc \<Rightarrow> (Inr (), p\<lparr>pr_world := (pr_world p)\<lparr>mw_schema := sc\<rparr>\<rparr>))"

definition run_migrations_offline :: "Settings \<Rightarrow> op list \<Rightarrow> (migration_world, unit) action" where
  "run_migrations_offline S ops =
     and_then (configure_context \<lparr>mc_url = Some (migration_database_url S), mc_connection = None, mc_literal_binds = True\<rparr>) (\<lambda>_ p.
       (Inr (), p\<lparr>pr_world := (pr_world p)\<lparr>mw_script := mw_script (pr_world p) @ ops\<rparr>\<rparr>))"

definition do_run_migrations :: "bool \<Rightarrow> op list \<Rightarrow> handle \<Rightarrow> (migration_world, unit) action" where
  "do_run_migrations populated ops connection =
     and_then (configure_context \<lparr>mc_url = None, mc_connection = Some connection, mc_literal_binds = False\<rparr>) (\<lambda>_.
       migrate_in_transaction populated ops)"

definition migration_engine :: "outside \<Rightarrow> Settings \<Rightarrow> ('w, handle \<times> string) action" where
  "migration_engine X S =
     and_then (call_out X Create_engine) (\<lambda>_. and_then (open_handle Engine) (\<lambda>h. give (h, migration_database_url S)))"

definition run_migrations_online :: "outside \<Rightarrow> Settings \<Rightarrow> bool \<Rightarrow> op list \<Rightarrow> (migration_world, unit) action" where
  "run_migrations_online X S populated ops =
     and_then (migration_engine X S) (\<lambda>(connectable, url).
     and_then (call_out X Connect_engine) (\<lambda>_.
     and_then (do_run_migrations populated ops connectable) (\<lambda>_.
     and_then (call_out X Dispose_engine) (\<lambda>_. close_handle connectable))))"

definition run_env :: "outside \<Rightarrow> bool \<Rightarrow> bool \<Rightarrow> op list \<Rightarrow> (migration_world, unit) action" where
  "run_env X is_offline_mode populated ops =
     and_then get_settings (\<lambda>S.
       if is_offline_mode then run_migrations_offline S ops else run_migrations_online X S populated ops)"

section \<open>From one revision to another\<close>

definition plan :: "nat \<Rightarrow> nat \<Rightarrow> op list" where
  "plan k j = (if k \<le> j then concat (map (\<lambda>i. fst (revisions ! i)) [k..<j])
               else concat (map (\<lambda>i. snd (revisions ! i)) (rev [j..<k])))"

lemma run_ops_append: "run_ops p (xs @ ys) sc = Option.bind (run_ops p xs sc) (run_ops p ys)"
  by (induction xs arbitrary: sc) (auto split: bind_splits)

lemma plan_up: "k \<le> j \<Longrightarrow> j \<le> 5 \<Longrightarrow> run_ops p (concat (map (\<lambda>i. fst (revisions ! i)) [k..<j])) (schema_at k) = Some (schema_at j)"
proof (induction j)
  case (Suc j)
  show ?case
  proof (cases "k = Suc j")
    case False
    then have "k \<le> j" "j < 5" using Suc.prems by simp_all
    then show ?thesis using Suc.IH up_down_at(1) [of j p] by (simp add: run_ops_append)
  qed simp
qed simp

lemma plan_down: "j \<le> k \<Longrightarrow> k \<le> 5 \<Longrightarrow> run_ops p (concat (map (\<lambda>i. snd (revisions ! i)) (rev [j..<k]))) (schema_at k) = Some (schema_at j)"
proof (induction k)
  case (Suc k)
  show ?case
  proof (cases "j = Suc k")
    case False
    then have "j \<le> k" "k < 5" using Suc.prems by simp_all
    then show ?thesis using Suc.IH up_down_at(2) [of k p] by (simp add: run_ops_append)
  qed simp
qed simp

lemma plan_lands: "k \<le> 5 \<Longrightarrow> j \<le> 5 \<Longrightarrow> run_ops p (plan k j) (schema_at k) = Some (schema_at j)"
  by (simp add: plan_def plan_up plan_down)

text \<open>
  The environment of the migrations, over every database that the migrations have brought to its
  present revision: online, with a database that can be reached, it moves the schema exactly to the target
  revision in one transaction and closes its engine; when the connection or an operation
  fails, the schema is the one before; offline it changes nothing and writes exactly the
  operations asked for.
\<close>

theorem migration_lands_on_target:
  assumes "migrated k (mw_schema (pr_world p))" "j \<le> length revisions" "get_settings p = (Inr S, q)"
    and "\<forall>c. raises X c = None"
  shows "mw_schema (pr_world (snd (run_env X False populated (plan k j) p))) = schema_at j
     \<and> fst (run_env X False populated (plan k j) p) = Inr ()
     \<and> set (pr_live (snd (run_env X False populated (plan k j) p))) \<subseteq> set (pr_live p)
     \<and> mw_schema (pr_world (snd (run_env X True populated (plan k j) p))) = schema_at k
     \<and> mw_script (pr_world (snd (run_env X True populated (plan k j) p))) = mw_script (pr_world p) @ plan k j"
proof -
  have k: "k \<le> 5" "mw_schema (pr_world p) = schema_at k" using migrated_schema [OF assms(1)] by simp_all
  have q: "pr_world q = pr_world p" "pr_live q = pr_live p"
    using assms(3) by (auto simp: get_settings_def split: option.splits sum.splits)
  have "run_ops populated (plan k j) (schema_at k) = Some (schema_at j)"
    using plan_lands k(1) assms(2) by (simp add: length_revisions)
  then show ?thesis
    using assms(4) k q
    by (auto simp: run_env_def run_migrations_online_def run_migrations_offline_def do_run_migrations_def migration_engine_def
        migrate_in_transaction_def configure_context_def and_then_def give_def call_out_def open_handle_def close_handle_def assms(3))
qed

lemma failed_migration_changes_nothing:
  assumes "get_settings p = (Inr S, q)" "run_env X False populated ops p = (Inl e, p')" "raises X Dispose_engine = None"
  shows "mw_schema (pr_world p') = mw_schema (pr_world p)"
proof -
  have "pr_world q = pr_world p" using assms(1) by (auto simp: get_settings_def split: option.splits sum.splits)
  then show ?thesis
    using assms(2,3)
    by (auto simp: run_env_def run_migrations_online_def do_run_migrations_def migration_engine_def
        migrate_in_transaction_def configure_context_def and_then_def give_def call_out_def open_handle_def close_handle_def assms(1)
        split: option.splits)
qed

end
