(* ===== verification/Spec2Isabelle.thy ===== *)
theory Spec2Isabelle
  imports Proxy_Streaming Traffic Admin_Routes Seed Worker_Properties Alembic_Env
begin

text \<open>
  A verification library for Aegis Gateway, a multi-tenant gateway in front of LLM providers. The
  paths below are relative to \<^verbatim>\<open>src/aegis_gateway\<close>, unless they start with \<^verbatim>\<open>alembic\<close> or \<^verbatim>\<open>scripts\<close>.

  \<^bold>\<open>The program.\<close> A request to \<^verbatim>\<open>/v1/chat/completions\<close> passes the middlewares (\<^verbatim>\<open>middleware/\<close>), is
  authenticated by API key, and then runs through \<^verbatim>\<open>api/proxy.py\<close>: idempotency replay and lock, the
  three request limits and the concurrency slot in Redis, redaction of personal data and detection
  of prompt injections, the response cache, and the provider call behind a retry loop and a circuit
  breaker, as one JSON answer or as a stream. It leaves usage and audit rows in PostgreSQL under
  row-level security. Administrators manage tenants and keys through \<^verbatim>\<open>api/admin.py\<close>; a worker rolls
  usage up and alerts on budgets; a script bootstraps the first tenant and admin; migrations set up
  the schema. The process builds its engine, pools, clients and detectors in the lifespan of its
  application and closes them at the end.

  \<^bold>\<open>Theories and sources.\<close>
  \<^item> \<open>Aegis_Prelude\<close>, \<open>Lua_Numbers\<close>, \<open>Uuid\<close>, \<open>Uuid_Parse\<close>: text functions of Python, result types,
    decimal rounding and printing; Lua's printing of numbers to 14 digits; UUIDs as 128-bit words.
  \<^item> \<open>Redis_Api\<close>: the commands the gateway uses, as a record, and the contract \<open>redis_server\<close> of the
    server, interpreted on an in-memory server.
  \<^item> \<open>Schemas\<close>, \<open>Json\<close>, \<open>Config\<close>: \<^verbatim>\<open>schemas/\<close>, \<^verbatim>\<open>json.dumps\<close>, \<^verbatim>\<open>core/config.py\<close>.
  \<^item> \<open>Rate_Limiter\<close>, \<open>Rate_Limits\<close>, \<open>Slots\<close>: \<^verbatim>\<open>services/rate_limiter.py\<close>; both Lua scripts, the limits
    over whole runs of checks, and the slot commands of concurrent requests interleaved.
  \<^item> \<open>Pricing\<close>, \<open>Token_Counter\<close>, \<open>Cache\<close>, \<open>Idempotency\<close>, \<open>Embeddings\<close>: the services of these names.
  \<^item> \<open>Circuit_Breaker\<close>, \<open>Retry\<close>, \<open>Provider_Errors\<close>, \<open>Provider\<close>, \<open>Provider_Calls\<close>: \<^verbatim>\<open>providers/\<close>.
  \<^item> \<open>Pii\<close>, \<open>Regex\<close>, \<open>Prompt_Injection\<close>: \<^verbatim>\<open>detectors/\<close>, with an executable matcher for the patterns.
  \<^item> \<open>Security\<close>, \<open>Auth\<close>: \<^verbatim>\<open>core/security.py\<close>, \<^verbatim>\<open>middleware/auth.py\<close>, \<^verbatim>\<open>middleware/admin_auth.py\<close>.
  \<^item> \<open>Database\<close>, \<open>Ledger\<close>, \<open>Migrations\<close>: \<^verbatim>\<open>db/\<close>, \<^verbatim>\<open>services/audit.py\<close>, \<^verbatim>\<open>services/usage.py\<close>, \<^verbatim>\<open>alembic/versions\<close>.
  \<^item> \<open>Proxy\<close>, \<open>Proxy_Resources\<close>, \<open>Proxy_Accounting\<close>, \<open>Proxy_Streaming\<close>: \<^verbatim>\<open>api/proxy.py\<close>.
  \<^item> \<open>Http_App\<close>: the handling of one request by \<^verbatim>\<open>main.py\<close>, \<^verbatim>\<open>middleware/request_id.py\<close>, \<^verbatim>\<open>middleware/metrics.py\<close>,
    \<^verbatim>\<open>api/health.py\<close>, \<^verbatim>\<open>api/metrics.py\<close>.
  \<^item> \<open>Observability\<close>, \<open>Lifecycle\<close>, \<open>Lifecycle_Properties\<close>: \<^verbatim>\<open>core/logging.py\<close>, \<^verbatim>\<open>core/tracing.py\<close>; \<open>create_app\<close> and
    \<open>lifespan\<close> of \<^verbatim>\<open>main.py\<close>, \<^verbatim>\<open>api/deps.py\<close>, \<^verbatim>\<open>db/redis.py\<close>, the engine of \<^verbatim>\<open>db/session.py\<close> and the worker's \<open>startup\<close>
    and \<open>shutdown\<close>.
  \<^item> \<open>Traffic\<close>: chat requests one after another through the started application.
  \<^item> \<open>Admin_Api\<close>, \<open>Admin_Invariants\<close>, \<open>Admin_Properties\<close>, \<open>Admin_Routes\<close>: \<^verbatim>\<open>api/admin.py\<close>, \<^verbatim>\<open>schemas/admin.py\<close>, with the
    router in front of the endpoints.
  \<^item> \<open>Workers\<close>, \<open>Worker_Properties\<close>: \<^verbatim>\<open>workers/tasks.py\<close>, \<^verbatim>\<open>workers/settings.py\<close>; \<open>Seed\<close>: \<^verbatim>\<open>scripts/seed.py\<close>;
    \<open>Alembic_Env\<close>: \<^verbatim>\<open>alembic/env.py\<close>.

  \<^bold>\<open>State and operations.\<close> The endpoint works on a \<open>gateway\<close>: the Redis server's state, a database
  session, the providers with their breakers, and the counters incremented so far. A session is the
  committed tables, the transaction's view of them, the unit of work's pending statements and the
  two row-security settings; \<open>commit\<close> executes the statements, clears the settings, and rolls back
  on an error. Every handler is one function from its arguments and the state to a result and the
  state, with every early return and exception a value of the result. Exceptions a handler does not
  catch are kept apart from HTTP errors (\<open>failure\<close>). A \<open>process\<close> keeps the settings, the logging and
  tracing configuration, the application's state and the resources it has opened and not closed; its
  world is what serving requests changes, a \<open>site\<close> with Redis, the tables and the providers.

  \<^bold>\<open>What the theorems show.\<close>
  \<^item> Limits: what any run of checks admits in a window or a month, that one script call is one step of
    an abstract bucket, that the combined limits decide as specified, and that the concurrency cap
    holds in every interleaving while its key lives.
  \<^item> Resources of a request: slots and locks are given back on every path but the uncaught ones, and
    which requests keep them; nothing of another tenant is touched.
  \<^item> Accounting: one request adds at most one usage row, of the tenant and key that authenticated it
    and with the figures of its answer; replay is verbatim and free; with redaction on only redacted
    text leaves; a stream reaches the client chunk for chunk.
  \<^item> Identity: authentication accepts exactly the valid keys of active tenants, failures are audited,
    revocation is permanent, issued keys and the bootstrap work, row-level security isolates tenants,
    the tables stay well-formed under every sequence of requests, and the administration router
    admits nobody without an administrator's token.
  \<^item> Providers: the breaker's invariant and its transitions, and the retry loop's termination.
  \<^item> Workers: rollups are exact and repeatable, and every usage record falls into exactly one scheduled
    hourly and one daily run; what one budget scan reports, and that repeated scans
    report everything that was due exactly once.
  \<^item> Process: every dependency resolves while requests are served, what was opened is closed,
    which failures leave resources open; over any sequence of requests slots and locks
    balance up to server failures; and a whole run from start to end bills each request at most once,
    to whom its credentials belong.
  \<^item> Schema: the migrations are reversible in any order, agree with the models and grant what the
    database model assumes; a migration run lands on its target or changes nothing.
  Several theorems state behaviour the documentation does not intend: a probe that wedges the
  breaker, a slot kept after a failed audit, an abandoned stream in the cache, a budget that cannot
  be patched, a scan that stops seeing spend after its first alert, server errors that are not
  counted, a failed start or close that leaves resources open, a tracer that later applications get shut
  down.

  \<^bold>\<open>Interfaces.\<close> Outside code is an argument: Redis (\<open>redis_api\<close> with the locale \<open>redis_server\<close>), the
  HTTP exchange with a provider (\<open>upstream\<close>), the hash, password and token libraries (\<open>crypto\<close>),
  serialisation and SHA-256 (\<open>codec\<close>), tiktoken, Presidio, the embeddings service, random numbers,
  clocks, and which calls that build or close a resource raise (\<open>outside\<close>). The client lemmas on Redis are proved inside \<open>redis_server\<close>, those on a request's resources
  inside \<open>endpoint_services\<close>, which \<open>redis_gateway\<close> discharges for every server that meets the
  contract; both are interpreted on the in-memory server.

  \<^bold>\<open>Bounds and choices.\<close> No fuel is used: every loop of the program is bounded by its data or by
  \<open>max_attempts\<close>, and the definitions are total. Money and Lua numbers are exact rationals with the
  program's own roundings written out; limits below \<open>10 ^ 14\<close> are represented exactly by Lua's 14
  digits. Scores and cosine similarities are real numbers. Column widths, 32-bit integers and
  numeric scales are checked where a row is written. A client that leaves is a stream closed at a
  \<open>yield\<close>; cancellation inside an \<open>await\<close> is not modelled. Database transactions run one after
  another; interleaving is modelled where the code shares Redis keys. Random identifiers of audit and
  usage rows are not checked for collisions.

  \<^bold>\<open>Not modelled.\<close> What structlog, OpenTelemetry and the Prometheus client do with their configuration;
  the reading of environment variables and of request bodies, which is pydantic's; the parsing of
  \<^verbatim>\<open>scripts/seed.py\<close>'s arguments; log lines and spans, which have no effect on an outcome.
\<close>

section \<open>A whole run of the gateway\<close>

lemma serve_all_ready:
  assumes "dependencies_ready X S live st" "db_ok (si_db w)"
  shows "\<exists>w' rowss. serve_all K cs st w = (Inr (), w') \<and> same_access (si_db w) (si_db w')
     \<and> usage_records (si_db w') = usage_records (si_db w) @ concat rowss
     \<and> list_all2 (attributed K (api_key_pepper S) (si_db w)) cs rowss"
proof -
  have reg: "get_provider_registry st = Inr (registry_of S)" using assms(1) by (simp add: dependencies_ready_def)
  obtain resps w' where run: "serve_chats K st cs (w\<lparr>si_providers := registry_of S\<rparr>) = (resps, w')" by fastforce
  have "db_ok (si_db (w\<lparr>si_providers := registry_of S\<rparr>))" using assms(2) by simp
  from serve_chats_attributed [OF assms(1) this run] show ?thesis by (auto simp: serve_all_def reg run)
qed

text \<open>
  C12. The gateway from its start to its end. A process that can start, serving any sequence of
  chat requests from any clients against well-formed tables and closing down undisturbed, ends
  normally and leaves no resource open; tenants and keys are what they were, but for the last-used times; and the
  usage table has grown request by request: by at most one row each, in the order of the
  requests, and that row names the key and the tenant to which the request's credentials belonged
  in the tables at the start. So without credentials nobody is billed, and nobody for another's request.
\<close>

theorem gateway_run:
  fixes p :: "'s site process"
  assumes "process_ok p" "get_settings p = (Inr S, q)" "log_level S \<in> set (map fst LEVEL_NAMES)"
    and "startup_raises X S = None" "closing_raises X = None" "db_ok (si_db (pr_world p))"
  defines "d \<equiv> si_db (pr_world p)"
  shows "\<exists>p' rowss. run_app X (serve_all K cs) p = (Inr (), p') \<and> pr_live p' = pr_live p
     \<and> db_ok (si_db (pr_world p')) \<and> same_access d (si_db (pr_world p'))
     \<and> usage_records (si_db (pr_world p')) = usage_records d @ concat rowss
     \<and> list_all2 (attributed K (api_key_pepper S) d) cs rowss"
proof -
  obtain st p' live where run: "dependencies_ready X S live st" "run_app X (serve_all K cs) p = (fst (serve_all K cs st (pr_world p)), p')"
    "pr_world p' = snd (serve_all K cs st (pr_world p))" "pr_live p' = pr_live p"
    using run_app_served [OF assms(1-4), of "serve_all K cs"] assms(5) by (auto simp: still_open_def)
  obtain w' rowss where w: "serve_all K cs st (pr_world p) = (Inr (), w')" "same_access d (si_db w')"
    "usage_records (si_db w') = usage_records d @ concat rowss" "list_all2 (attributed K (api_key_pepper S) d) cs rowss"
    using serve_all_ready [OF run(1) assms(6)] unfolding d_def by blast
  have "db_ok (si_db w')" using same_access_db_ok [OF w(2)] assms(6) by (simp add: d_def)
  then show ?thesis using run w by (intro exI [of _ p'] exI [of _ rowss]) simp
qed

theorem gateway_run_witness:
  "\<exists>p'. run_app demo_outside (serve_all demo_crypto [demo_call ''wrong'', demo_call ''wrong'']) (fresh_process default_settings demo_site)
       = (Inr (), p') \<and> pr_live p' = [] \<and> length (usage_records (si_db (pr_world p'))) \<le> 2"
proof -
  have d: "db_ok demo_db" "usage_records demo_db = []" by code_simp+
  have c: "closing_raises demo_outside = None" by (simp add: closing_raises_def demo_outside_def)
  have "db_ok (si_db (pr_world (fresh_process default_settings demo_site)))" using d by (simp add: fresh_ok demo_site_def)
  from gateway_run [OF fresh_ok(1) fresh_settings default_level demo_startup c this, where K = demo_crypto and cs = "[demo_call ''wrong'', demo_call ''wrong'']"]
  obtain p' rowss where g: "run_app demo_outside (serve_all demo_crypto [demo_call ''wrong'', demo_call ''wrong'']) (fresh_process default_settings demo_site)
      = (Inr (), p')" "pr_live p' = []" "usage_records (si_db (pr_world p')) = concat rowss"
    "list_all2 (attributed demo_crypto (api_key_pepper default_settings) demo_db) [demo_call ''wrong'', demo_call ''wrong''] rowss"
    by (auto simp: fresh_ok demo_site_def d)
  have "length (concat rowss) \<le> 2" using g(4) by (auto simp: list_all2_Cons1 attributed_def)
  then show ?thesis using g(1-3) by auto
qed

end
